(* ===== verification/Prelude.thy ===== *)
theory Prelude
  imports Main "HOL-Library.Word" "HOL-Library.Monad_Syntax"
begin

text \<open>
  Vocabulary and generic facts shared by all components.

  A C++ \<^verbatim>\<open>std::string\<close> and a \<^verbatim>\<open>const char*\<close> buffer with its length are both a
  HOL \<open>string\<close> (a list of 8-bit characters).  \<open>be_chars\<close>/\<open>be_nat\<close> are the
  big-endian (network order) encoding of a number in a given count of bytes, and \<open>mem32\<close>/\<open>load32\<close>
  the memory image of a 32-bit integer on the little-endian x86-64 target the repository is built for.

  An operation whose C++ counterpart can run into undefined behaviour (null or dangling pointer,
  read past the end) or leave with an uncaught exception has an \<open>option\<close> result: \<open>None\<close> is the
  fault.  Ordinary error returns (\<open>-1\<close>, \<open>false\<close>) stay ordinary values.
\<close>

named_theorems grtc_simps \<open>rewriting equations of the models, for \<open>simp add: grtc_simps\<close>\<close>

type_synonym u8 = "8 word"
type_synonym u16 = "16 word"
type_synonym u32 = "32 word"
type_synonym u64 = "64 word"

section \<open>Narrowing to a 32-bit \<^verbatim>\<open>int\<close>\<close>

text \<open>The value of a 64-bit integer stored into a C++ \<^verbatim>\<open>int\<close> (two's complement).\<close>

definition to_int32 :: "int \<Rightarrow> int" where
  "to_int32 x = (x + 2147483648) mod 4294967296 - 2147483648"

lemma to_int32_id: "-2147483648 \<le> x \<Longrightarrow> x < 2147483648 \<Longrightarrow> to_int32 x = x"
  by (simp add: to_int32_def)

lemma to_int32_range: "-2147483648 \<le> to_int32 x" "to_int32 x < 2147483648"
  using pos_mod_bound [of 4294967296 "x + 2147483648"] by (simp_all add: to_int32_def)

section \<open>Big-endian encoding\<close>

primrec be_chars :: "nat \<Rightarrow> nat \<Rightarrow> string" where
  "be_chars 0 n = []"
| "be_chars (Suc k) n = be_chars k (n div 256) @ [char_of n]"

definition be_nat :: "string \<Rightarrow> nat" where
  "be_nat cs = foldl (\<lambda>n c. n * 256 + of_char c) 0 cs"

lemma be_nat_simps [simp]:
  "be_nat [] = 0"
  "be_nat (cs @ [c]) = be_nat cs * 256 + of_char c"
  by (simp_all add: be_nat_def)

lemma of_char_lt [simp]: "(of_char c :: nat) < 256"
  using of_char_mod_256 [of c, where 'a = nat] by (metis mod_less_divisor zero_less_numeral)

lemma of_char_char_of_nat [simp]: "of_char (char_of (n :: nat) :: char) = n mod 256"
  by (simp add: of_char_of)

lemma length_be_chars [simp]: "length (be_chars k n) = k"
  by (induction k arbitrary: n) simp_all

lemma be_nat_be_chars [simp]: "be_nat (be_chars k n) = n mod 256 ^ k"
proof (induction k arbitrary: n)
  case (Suc k)
  have "be_nat (be_chars (Suc k) n) = n div 256 mod 256 ^ k * 256 + n mod 256"
    by (simp add: Suc.IH)
  then show ?case by (simp add: mod_mult2_eq)
qed simp

lemma be_nat_lt: "be_nat s < 256 ^ length s"
proof (induction s rule: rev_induct)
  case (snoc c s)
  then show ?case
    using of_char_lt [of c] by (simp del: of_char_lt)
qed simp

lemma be_chars_be_nat: "be_chars (length s) (be_nat s) = s"
proof (induction s rule: rev_induct)
  case (snoc c s)
  moreover have "(be_nat s * 256 + of_char c) mod 256 = (of_char c :: nat)"
    using of_char_lt [of c] by (simp del: of_char_lt)
  moreover have "(be_nat s * 256 + of_char c) div 256 = be_nat s"
    using of_char_lt [of c] by (simp del: of_char_lt)
  ultimately show ?case by (simp add: char_of_eq_iff take_bit_eq_mod)
qed simp

lemma be_chars_inj:
  "m < 256 ^ k \<Longrightarrow> n < 256 ^ k \<Longrightarrow> be_chars k m = be_chars k n \<Longrightarrow> m = n"
  by (metis be_nat_be_chars mod_less)

lemma unat_mod_width [simp]:
  "unat (a :: u8) mod 256 = unat a"
  "unat (b :: u16) mod 65536 = unat b"
  "unat (c :: u32) mod 4294967296 = unat c"
  "unat (d :: u64) mod 18446744073709551616 = unat d"
  using unsigned_less [of a, where 'a = nat] unsigned_less [of b, where 'a = nat]
    unsigned_less [of c, where 'a = nat] unsigned_less [of d, where 'a = nat]
  by simp_all

text \<open>Memory image of a \<^verbatim>\<open>uint32_t\<close> on the (little-endian) target, and \<^verbatim>\<open>memcpy\<close> back.\<close>

definition mem32 :: "u32 \<Rightarrow> string" where
  "mem32 w = rev (be_chars 4 (unat w))"

definition load32 :: "string \<Rightarrow> u32" where
  "load32 s = word_of_nat (be_nat (rev s))"

lemma load32_mem32 [simp]: "load32 (mem32 w) = w"
  by (simp add: load32_def mem32_def)

lemma length_mem32 [simp]: "length (mem32 w) = 4"
  by (simp add: mem32_def)

section \<open>Decimal numbers\<close>

text \<open>\<^verbatim>\<open>std::to_string\<close> and \<^verbatim>\<open>operator<<\<close> on integers.\<close>

fun dec_digits :: "nat \<Rightarrow> string" where
  "dec_digits n = (if n < 10 then [char_of (48 + n)] else dec_digits (n div 10) @ [char_of (48 + n mod 10)])"

declare dec_digits.simps [simp del]

definition dec_int :: "int \<Rightarrow> string" where
  "dec_int i = (if i < 0 then CHR ''-'' # dec_digits (nat (- i)) else dec_digits (nat i))"

definition is_digit :: "char \<Rightarrow> bool" where
  "is_digit c \<longleftrightarrow> 48 \<le> (of_char c :: nat) \<and> (of_char c :: nat) \<le> 57"

lemma dec_digits_digits: "c \<in> set (dec_digits n) \<Longrightarrow> is_digit c"
proof (induction n rule: dec_digits.induct)
  case (1 n)
  have d: "is_digit (char_of (48 + k))" if "k < 10" for k :: nat
    using that by (simp add: is_digit_def)
  show ?case
  proof (cases "n < 10")
    case True
    then show ?thesis using "1.prems" d [of n] by (simp add: dec_digits.simps [of n])
  next
    case False
    then show ?thesis
      using "1.prems" "1.IH" d [of "n mod 10"] by (auto simp: dec_digits.simps [of n])
  qed
qed

section \<open>Lists\<close>

lemma take_append_length [simp]: "take (length xs) (xs @ ys) = xs"
  by simp

lemma list_update_last: "(xs @ [x])[length xs := y] = xs @ [y]"
  by simp

text \<open>A growable array (\<^verbatim>\<open>std::vector::resize(n, v)\<close>).\<close>

definition resize :: "nat \<Rightarrow> 'a \<Rightarrow> 'a list \<Rightarrow> 'a list" where
  "resize n v xs = take n xs @ replicate (n - length xs) v"

lemma length_resize [simp]: "length (resize n v xs) = n"
  by (simp add: resize_def)

lemma nth_resize: "i < n \<Longrightarrow> resize n v xs ! i = (if i < length xs then xs ! i else v)"
  by (auto simp: resize_def nth_append)

text \<open>A bounds-checked array read: \<open>None\<close> is the out-of-bounds access.\<close>

definition at_index :: "'a list \<Rightarrow> nat \<Rightarrow> 'a option" where
  "at_index xs i = (if i < length xs then Some (xs ! i) else None)"

lemma at_index_simps [simp]:
  "i < length xs \<Longrightarrow> at_index xs i = Some (xs ! i)"
  "\<not> i < length xs \<Longrightarrow> at_index xs i = None"
  by (simp_all add: at_index_def)

lemma at_index_Some_iff: "at_index xs i = Some x \<longleftrightarrow> i < length xs \<and> x = xs ! i"
  by (auto simp: at_index_def)

lemma find_append: "find P (xs @ ys) = (case find P xs of None \<Rightarrow> find P ys | Some x \<Rightarrow> Some x)"
  by (induction xs) auto

end
