(* ===== verification/Rtc_Base.thy ===== *)
theory Rtc_Base
  imports Prelude
begin

text \<open>
  The part of WebRTC's \<^verbatim>\<open>rtc_base\<close> that grtcserver links against (\<^verbatim>\<open>../rtcbase/src\<close>,
  \<^verbatim>\<open>librtcbase.a\<close>).  Its sources are not in this repository, so its functions are the fields of a
  record \<open>rtcbase\<close>, an argument \<open>rt\<close> of every definition that calls one of them.  What the code
  relies on is stated by the predicates \<open>byte_buffer_ok\<close>, \<open>byte_order_ok\<close>, \<open>hmac_ok\<close> and
  \<open>split_ok\<close>, hypotheses of the theorems that need them; \<open>ref_rtc\<close> is an instance that satisfies
  all of them and serves the witnesses.
\<close>

section \<open>Addresses\<close>

text \<open>
  \<^verbatim>\<open>rtc::IPAddress\<close> by its observations: an unspecified address, an \<^verbatim>\<open>in_addr\<close> (its
  \<^verbatim>\<open>s_addr\<close> word) or an \<^verbatim>\<open>in6_addr\<close> (its 16 bytes); \<^verbatim>\<open>rtc::SocketAddress\<close> adds the port.
\<close>

datatype ip_address = IPUnspec | IPv4 u32 | IPv6 string

datatype af = AF_UNSPEC | AF_INET | AF_INET6

primrec ip_family :: "ip_address \<Rightarrow> af" where
  "ip_family IPUnspec = AF_UNSPEC"
| "ip_family (IPv4 a) = AF_INET"
| "ip_family (IPv6 a) = AF_INET6"

record socket_address =
  ipaddr :: ip_address
  sport :: u16

abbreviation addr_family :: "socket_address \<Rightarrow> af" where
  "addr_family a \<equiv> ip_family (ipaddr a)"

section \<open>The library interface\<close>

record rtcbase =
  ReadUInt16 :: "string \<Rightarrow> (u16 \<times> string) option"
  ReadUInt32 :: "string \<Rightarrow> (u32 \<times> string) option"
  ReadUInt64 :: "string \<Rightarrow> (u64 \<times> string) option"
  ReadBytes :: "nat \<Rightarrow> string \<Rightarrow> (string \<times> string) option"
  Consume :: "nat \<Rightarrow> string \<Rightarrow> string option"
  WriteUInt8 :: "u8 \<Rightarrow> string \<Rightarrow> string"
  WriteUInt16 :: "u16 \<Rightarrow> string \<Rightarrow> string"
  WriteUInt32 :: "u32 \<Rightarrow> string \<Rightarrow> string"
  WriteUInt64 :: "u64 \<Rightarrow> string \<Rightarrow> string"
  WriteBytes :: "string \<Rightarrow> string \<Rightarrow> string"
  GetBE16 :: "string \<Rightarrow> u16"
  GetBE32 :: "string \<Rightarrow> u32"
  SetBE16 :: "u16 \<Rightarrow> string \<Rightarrow> string"
  NetworkToHost32 :: "u32 \<Rightarrow> u32"
  HostToNetwork32 :: "u32 \<Rightarrow> u32"
  ComputeCrc32 :: "string \<Rightarrow> u32"
  ComputeHmac :: "string \<Rightarrow> string \<Rightarrow> nat \<times> string"
  rtc_split :: "string \<Rightarrow> char \<Rightarrow> string list"
  rtc_tokenize :: "string \<Rightarrow> char \<Rightarrow> string list"
  IPAddressPrecedence :: "ip_address \<Rightarrow> int"
  IPIsPrivateNetwork :: "ip_address \<Rightarrow> bool"
  IPIsLoopback :: "ip_address \<Rightarrow> bool"
  HostAsURIString :: "ip_address \<Rightarrow> string"
  GetNextMovingAverage :: "int \<Rightarrow> int \<Rightarrow> int \<Rightarrow> int"

text \<open>
  \<^verbatim>\<open>ByteBufferReader\<close>: the reader is the unread rest of the buffer; integers are read in network
  byte order, a read past the end fails and consumes nothing.  \<^verbatim>\<open>ByteBufferWriter\<close> appends.
\<close>

definition byte_buffer_ok :: "rtcbase \<Rightarrow> bool" where
  "byte_buffer_ok rt \<longleftrightarrow>
     (\<forall>s. ReadUInt16 rt s =
        (if length s < 2 then None else Some (word_of_nat (be_nat (take 2 s)), drop 2 s))) \<and>
     (\<forall>s. ReadUInt32 rt s =
        (if length s < 4 then None else Some (word_of_nat (be_nat (take 4 s)), drop 4 s))) \<and>
     (\<forall>s. ReadUInt64 rt s =
        (if length s < 8 then None else Some (word_of_nat (be_nat (take 8 s)), drop 8 s))) \<and>
     (\<forall>n s. ReadBytes rt n s = (if length s < n then None else Some (take n s, drop n s))) \<and>
     (\<forall>n s. Consume rt n s = (if length s < n then None else Some (drop n s))) \<and>
     (\<forall>w b. WriteUInt8 rt w b = b @ be_chars 1 (unat w)) \<and>
     (\<forall>w b. WriteUInt16 rt w b = b @ be_chars 2 (unat w)) \<and>
     (\<forall>w b. WriteUInt32 rt w b = b @ be_chars 4 (unat w)) \<and>
     (\<forall>w b. WriteUInt64 rt w b = b @ be_chars 8 (unat w)) \<and>
     (\<forall>s b. WriteBytes rt s b = b @ s)"

text \<open>\<^verbatim>\<open>byte_order.h\<close>: reads of at least as many bytes as the integer has.\<close>

definition byte_order_ok :: "rtcbase \<Rightarrow> bool" where
  "byte_order_ok rt \<longleftrightarrow>
     (\<forall>s. 2 \<le> length s \<longrightarrow> GetBE16 rt s = word_of_nat (be_nat (take 2 s))) \<and>
     (\<forall>s. 4 \<le> length s \<longrightarrow> GetBE32 rt s = word_of_nat (be_nat (take 4 s))) \<and>
     (\<forall>s w. 2 \<le> length s \<longrightarrow> SetBE16 rt w s = be_chars 2 (unat w) @ drop 2 s) \<and>
     (\<forall>s. length s = 4 \<longrightarrow> NetworkToHost32 rt (load32 s) = word_of_nat (be_nat s)) \<and>
     (\<forall>w. mem32 (HostToNetwork32 rt w) = be_chars 4 (unat w))"

text \<open>\<^verbatim>\<open>ComputeHmac(DIGEST_SHA_1, ...)\<close> returns the 20 bytes of the digest.\<close>

definition hmac_ok :: "rtcbase \<Rightarrow> bool" where
  "hmac_ok rt \<longleftrightarrow> (\<forall>key d. fst (ComputeHmac rt key d) = 20 \<and> length (snd (ComputeHmac rt key d)) = 20)"

text \<open>
  \<^verbatim>\<open>rtc::split\<close>: fields between delimiters, duplicates create empty fields;
  \<^verbatim>\<open>rtc::tokenize\<close>: the non-empty ones.
\<close>

fun fields_of :: "string \<Rightarrow> char \<Rightarrow> string list" where
  "fields_of [] d = [[]]"
| "fields_of (c # cs) d =
     (if c = d then [] # fields_of cs d
      else case fields_of cs d of [] \<Rightarrow> [[c]] | f # fs \<Rightarrow> (c # f) # fs)"

definition split_ok :: "rtcbase \<Rightarrow> bool" where
  "split_ok rt \<longleftrightarrow>
     (\<forall>s d. rtc_split rt s d = fields_of s d) \<and>
     (\<forall>s d. rtc_tokenize rt s d = filter (\<lambda>f. f \<noteq> []) (fields_of s d))"

section \<open>Rewriting with the laws\<close>

lemma byte_buffer_simps [grtc_simps]:
  assumes "byte_buffer_ok rt"
  shows "ReadUInt16 rt s =
           (if length s < 2 then None else Some (word_of_nat (be_nat (take 2 s)), drop 2 s))"
    and "ReadUInt32 rt s =
           (if length s < 4 then None else Some (word_of_nat (be_nat (take 4 s)), drop 4 s))"
    and "ReadUInt64 rt s =
           (if length s < 8 then None else Some (word_of_nat (be_nat (take 8 s)), drop 8 s))"
    and "ReadBytes rt n s = (if length s < n then None else Some (take n s, drop n s))"
    and "Consume rt n s = (if length s < n then None else Some (drop n s))"
    and "WriteUInt8 rt w8 b = b @ be_chars 1 (unat w8)"
    and "WriteUInt16 rt w16 b = b @ be_chars 2 (unat w16)"
    and "WriteUInt32 rt w32 b = b @ be_chars 4 (unat w32)"
    and "WriteUInt64 rt w64 b = b @ be_chars 8 (unat w64)"
    and "WriteBytes rt s b = b @ s"
  using assms by (simp_all add: byte_buffer_ok_def)

lemma byte_order_simps [grtc_simps]:
  assumes "byte_order_ok rt"
  shows "2 \<le> length s \<Longrightarrow> GetBE16 rt s = word_of_nat (be_nat (take 2 s))"
    and "4 \<le> length s \<Longrightarrow> GetBE32 rt s = word_of_nat (be_nat (take 4 s))"
    and "2 \<le> length s \<Longrightarrow> SetBE16 rt w s = be_chars 2 (unat w) @ drop 2 s"
    and "length s = 4 \<Longrightarrow> NetworkToHost32 rt (load32 s) = word_of_nat (be_nat s)"
    and "mem32 (HostToNetwork32 rt v) = be_chars 4 (unat v)"
  using assms by (simp_all add: byte_order_ok_def)

lemma hmac_simps [grtc_simps]:
  assumes "hmac_ok rt"
  shows "fst (ComputeHmac rt key d) = 20" and "length (snd (ComputeHmac rt key d)) = 20"
  using assms by (simp_all add: hmac_ok_def)

lemma split_simps [grtc_simps]:
  assumes "split_ok rt"
  shows "rtc_split rt s c = fields_of s c"
    and "rtc_tokenize rt s c = filter (\<lambda>f. f \<noteq> []) (fields_of s c)"
  using assms by (simp_all add: split_ok_def)

lemma fields_of_not_Nil [simp]: "fields_of s d \<noteq> []"
  by (cases s) (auto split: list.split)

lemma fields_of_no_delim [simp]: "d \<notin> set s \<Longrightarrow> fields_of s d = [s]"
  by (induction s) auto

lemma fields_of_append:
  "d \<notin> set s \<Longrightarrow> fields_of (s @ d # t) d = s # fields_of t d"
  by (induction s) auto

lemma fields_of_nth_no_delim: "f \<in> set (fields_of s d) \<Longrightarrow> d \<notin> set f"
proof (induction s arbitrary: f)
  case (Cons c s)
  then show ?case by (cases "fields_of s d") (auto split: if_splits)
qed simp

section \<open>An instance\<close>

text \<open>
  The instance used by the witnesses.  Checksum, digest and address classes are arbitrary functions:
  no theorem depends on which ones they are.
\<close>

definition ref_rtc :: rtcbase where
  "ref_rtc = \<lparr>
     ReadUInt16 = (\<lambda>s. if length s < 2 then None else Some (word_of_nat (be_nat (take 2 s)), drop 2 s)),
     ReadUInt32 = (\<lambda>s. if length s < 4 then None else Some (word_of_nat (be_nat (take 4 s)), drop 4 s)),
     ReadUInt64 = (\<lambda>s. if length s < 8 then None else Some (word_of_nat (be_nat (take 8 s)), drop 8 s)),
     ReadBytes = (\<lambda>n s. if length s < n then None else Some (take n s, drop n s)),
     Consume = (\<lambda>n s. if length s < n then None else Some (drop n s)),
     WriteUInt8 = (\<lambda>w b. b @ be_chars 1 (unat w)),
     WriteUInt16 = (\<lambda>w b. b @ be_chars 2 (unat w)),
     WriteUInt32 = (\<lambda>w b. b @ be_chars 4 (unat w)),
     WriteUInt64 = (\<lambda>w b. b @ be_chars 8 (unat w)),
     WriteBytes = (\<lambda>s b. b @ s),
     GetBE16 = (\<lambda>s. word_of_nat (be_nat (take 2 s))),
     GetBE32 = (\<lambda>s. word_of_nat (be_nat (take 4 s))),
     SetBE16 = (\<lambda>w s. be_chars 2 (unat w) @ drop 2 s),
     NetworkToHost32 = (\<lambda>w. word_of_nat (be_nat (mem32 w))),
     HostToNetwork32 = (\<lambda>w. load32 (be_chars 4 (unat w))),
     ComputeCrc32 = (\<lambda>s. word_of_nat (sum_list (map of_char s))),
     ComputeHmac = (\<lambda>key d. (20, take 20 (key @ rev d @ replicate 20 (CHR 0x00)))),
     rtc_split = fields_of,
     rtc_tokenize = (\<lambda>s d. filter (\<lambda>f. f \<noteq> []) (fields_of s d)),
     IPAddressPrecedence = (\<lambda>ip. case ip of IPUnspec \<Rightarrow> 0 | IPv4 _ \<Rightarrow> 30 | IPv6 _ \<Rightarrow> 40),
     IPIsPrivateNetwork = (\<lambda>ip. False),
     IPIsLoopback = (\<lambda>ip. False),
     HostAsURIString = (\<lambda>ip. ''192.0.2.1''),
     GetNextMovingAverage = (\<lambda>prev cur ratio. (prev * ratio + cur) div (ratio + 1))\<rparr>"

lemma mem32_load32: "length s = 4 \<Longrightarrow> mem32 (load32 s) = s"
proof -
  assume len: "length s = 4"
  then have "be_nat (rev s) < 2 ^ 32" using be_nat_lt [of "rev s"] by simp
  then have "unat (load32 s) = be_nat (rev s)"
    by (simp add: load32_def unat_of_nat take_bit_nat_eq_self)
  then show ?thesis
    using be_chars_be_nat [of "rev s"] len by (simp add: mem32_def)
qed

lemma ref_rtc_ok [simp]:
  "byte_buffer_ok ref_rtc" "byte_order_ok ref_rtc" "hmac_ok ref_rtc" "split_ok ref_rtc"
proof -
  show "hmac_ok ref_rtc" by (simp add: ref_rtc_def hmac_ok_def) arith
qed (simp_all add: ref_rtc_def byte_buffer_ok_def byte_order_ok_def split_ok_def mem32_load32)

end
