(* ===== verification/Base_Socket.thy ===== *)
theory Base_Socket
  imports Rtc_Base
begin

text \<open>
  \<^verbatim>\<open>src/base/socket.cpp\<close>.  A system call is an argument: its result is \<open>Done n\<close> (a return value
  that is not \<open>-1\<close>) or \<open>Fail errno\<close>; calls whose arguments matter (binding a port) are functions of
  them, and a call repeated in a loop has a list of results.
\<close>

datatype errno = EAGAIN | EINTR | EEXIST | EOTHER

datatype sys_result = Done int | Fail errno

section \<open>Setting up sockets\<close>

text \<open>
  \<^verbatim>\<open>create_tcp_server\<close>: results of \<^verbatim>\<open>socket\<close>, \<^verbatim>\<open>setsockopt\<close>, \<^verbatim>\<open>bind\<close> (of the address and port)
  and \<^verbatim>\<open>listen\<close>; \<open>inet_aton\<close> parses the address (\<open>None\<close>: invalid).  A null address is
  \<^verbatim>\<open>INADDR_ANY\<close>.\<close>

definition create_tcp_server ::
    "sys_result \<Rightarrow> sys_result \<Rightarrow> (u32 \<Rightarrow> u16 \<Rightarrow> sys_result) \<Rightarrow> sys_result \<Rightarrow> (string \<Rightarrow> u32 option)
      \<Rightarrow> string option \<Rightarrow> int \<Rightarrow> int" where
  "create_tcp_server socket_res setsockopt_res bind_res listen_res inet_aton addr port =
     (case socket_res of
        Fail _ \<Rightarrow> -1
      | Done sock \<Rightarrow>
        (case setsockopt_res of
           Fail _ \<Rightarrow> -1
         | Done _ \<Rightarrow>
           (case (case addr of None \<Rightarrow> Some 0 | Some a \<Rightarrow> inet_aton a) of
              None \<Rightarrow> -1
            | Some s_addr \<Rightarrow>
              (case bind_res s_addr (word_of_int port) of
                 Fail _ \<Rightarrow> -1
               | Done _ \<Rightarrow>
                 (case listen_res of Fail _ \<Rightarrow> -1 | Done _ \<Rightarrow> sock)))))"

text \<open>The retry loop over the results of \<^verbatim>\<open>accept\<close>; \<open>None\<close>: still waiting when the list ends.\<close>

fun generic_accept :: "sys_result list \<Rightarrow> int option" where
  "generic_accept [] = None"
| "generic_accept (Fail EINTR # rs) = generic_accept rs"
| "generic_accept (Fail e # rs) = Some (-1)"
| "generic_accept (Done fd # rs) = Some fd"

text \<open>\<^verbatim>\<open>tcp_accept\<close> with host and port out-parameters; the address is converted whatever the result.\<close>

definition tcp_accept ::
    "(u32 \<Rightarrow> string) \<Rightarrow> sys_result list \<Rightarrow> u32 \<times> u16 \<Rightarrow> (int \<times> string \<times> int) option" where
  "tcp_accept inet_ntoa rs sa =
     do { fd \<leftarrow> generic_accept rs; Some (fd, inet_ntoa (fst sa), uint (snd sa)) }"

definition sock_setnodelay :: "sys_result \<Rightarrow> int" where
  "sock_setnodelay r = (case r of Fail _ \<Rightarrow> -1 | Done _ \<Rightarrow> 0)"

definition sock_setnonblock :: "sys_result \<Rightarrow> (int \<Rightarrow> sys_result) \<Rightarrow> int" where
  "sock_setnonblock getfl setfl =
     (case getfl of
        Fail _ \<Rightarrow> -1
      | Done flags \<Rightarrow> (case setfl (or flags 2048) of Fail _ \<Rightarrow> -1 | Done _ \<Rightarrow> 0))"

definition sock_peer_2_str :: "(u32 \<Rightarrow> string) \<Rightarrow> (u32 \<times> u16) option \<Rightarrow> int \<times> string \<times> int" where
  "sock_peer_2_str inet_ntoa peer =
     (case peer of
        None \<Rightarrow> (-1, ''?'', 0)
      | Some (a, p) \<Rightarrow> (0, inet_ntoa a, uint p))"

definition create_udp_socket :: "sys_result \<Rightarrow> int" where
  "create_udp_socket r = (case r of Fail _ \<Rightarrow> -1 | Done sock \<Rightarrow> sock)"

text \<open>
  \<^verbatim>\<open>sock_bind\<close>: \<open>bind_res p\<close> is what \<^verbatim>\<open>bind\<close> returns for port \<open>p\<close> (0 on success), \<open>port0\<close> the port
  the caller left in the address.  The result and the port bound last.\<close>

function bind_range :: "(int \<Rightarrow> int) \<Rightarrow> int \<Rightarrow> int \<Rightarrow> int \<Rightarrow> int \<Rightarrow> int \<times> int" where
  "bind_range bind_res port max_port ret cur =
     (if port \<le> max_port \<and> ret \<noteq> 0
      then bind_range bind_res (port + 1) max_port (bind_res port) port
      else (ret, cur))"
  by pat_completeness auto
termination
  by (relation "measure (\<lambda>(b, port, max_port, ret, cur). nat (max_port + 1 - port))") auto

declare bind_range.simps [simp del]

definition sock_bind :: "(int \<Rightarrow> int) \<Rightarrow> int \<Rightarrow> int \<Rightarrow> int \<Rightarrow> int \<times> int" where
  "sock_bind bind_res port0 min_port max_port =
     (if min_port = 0 \<or> max_port = 0 then (bind_res port0, port0)
      else bind_range bind_res min_port max_port (-1) port0)"

definition sock_get_address :: "(u32 \<Rightarrow> string) \<Rightarrow> (u32 \<times> u16) option \<Rightarrow> (string \<times> int) option" where
  "sock_get_address inet_ntoa name =
     (case name of None \<Rightarrow> None | Some (a, p) \<Rightarrow> Some (inet_ntoa a, uint p))"

section \<open>Reading and writing\<close>

definition sock_read_data :: "sys_result \<Rightarrow> int" where
  "sock_read_data r = (case r of
     Fail EAGAIN \<Rightarrow> 0 | Fail _ \<Rightarrow> -1 | Done n \<Rightarrow> (if n = 0 then -1 else n))"

definition sock_write_data :: "sys_result \<Rightarrow> int" where
  "sock_write_data r = (case r of Fail EAGAIN \<Rightarrow> 0 | Fail _ \<Rightarrow> -1 | Done n \<Rightarrow> n)"

definition sock_recv_from :: "sys_result \<Rightarrow> int" where
  "sock_recv_from r = (case r of
     Fail EAGAIN \<Rightarrow> 0 | Fail _ \<Rightarrow> -1 | Done n \<Rightarrow> (if n = 0 then -1 else n))"

definition sock_send_to :: "sys_result \<Rightarrow> int" where
  "sock_send_to r = (case r of
     Fail EAGAIN \<Rightarrow> 0 | Fail _ \<Rightarrow> -1 | Done n \<Rightarrow> (if n = 0 then -1 else n))"

definition sock_get_recv_timestamp :: "(int \<times> int) option \<Rightarrow> int" where
  "sock_get_recv_timestamp t = (case t of None \<Rightarrow> -1 | Some (sec, usec) \<Rightarrow> sec * 1000000 + usec)"

section \<open>Binding a port of the range\<close>

lemma bind_range_spec:
  "bind_range b port mx ret cur = (ret', cur') \<Longrightarrow> ret \<noteq> 0 \<Longrightarrow>
     (if \<exists>p. port \<le> p \<and> p \<le> mx \<and> b p = 0
      then ret' = 0 \<and> b cur' = 0 \<and> port \<le> cur' \<and> cur' \<le> mx \<and> (\<forall>p. port \<le> p \<and> p < cur' \<longrightarrow> b p \<noteq> 0)
      else ret' \<noteq> 0)"
proof (induction b port mx ret cur rule: bind_range.induct)
  case (1 b port mx ret cur)
  show ?case
  proof (cases "port \<le> mx")
    case False
    then have "ret' = ret" using 1 by (subst (asm) (2) bind_range.simps) simp
    then show ?thesis using False "1.prems"(2) by auto
  next
    case True
    then have st: "bind_range b (port + 1) mx (b port) port = (ret', cur')"
      using 1 by (subst (asm) (2) bind_range.simps) simp
    show ?thesis
    proof (cases "b port = 0")
      case True
      then have "ret' = 0" "cur' = port" using st by (subst (asm) bind_range.simps, simp)+
      then show ?thesis using True \<open>port \<le> mx\<close> by auto
    next
      case False
      have s: "port \<le> p \<longleftrightarrow> p = port \<or> port + 1 \<le> p" for p by auto
      from "1.IH" [OF _ st False] \<open>port \<le> mx\<close> "1.prems"(2) False show ?thesis
        unfolding s by (auto split: if_splits)
    qed
  qed
qed

text \<open>
  Over a port range, \<^verbatim>\<open>sock_bind\<close> binds the first port of the range that the system accepts, and
  fails exactly when it accepts none; in particular it never returns success for a port outside the
  configured range.\<close>

theorem sock_bind_range:
  assumes "min_port \<noteq> 0" "max_port \<noteq> 0" "sock_bind b port0 min_port max_port = (ret, port)"
  shows "if \<exists>p. min_port \<le> p \<and> p \<le> max_port \<and> b p = 0
    then ret = 0 \<and> b port = 0 \<and> min_port \<le> port \<and> port \<le> max_port \<and>
      (\<forall>p. min_port \<le> p \<and> p < port \<longrightarrow> b p \<noteq> 0)
    else ret \<noteq> 0"
  using assms bind_range_spec [of b min_port max_port "-1" port0 ret port] by (simp add: sock_bind_def)

theorem sock_bind_range_witness:
  "fst (sock_bind (\<lambda>p. if p = 10002 then 0 else -1) 7 10000 10005) = 0"
proof -
  let ?b = "\<lambda>p :: int. if p = 10002 then 0 else - 1 :: int"
  have "\<exists>p\<ge>10000. p \<le> 10005 \<and> ?b p = 0" by (rule exI [of _ 10002]) simp
  then show ?thesis
    using sock_bind_range [of 10000 10005 ?b 7, OF _ _ prod.collapse [symmetric]] by (simp split: if_splits)
qed

end
