(* ===== verification/Base_Log.thy ===== *)
theory Base_Log
  imports Base_Socket
begin

text \<open>
  \<^verbatim>\<open>src/base/log.cpp\<close>: the asynchronous log.  Every thread of the program pushes its messages to one
  of two queues by severity, each under its own mutex; one log thread drains the queues every 30 ms
  into two files.  \<^verbatim>\<open>rtc::LoggingSeverity\<close> and \<^verbatim>\<open>rtc::LogMessage\<close> are not in the repository: the
  values of the enumeration are the record \<open>severities\<close>.
\<close>

record severities =
  LS_VERBOSE :: int
  LS_INFO :: int
  LS_WARNING :: int
  LS_ERROR :: int
  LS_NONE :: int

text \<open>
  \<^verbatim>\<open>std::ofstream\<close>: after a failed \<^verbatim>\<open>open\<close> output is discarded until an \<^verbatim>\<open>open\<close> succeeds.
  \<open>of_text\<close> is all the text the stream passed on to the files it was opened on.
\<close>

record ofstream =
  of_open :: bool
  of_good :: bool
  of_text :: string

definition ofstream_new :: ofstream where
  "ofstream_new = \<lparr>of_open = False, of_good = True, of_text = []\<rparr>"

definition of_close :: "ofstream \<Rightarrow> ofstream" where
  "of_close f = (if of_open f then f\<lparr>of_open := False\<rparr> else f\<lparr>of_good := False\<rparr>)"

definition of_do_open :: "bool \<Rightarrow> ofstream \<Rightarrow> ofstream" where
  "of_do_open ok f =
     (if of_open f then f\<lparr>of_good := False\<rparr> else f\<lparr>of_open := ok, of_good := ok\<rparr>)"

definition of_write :: "string \<Rightarrow> ofstream \<Rightarrow> ofstream" where
  "of_write t f =
     (if of_good f then if of_open f then f\<lparr>of_text := of_text f @ t\<rparr> else f\<lparr>of_good := False\<rparr> else f)"

text \<open>The statement of its loop the log thread is about to execute.\<close>

datatype log_pc = L_idle | L_check | L_flush | L_flush_wf

record grtc_log =
  lg_dir :: string
  lg_level :: string
  lg_file :: string
  lg_file_wf :: string
  lg_out :: ofstream
  lg_out_wf :: ofstream
  lg_queue :: "string list"
  lg_queue_wf :: "string list"
  lg_thread :: bool
  lg_running :: bool
  lg_pc :: log_pc

definition grtc_log_new :: "string \<Rightarrow> string \<Rightarrow> string \<Rightarrow> grtc_log" where
  "grtc_log_new dir name level =
     \<lparr>lg_dir = dir, lg_level = level, lg_file = dir @ ''/'' @ name @ ''.log'',
      lg_file_wf = dir @ ''/'' @ name @ ''.log.wf'', lg_out = ofstream_new, lg_out_wf = ofstream_new,
      lg_queue = [], lg_queue_wf = [], lg_thread = False, lg_running = False, lg_pc = L_idle\<rparr>"

text \<open>\<^verbatim>\<open>OnLogMessage\<close>\<close>

definition on_log_message :: "severities \<Rightarrow> string \<Rightarrow> int \<Rightarrow> grtc_log \<Rightarrow> grtc_log" where
  "on_log_message sv message severity l =
     (if LS_WARNING sv \<le> severity then l\<lparr>lg_queue_wf := lg_queue_wf l @ [message]\<rparr>
      else l\<lparr>lg_queue := lg_queue l @ [message]\<rparr>)"

definition get_log_severity :: "severities \<Rightarrow> string \<Rightarrow> int" where
  "get_log_severity sv level =
     (if level = ''verbose'' then LS_VERBOSE sv
      else if level = ''info'' then LS_INFO sv
      else if level = ''warning'' then LS_WARNING sv
      else if level = ''error'' then LS_ERROR sv
      else LS_NONE sv)"

text \<open>
  \<^verbatim>\<open>init\<close>: \<open>md\<close> is the result of \<^verbatim>\<open>mkdir\<close>, \<open>ok1\<close> and \<open>ok2\<close> tell
  whether the files could be opened.
\<close>

definition log_init :: "sys_result \<Rightarrow> bool \<Rightarrow> bool \<Rightarrow> grtc_log \<Rightarrow> int \<times> grtc_log" where
  "log_init md ok1 ok2 l =
     (if (case md of Done _ \<Rightarrow> False | Fail e \<Rightarrow> e \<noteq> EEXIST) then (-1, l)
      else
        let l = l\<lparr>lg_out := of_do_open ok1 (lg_out l)\<rparr>
        in if \<not> of_open (lg_out l) then (-1, l)
           else let l = l\<lparr>lg_out_wf := of_do_open ok2 (lg_out_wf l)\<rparr>
                in if \<not> of_open (lg_out_wf l) then (-1, l) else (0, l))"

definition log_start :: "grtc_log \<Rightarrow> bool \<times> grtc_log" where
  "log_start l =
     (if lg_running l then (False, l)
      else (True, l\<lparr>lg_running := True, lg_thread := True, lg_pc := L_check\<rparr>))"

section \<open>The log thread\<close>

text \<open>\<open>st = Some ok\<close>: \<^verbatim>\<open>stat\<close> failed, and reopening succeeds iff \<open>ok\<close>.\<close>

definition reopen :: "bool option \<Rightarrow> ofstream \<Rightarrow> ofstream" where
  "reopen st f = (case st of None \<Rightarrow> f | Some ok \<Rightarrow> of_do_open ok (of_close f))"

text \<open>
  One step of the thread: the test of \<^verbatim>\<open>_running\<close> with the checks of the files, then the first
  queue, then the second.  Draining is atomic under the mutex; only this thread writes.
\<close>

definition log_thread_step :: "bool option \<Rightarrow> bool option \<Rightarrow> grtc_log \<Rightarrow> grtc_log" where
  "log_thread_step st1 st2 l =
     (case lg_pc l of
        L_idle \<Rightarrow> l
      | L_check \<Rightarrow>
          if \<not> lg_running l then l\<lparr>lg_pc := L_idle\<rparr>
          else l\<lparr>lg_out := reopen st1 (lg_out l), lg_out_wf := reopen st2 (lg_out_wf l), lg_pc := L_flush\<rparr>
      | L_flush \<Rightarrow>
          if lg_queue l = [] then l\<lparr>lg_pc := L_flush_wf\<rparr>
          else l\<lparr>lg_out := of_write (concat (lg_queue l)) (lg_out l), lg_queue := [], lg_pc := L_flush_wf\<rparr>
      | L_flush_wf \<Rightarrow>
          if lg_queue_wf l = [] then l\<lparr>lg_pc := L_check\<rparr>
          else l\<lparr>lg_out_wf := of_write (concat (lg_queue_wf l)) (lg_out_wf l), lg_queue_wf := [],
                 lg_pc := L_check\<rparr>)"

text \<open>
  \<^verbatim>\<open>stop\<close> clears the flag and joins: it returns once the thread has run to its next test of the flag
  (\<open>None\<close>: it still waits).
\<close>

definition log_stop_request :: "grtc_log \<Rightarrow> grtc_log" where
  "log_stop_request l = l\<lparr>lg_running := False\<rparr>"

definition log_stop_join :: "grtc_log \<Rightarrow> grtc_log option" where
  "log_stop_join l =
     (if \<not> lg_thread l then Some l
      else if lg_pc l = L_idle then Some (l\<lparr>lg_thread := False\<rparr>)
      else None)"

definition log_free :: "grtc_log \<Rightarrow> grtc_log" where
  "log_free l = l\<lparr>lg_out := of_close (lg_out l), lg_out_wf := of_close (lg_out_wf l)\<rparr>"

section \<open>Histories\<close>

datatype log_event =
    Log_message string int
  | Log_thread "bool option" "bool option"
  | Log_stop

primrec log_step :: "severities \<Rightarrow> log_event \<Rightarrow> grtc_log \<Rightarrow> grtc_log" where
  "log_step sv (Log_message m s) l = on_log_message sv m s l"
| "log_step sv (Log_thread st1 st2) l = log_thread_step st1 st2 l"
| "log_step sv Log_stop l = log_stop_request l"

definition log_run :: "severities \<Rightarrow> log_event list \<Rightarrow> grtc_log \<Rightarrow> grtc_log" where
  "log_run sv es l = fold (log_step sv) es l"

text \<open>What was logged below the threshold (\<open>sev = False\<close>) and from it on.\<close>

fun logged :: "severities \<Rightarrow> bool \<Rightarrow> log_event \<Rightarrow> string" where
  "logged sv sev (Log_message m s) = (if (LS_WARNING sv \<le> s) = sev then m else [])"
| "logged sv sev _ = []"

fun no_open_failure :: "log_event \<Rightarrow> bool" where
  "no_open_failure (Log_thread st1 st2) \<longleftrightarrow> st1 \<noteq> Some False \<and> st2 \<noteq> Some False"
| "no_open_failure _ \<longleftrightarrow> True"

definition streams_ok :: "grtc_log \<Rightarrow> bool" where
  "streams_ok l \<longleftrightarrow> of_open (lg_out l) \<and> of_good (lg_out l) \<and> of_open (lg_out_wf l) \<and> of_good (lg_out_wf l)"

definition log_total :: "bool \<Rightarrow> grtc_log \<Rightarrow> string" where
  "log_total sev l = (if sev then of_text (lg_out_wf l) @ concat (lg_queue_wf l)
     else of_text (lg_out l) @ concat (lg_queue l))"

lemma reopen_ok:
  assumes "of_open f" "of_good f" "st \<noteq> Some False"
  shows "of_open (reopen st f)" "of_good (reopen st f)" "of_text (reopen st f) = of_text f"
  using assms by (auto simp: reopen_def of_do_open_def of_close_def split: option.split)

lemma log_step_total:
  assumes "streams_ok l" "no_open_failure e"
  shows "streams_ok (log_step sv e l) \<and> log_total sev (log_step sv e l) = log_total sev l @ logged sv sev e"
proof (cases e)
  case (Log_thread st1 st2)
  with assms show ?thesis
    by (cases "lg_pc l") (simp_all add: log_thread_step_def streams_ok_def log_total_def reopen_ok of_write_def)
qed (use assms in \<open>auto simp: on_log_message_def log_stop_request_def streams_ok_def log_total_def\<close>)

lemma log_run_total:
  assumes "streams_ok l" "list_all no_open_failure es"
  shows "streams_ok (log_run sv es l) \<and>
    log_total sev (log_run sv es l) = log_total sev l @ concat (map (logged sv sev) es)"
  using assms
proof (induction es arbitrary: l)
  case (Cons e es)
  then show ?case using log_step_total [of l e sv sev] by (simp add: log_run_def)
qed (simp add: log_run_def)

text \<open>Four steps of a running thread include a pass over both queues.\<close>

lemma thread_step_at:
  "lg_pc l = L_idle \<Longrightarrow> log_thread_step None None l = l"
  "lg_pc l = L_check \<Longrightarrow> lg_running l \<Longrightarrow> log_thread_step None None l = l\<lparr>lg_pc := L_flush\<rparr>"
  "lg_pc l = L_check \<Longrightarrow> \<not> lg_running l \<Longrightarrow> log_thread_step None None l = l\<lparr>lg_pc := L_idle\<rparr>"
  "lg_pc l = L_flush \<Longrightarrow> lg_pc (log_thread_step None None l) = L_flush_wf \<and>
     lg_queue (log_thread_step None None l) = [] \<and> lg_queue_wf (log_thread_step None None l) = lg_queue_wf l \<and>
     lg_running (log_thread_step None None l) = lg_running l"
  "lg_pc l = L_flush_wf \<Longrightarrow> lg_pc (log_thread_step None None l) = L_check \<and>
     lg_queue_wf (log_thread_step None None l) = [] \<and> lg_queue (log_thread_step None None l) = lg_queue l \<and>
     lg_running (log_thread_step None None l) = lg_running l"
  by (simp_all add: log_thread_step_def reopen_def)

lemma log_thread_drains:
  assumes "lg_running l" "lg_pc l \<noteq> L_idle"
  shows "lg_queue ((log_thread_step None None ^^ 4) l) = [] \<and> lg_queue_wf ((log_thread_step None None ^^ 4) l) = []"
  using assms by (cases "lg_pc l") (simp_all add: numeral_eq_Suc thread_step_at)

lemma log_step_thread: "log_step sv (Log_thread st1 st2) = log_thread_step st1 st2"
  by (rule ext) simp

lemma log_start_total: "streams_ok (snd (log_start l)) = streams_ok l" "log_total sev (snd (log_start l)) = log_total sev l"
  by (simp_all add: log_start_def streams_ok_def log_total_def)

lemma thread_steps_total:
  assumes "streams_ok l"
  shows "log_total sev ((log_thread_step None None ^^ n) l) = log_total sev l"
  using log_run_total [OF assms, of "replicate n (Log_thread None None)" sv sev]
  by (simp add: log_run_def list_all_length fold_replicate log_step_thread)

lemma log_idle_final:
  assumes "lg_pc l = L_idle"
  shows "lg_out (log_run sv es l) = lg_out l \<and> lg_out_wf (log_run sv es l) = lg_out_wf l"
  using assms
proof (induction es arbitrary: l)
  case (Cons e es)
  have "lg_pc (log_step sv e l) = L_idle" "lg_out (log_step sv e l) = lg_out l"
    "lg_out_wf (log_step sv e l) = lg_out_wf l"
    using Cons.prems by (cases e; simp add: on_log_message_def log_thread_step_def log_stop_request_def)+
  then show ?case using Cons.IH by (simp add: log_run_def)
qed (simp add: log_run_def)

lemma log_stop_drains:
  "lg_pc ((log_thread_step None None ^^ 3) (log_stop_request l)) = L_idle"
  by (cases "lg_pc l") (simp_all add: numeral_eq_Suc thread_step_at log_stop_request_def)

lemma log_init_ok:
  assumes "log_init md ok1 ok2 (grtc_log_new dir name level) = (0, l)"
  shows "streams_ok l \<and> (\<forall>sev. log_total sev l = [])"
  using assms
  by (auto simp: log_init_def grtc_log_new_def ofstream_new_def of_do_open_def streams_ok_def log_total_def Let_def
    split: if_splits sys_result.splits)

text \<open>
  C31: After a successful \<^verbatim>\<open>init\<close> and \<^verbatim>\<open>start\<close>, as long as the files can be reopened after every
  rotation, no message is lost, duplicated or reordered within its class: the text in the file
  followed by the queue is what was logged in that class, below the warning severity in one file and
  from it on in the other.  While the thread runs, four more steps of it bring everything logged so
  far into the files.  After \<^verbatim>\<open>stop\<close> cleared the flag at most three steps end the thread, so the join
  returns; from then on the files never change again, whatever is still logged.
\<close>

theorem log_files_complete:
  assumes "log_init md ok1 ok2 (grtc_log_new dir name level) = (0, l0)"
    "list_all no_open_failure es" "l = log_run sv es (snd (log_start l0))"
  shows "log_total False l = concat (map (logged sv False) es) \<and>
    log_total True l = concat (map (logged sv True) es) \<and>
    (lg_running l \<and> lg_pc l \<noteq> L_idle \<longrightarrow>
       (let l' = (log_thread_step None None ^^ 4) l
        in of_text (lg_out l') = log_total False l \<and> of_text (lg_out_wf l') = log_total True l)) \<and>
    lg_pc ((log_thread_step None None ^^ 3) (log_stop_request l)) = L_idle \<and>
    (lg_pc l = L_idle \<longrightarrow>
       lg_out (log_run sv es2 l) = lg_out l \<and> lg_out_wf (log_run sv es2 l) = lg_out_wf l)"
proof -
  have "streams_ok l0 \<and> (\<forall>sev. log_total sev l0 = [])" by (rule log_init_ok [OF assms(1)])
  then have start: "streams_ok (snd (log_start l0))" "log_total sev (snd (log_start l0)) = []" for sev
    by (simp_all add: log_start_total)
  have l: "streams_ok l" "log_total sev l = concat (map (logged sv sev) es)" for sev
    using log_run_total [OF start(1) assms(2)] start(2) assms(3) by auto
  have "of_text (lg_out ((log_thread_step None None ^^ 4) l)) = log_total False l \<and>
      of_text (lg_out_wf ((log_thread_step None None ^^ 4) l)) = log_total True l"
    if "lg_running l" "lg_pc l \<noteq> L_idle"
    using thread_steps_total [OF l(1), where n = 4 and sev = False] thread_steps_total [OF l(1), where n = 4 and sev = True] log_thread_drains [OF that]
    by (simp add: log_total_def)
  then show ?thesis using l(2) log_idle_final [of l sv es2] log_stop_drains [of l] by (simp add: Let_def)
qed

text \<open>A run: two messages, a pass of the thread, then \<^verbatim>\<open>stop\<close> while a third message arrives.\<close>

definition sample_severities :: severities where
  "sample_severities = \<lparr>LS_VERBOSE = 1, LS_INFO = 2, LS_WARNING = 3, LS_ERROR = 4, LS_NONE = 5\<rparr>"

definition sample_log_events :: "log_event list" where
  "sample_log_events = [Log_message ''a'' 2, Log_message ''b'' 4, Log_thread (Some True) None,
     Log_thread None None, Log_message ''c'' 1, Log_stop, Log_thread None None, Log_thread None None]"

theorem log_files_complete_witness:
  "let l0 = snd (log_init (Fail EEXIST) True True (grtc_log_new ''log'' ''x'' ''info''));
       l = log_run sample_severities sample_log_events (snd (log_start l0))
   in log_total False l = ''ac'' \<and> log_total True l = ''b'' \<and> lg_queue l = [''c''] \<and>
      lg_out (log_run sample_severities [Log_message ''d'' 1, Log_thread None None] l) = lg_out l"
proof -
  define l0 where "l0 = snd (log_init (Fail EEXIST) True True (grtc_log_new ''log'' ''x'' ''info''))"
  define l where "l = log_run sample_severities sample_log_events (snd (log_start l0))"
  have init: "log_init (Fail EEXIST) True True (grtc_log_new ''log'' ''x'' ''info'') = (0, l0)"
    unfolding l0_def by (simp add: log_init_def grtc_log_new_def ofstream_new_def of_do_open_def)
  have ok: "list_all no_open_failure sample_log_events" by (simp add: sample_log_events_def)
  have pc: "lg_pc l = L_idle" and q: "lg_queue l = [''c'']"
    unfolding l_def l0_def sample_log_events_def log_run_def
    by (simp_all add: log_init_def log_start_def grtc_log_new_def ofstream_new_def of_do_open_def of_close_def
      reopen_def of_write_def log_thread_step_def log_stop_request_def on_log_message_def sample_severities_def)
  have "log_total False l = ''ac'' \<and> log_total True l = ''b'' \<and>
      lg_out (log_run sample_severities [Log_message ''d'' 1, Log_thread None None] l) = lg_out l"
    using log_files_complete [OF init ok l_def, where ?es2.0 = "[Log_message ''d'' 1, Log_thread None None]"] pc
    by (simp add: sample_log_events_def sample_severities_def)
  then show ?thesis
    using q unfolding l0_def [symmetric] l_def [symmetric] Let_def by simp
qed

end
