(* ===== verification/Base_Conf.thy ===== *)
theory Base_Conf
  imports Prelude
begin

text \<open>
  \<^verbatim>\<open>src/base/conf.cpp\<close>: the general configuration.  The YAML library is a parameter: \<open>load path\<close> is
  the parsed file, or \<open>None\<close> when \<^verbatim>\<open>LoadFile\<close> throws; the fields of \<open>yaml\<close> convert the node at a path of
  keys, \<open>None\<close> when the conversion throws.
\<close>

record yaml =
  y_string :: "string list \<Rightarrow> string option"
  y_int :: "string list \<Rightarrow> int option"
  y_bool :: "string list \<Rightarrow> bool option"

record general_conf =
  cf_log_dir :: string
  cf_log_name :: string
  cf_log_level :: string
  cf_log_to_stderr :: bool
  cf_ice_min_port :: int
  cf_ice_max_port :: int
  cf_server_addr :: string

text \<open>\<^verbatim>\<open>new GeneralConf()\<close>: the object is zero-initialised.\<close>

definition general_conf_new :: general_conf where
  "general_conf_new = \<lparr>cf_log_dir = [], cf_log_name = [], cf_log_level = [], cf_log_to_stderr = False,
     cf_ice_min_port = 0, cf_ice_max_port = 0, cf_server_addr = []\<rparr>"

text \<open>One assignment inside the \<^verbatim>\<open>try\<close> block: the first that throws ends the block.\<close>

fun assign :: "'a option \<Rightarrow> ('a \<Rightarrow> 'c \<Rightarrow> 'c) \<Rightarrow> bool \<times> 'c \<Rightarrow> bool \<times> 'c" where
  "assign v upd (False, c) = (False, c)"
| "assign None upd (True, c) = (False, c)"
| "assign (Some x) upd (True, c) = (True, upd x c)"

definition conf_defaults :: "general_conf \<Rightarrow> general_conf" where
  "conf_defaults c = c\<lparr>cf_log_dir := ''./log'', cf_log_name := ''undefined'', cf_log_level := ''info'',
     cf_log_to_stderr := False\<rparr>"

definition read_conf :: "yaml \<Rightarrow> general_conf \<Rightarrow> bool \<times> general_conf" where
  "read_conf y c =
     assign (y_string y [''server_addr'']) (\<lambda>x. cf_server_addr_update (\<lambda>_. x))
     (assign (y_int y [''ice'', ''max_port'']) (\<lambda>x. cf_ice_max_port_update (\<lambda>_. x))
     (assign (y_int y [''ice'', ''min_port'']) (\<lambda>x. cf_ice_min_port_update (\<lambda>_. x))
     (assign (y_bool y [''log'', ''log_to_stderr'']) (\<lambda>x. cf_log_to_stderr_update (\<lambda>_. x))
     (assign (y_string y [''log'', ''log_level'']) (\<lambda>x. cf_log_level_update (\<lambda>_. x))
     (assign (y_string y [''log'', ''log_name'']) (\<lambda>x. cf_log_name_update (\<lambda>_. x))
     (assign (y_string y [''log'', ''log_dir'']) (\<lambda>x. cf_log_dir_update (\<lambda>_. x))
       (True, c)))))))"

text \<open>\<open>None\<close>: \<^verbatim>\<open>LoadFile\<close> stands before the \<^verbatim>\<open>try\<close> block, so its exception leaves the function.\<close>

definition load_general_conf ::
    "(string \<Rightarrow> yaml option) \<Rightarrow> string option \<Rightarrow> general_conf option \<Rightarrow> (int \<times> general_conf option) option" where
  "load_general_conf load filename conf =
     (case (filename, conf) of
        (Some f, Some c) \<Rightarrow>
          do { y \<leftarrow> load f;
               let (ok, c) = read_conf y (conf_defaults c);
               Some (if ok then 0 else -1, Some c) }
      | _ \<Rightarrow> Some (-1, conf))"

lemma assign_ok: "fst (assign v upd (b, c)) \<longleftrightarrow> b \<and> v \<noteq> None"
  by (cases v; cases b) simp_all

lemma assign_Some: "assign v upd s = (True, c) \<longleftrightarrow> (\<exists>x c0. v = Some x \<and> s = (True, c0) \<and> c = upd x c0)"
  by (cases s; cases v; cases "fst s") auto

text \<open>Loading succeeds exactly when every key is there with its type; then nothing keeps its default.\<close>

lemma read_conf_ok:
  "read_conf y c = (True, c') \<longleftrightarrow>
     y_string y [''log'', ''log_dir''] = Some (cf_log_dir c') \<and>
     y_string y [''log'', ''log_name''] = Some (cf_log_name c') \<and>
     y_string y [''log'', ''log_level''] = Some (cf_log_level c') \<and>
     y_bool y [''log'', ''log_to_stderr''] = Some (cf_log_to_stderr c') \<and>
     y_int y [''ice'', ''min_port''] = Some (cf_ice_min_port c') \<and>
     y_int y [''ice'', ''max_port''] = Some (cf_ice_max_port c') \<and>
     y_string y [''server_addr''] = Some (cf_server_addr c')"
  unfolding read_conf_def assign_Some by (cases c; cases c') (auto simp: general_conf.defs)

end
