(* ===== verification/Event_Loop.thy ===== *)
theory Event_Loop
  imports Prelude
begin

text \<open>
  \<^verbatim>\<open>src/base/event_loop.cpp\<close> over libev.  A watcher is the part of \<^verbatim>\<open>ev_io\<close>/\<^verbatim>\<open>ev_timer\<close> that the
  macros of \<^verbatim>\<open>ev.h\<close> expose: whether it is active, its descriptor and its event mask (with the
  internal bit \<^verbatim>\<open>EV__IOFDSET\<close> that \<^verbatim>\<open>ev_io_set\<close> adds).  \<open>interest\<close> is the abstract state: which
  events the loop reports.
\<close>

unbundle bit_operations_syntax

section \<open>Event masks\<close>

abbreviation EV_LOOP_READ :: int where "EV_LOOP_READ \<equiv> 1"
abbreviation EV_LOOP_WRITE :: int where "EV_LOOP_WRITE \<equiv> 2"

abbreviation EV_READ :: int where "EV_READ \<equiv> 1"
abbreviation EV_WRITE :: int where "EV_WRITE \<equiv> 2"
abbreviation EV__IOFDSET :: int where "EV__IOFDSET \<equiv> 128"

definition TRANS_TO_EV_MASK :: "int \<Rightarrow> int" where
  "TRANS_TO_EV_MASK msk =
     ((if msk AND EV_LOOP_READ \<noteq> 0 then EV_READ else 0) OR
      (if msk AND EV_LOOP_WRITE \<noteq> 0 then EV_WRITE else 0))"

definition TRANS_FROM_EV_MASK :: "int \<Rightarrow> int" where
  "TRANS_FROM_EV_MASK msk =
     ((if msk AND EV_READ \<noteq> 0 then EV_LOOP_READ else 0) OR
      (if msk AND EV_WRITE \<noteq> 0 then EV_LOOP_WRITE else 0))"

section \<open>I/O watchers\<close>

record io_watcher =
  w_active :: bool
  w_fd :: int
  w_events :: int

text \<open>libev: \<^verbatim>\<open>ev_init\<close>, \<^verbatim>\<open>ev_io_set\<close> (the macro), \<^verbatim>\<open>ev_io_start\<close>, \<^verbatim>\<open>ev_io_stop\<close>.\<close>

definition ev_io_set :: "int \<Rightarrow> int \<Rightarrow> io_watcher \<Rightarrow> io_watcher" where
  "ev_io_set fd events w = w\<lparr>w_fd := fd, w_events := events OR EV__IOFDSET\<rparr>"

definition ev_io_start :: "io_watcher \<Rightarrow> io_watcher" where
  "ev_io_start w = w\<lparr>w_active := True\<rparr>"

definition ev_io_stop :: "io_watcher \<Rightarrow> io_watcher" where
  "ev_io_stop w = w\<lparr>w_active := False\<rparr>"

text \<open>\<open>u\<close> is the uninitialised \<^verbatim>\<open>ev_io\<close> of the new watcher: \<^verbatim>\<open>ev_init\<close> sets no descriptor and no mask.\<close>

definition create_io_event :: "io_watcher \<Rightarrow> io_watcher" where
  "create_io_event u = u\<lparr>w_active := False\<rparr>"

definition start_io_event :: "io_watcher \<Rightarrow> int \<Rightarrow> int \<Rightarrow> io_watcher" where
  "start_io_event w fd msk =
     (if w_active w then
        let active_events = TRANS_FROM_EV_MASK (w_events w);
            events = active_events OR msk
        in if events = active_events then w
           else ev_io_start (ev_io_set fd (TRANS_TO_EV_MASK events) (ev_io_stop w))
      else ev_io_start (ev_io_set fd (TRANS_TO_EV_MASK msk) w))"

definition stop_io_event :: "io_watcher \<Rightarrow> int \<Rightarrow> int \<Rightarrow> io_watcher" where
  "stop_io_event w fd msk =
     (let activ_event = TRANS_FROM_EV_MASK (w_events w);
          events = activ_event AND NOT msk
      in if activ_event = events then w
         else
           let events = TRANS_TO_EV_MASK events;
               w = ev_io_stop w
           in if events \<noteq> 0 then ev_io_start (ev_io_set fd events w) else w)"

section \<open>Timers\<close>

text \<open>
  Times are seconds as the library takes them; \<open>to_sec\<close> is the \<^verbatim>\<open>float(usec) / 1000000\<close> conversion.
  \<^verbatim>\<open>ev_timer_again\<close> stops a timer whose repeat is zero and otherwise (re)starts it.
\<close>

record 's timer_watcher =
  tm_active :: bool
  tm_at :: "'s option"
  tm_repeat :: 's
  tm_need_repeat :: bool

definition create_timer :: "'s::zero \<Rightarrow> bool \<Rightarrow> 's timer_watcher" where
  "create_timer z need_repeat =
     \<lparr>tm_active = False, tm_at = None, tm_repeat = z, tm_need_repeat = need_repeat\<rparr>"

definition stop_timer :: "'s timer_watcher \<Rightarrow> 's timer_watcher" where
  "stop_timer t = t\<lparr>tm_active := False\<rparr>"

definition start_timer :: "(nat \<Rightarrow> 's::zero) \<Rightarrow> 's timer_watcher \<Rightarrow> nat \<Rightarrow> 's timer_watcher" where
  "start_timer to_sec t usec =
     (let sec = to_sec usec in
      if \<not> tm_need_repeat t
      then (stop_timer t)\<lparr>tm_at := Some sec, tm_repeat := 0, tm_active := True\<rparr>
      else if sec = 0 then t\<lparr>tm_repeat := sec, tm_active := False\<rparr>
      else t\<lparr>tm_repeat := sec, tm_at := Some sec, tm_active := True\<rparr>)"

section \<open>The events a watcher reports\<close>

definition interest :: "io_watcher \<Rightarrow> bool \<times> bool" where
  "interest w = (w_active w \<and> bit (w_events w) 0, w_active w \<and> bit (w_events w) 1)"

abbreviation reads :: "io_watcher \<Rightarrow> bool" where "reads w \<equiv> fst (interest w)"
abbreviation writes :: "io_watcher \<Rightarrow> bool" where "writes w \<equiv> snd (interest w)"

lemma and_low_bits:
  "(x :: int) AND 1 \<noteq> 0 \<longleftrightarrow> bit x 0"
  "x AND 2 \<noteq> 0 \<longleftrightarrow> bit x 1"
proof -
  show "x AND 1 \<noteq> 0 \<longleftrightarrow> bit x 0" by (simp add: and_one_eq bit_0 mod2_eq_if)
  have "x AND 2 = (if bit x 1 then 2 else 0)"
    by (rule bit_eqI) (auto simp: bit_simps bit_numeral_rec split: nat.split intro!: gr0I)
  then show "x AND 2 \<noteq> 0 \<longleftrightarrow> bit x 1" by simp
qed

lemma bit_trans:
  "bit (TRANS_TO_EV_MASK m) n \<longleftrightarrow> bit m n \<and> n < 2"
  "bit (TRANS_FROM_EV_MASK m) n \<longleftrightarrow> bit m n \<and> n < 2"
  by (auto simp: TRANS_TO_EV_MASK_def TRANS_FROM_EV_MASK_def and_low_bits bit_simps less_Suc_eq
      numeral_2_eq_2 bit_numeral_rec split: nat.splits intro!: gr0I)

lemma trans_eq_0: "TRANS_TO_EV_MASK m = 0 \<longleftrightarrow> \<not> bit m 0 \<and> \<not> bit m 1"
proof -
  have "TRANS_TO_EV_MASK m = 0 \<longleftrightarrow> (\<forall>n. \<not> (bit m n \<and> n < 2))"
    by (simp add: bit_eq_iff bit_trans)
  then show ?thesis by (auto simp: numeral_2_eq_2 less_Suc_eq)
qed

lemma trans_from_eq:
  "TRANS_FROM_EV_MASK e OR m = TRANS_FROM_EV_MASK e \<longleftrightarrow> (\<forall>n. bit m n \<longrightarrow> bit e n \<and> n < 2)"
  "TRANS_FROM_EV_MASK e = TRANS_FROM_EV_MASK e AND NOT m \<longleftrightarrow> \<not> (bit e 0 \<and> bit m 0) \<and> \<not> (bit e 1 \<and> bit m 1)"
proof -
  show "TRANS_FROM_EV_MASK e OR m = TRANS_FROM_EV_MASK e \<longleftrightarrow> (\<forall>n. bit m n \<longrightarrow> bit e n \<and> n < 2)"
    by (auto simp: bit_eq_iff bit_trans bit_simps)
  have "TRANS_FROM_EV_MASK e = TRANS_FROM_EV_MASK e AND NOT m \<longleftrightarrow>
      (\<forall>n. bit e n \<and> n < 2 \<longrightarrow> \<not> bit m n)"
    by (auto simp: bit_eq_iff bit_trans bit_simps)
  then show "TRANS_FROM_EV_MASK e = TRANS_FROM_EV_MASK e AND NOT m \<longleftrightarrow>
      \<not> (bit e 0 \<and> bit m 0) \<and> \<not> (bit e 1 \<and> bit m 1)"
    by (auto simp: numeral_2_eq_2 less_Suc_eq)
qed

lemma interest_simps [simp]:
  "w_active (ev_io_start w)" "\<not> w_active (ev_io_stop w)"
  "w_events (ev_io_set fd e w) = e OR EV__IOFDSET"
  "w_events (ev_io_start w) = w_events w" "w_events (ev_io_stop w) = w_events w"
  by (simp_all add: ev_io_start_def ev_io_stop_def ev_io_set_def)

lemma bit_iofdset [simp]: "\<not> bit EV__IOFDSET 0" "\<not> bit EV__IOFDSET (Suc 0)"
  by (simp_all add: bit_numeral_rec)

text \<open>Starting adds the events of the mask, whether or not the watcher was active.\<close>

lemma interest_start [simp]:
  "interest (start_io_event w fd m) = (reads w \<or> bit m 0, writes w \<or> bit m 1)"
  by (auto simp: start_io_event_def interest_def trans_from_eq bit_trans bit_simps Let_def)

lemma interest_stop:
  "w_active w \<Longrightarrow>
     interest (stop_io_event w fd m) = (reads w \<and> \<not> bit m 0, writes w \<and> \<not> bit m 1)"
  by (auto simp: stop_io_event_def interest_def trans_from_eq trans_eq_0 bit_trans bit_simps Let_def)

lemma active_start [simp]: "w_active (start_io_event w fd m)"
  by (simp add: start_io_event_def Let_def)

lemma active_iff_interest: "reads w \<or> writes w \<Longrightarrow> w_active w"
  by (auto simp: interest_def)

lemma interest_create [simp]: "interest (create_io_event u) = (False, False)"
  by (simp add: create_io_event_def interest_def)

lemma bit_masks [simp]:
  "bit EV_LOOP_READ 0" "\<not> bit EV_LOOP_READ (Suc 0)"
  "\<not> bit EV_LOOP_WRITE 0" "bit EV_LOOP_WRITE (Suc 0)"
  by (simp_all add: bit_numeral_rec)

lemma interest_stop_stale:
  "\<not> w_active w \<Longrightarrow> interest (stop_io_event w fd m) =
     (if bit (w_events w) 0 \<and> bit m 0 \<or> bit (w_events w) 1 \<and> bit m 1
      then (bit (w_events w) 0 \<and> \<not> bit m 0, bit (w_events w) 1 \<and> \<not> bit m 1)
      else (False, False))"
  by (auto simp: stop_io_event_def interest_def trans_from_eq trans_eq_0 bit_trans bit_simps Let_def)

text \<open>
  C36: What the loop reports for a watcher is the set of events asked for: starting adds the mask to
  it and stopping removes the mask from it.  The exception is stopping a watcher that is not active
  any more: if the mask hits one of the events left over from its last activation, the remaining
  left-over events are switched on again.\<close>

theorem io_interest_spec:
  "interest (start_io_event w fd m) = (reads w \<or> bit m 0, writes w \<or> bit m 1) \<and>
   interest (stop_io_event w fd m) =
     (if w_active w then (reads w \<and> \<not> bit m 0, writes w \<and> \<not> bit m 1)
      else if bit (w_events w) 0 \<and> bit m 0 \<or> bit (w_events w) 1 \<and> bit m 1
      then (bit (w_events w) 0 \<and> \<not> bit m 0, bit (w_events w) 1 \<and> \<not> bit m 1)
      else (False, False))"
  using interest_stop interest_stop_stale by simp


section \<open>Callbacks\<close>

text \<open>\<^verbatim>\<open>generic_io_cb\<close>: what the loop calls; the watcher's own callback \<open>cb\<close> gets descriptor and events.\<close>

definition generic_io_cb :: "(int \<Rightarrow> int \<Rightarrow> 'r) \<Rightarrow> io_watcher \<Rightarrow> int \<Rightarrow> 'r" where
  "generic_io_cb cb w events = cb (w_fd w) (TRANS_FROM_EV_MASK events)"

end
