(* ===== verification/Fifo.thy ===== *)
theory Fifo
  imports Prelude
begin

text \<open>
  The contract of a first-in first-out queue as the workers use it, and \<^verbatim>\<open>std::queue\<close>
  (\<^verbatim>\<open>push\<close>, \<^verbatim>\<open>front\<close>+\<^verbatim>\<open>pop\<close> guarded by \<^verbatim>\<open>empty\<close>) as an instance.
  An operation is partial (\<open>None\<close>: a memory fault); \<open>push\<close> takes the resource the implementation
  allocates (the address returned by \<^verbatim>\<open>new\<close>), \<open>avail\<close> says that it is unused.
\<close>

locale fifo =
  fixes inv :: "'q \<Rightarrow> bool"
    and contents :: "'q \<Rightarrow> 'a list"
    and avail :: "'r \<Rightarrow> 'q \<Rightarrow> bool"
    and push :: "'r \<Rightarrow> 'a \<Rightarrow> 'q \<Rightarrow> 'q option"
    and pop :: "'q \<Rightarrow> ('a option \<times> 'q) option"
  assumes push_ok: "inv q \<Longrightarrow> avail r q \<Longrightarrow>
      \<exists>q'. push r x q = Some q' \<and> inv q' \<and> contents q' = contents q @ [x]"
    and pop_empty: "inv q \<Longrightarrow> contents q = [] \<Longrightarrow> pop q = Some (None, q)"
    and pop_front: "inv q \<Longrightarrow> contents q = x # xs \<Longrightarrow>
      \<exists>q'. pop q = Some (Some x, q') \<and> inv q' \<and> contents q' = xs"
begin

lemma push_some:
  assumes "inv q" "avail r q" "push r x q = Some q'"
  shows "inv q' \<and> contents q' = contents q @ [x]"
  using push_ok [OF assms(1,2), of x] assms(3) by auto

lemma pop_some:
  assumes "inv q" "pop q = Some (v, q')"
  shows "inv q' \<and> contents q = (case v of None \<Rightarrow> [] | Some x \<Rightarrow> [x]) @ contents q'"
proof (cases "contents q")
  case Nil
  with assms pop_empty [OF assms(1)] show ?thesis by auto
next
  case (Cons x xs)
  with assms pop_front [OF assms(1)] show ?thesis by fastforce
qed

lemma pop_total: "inv q \<Longrightarrow> \<exists>v q'. pop q = Some (v, q')"
  using pop_empty pop_front by (cases "contents q") blast+

end

text \<open>Popping \<open>n\<close> times, keeping what came out.\<close>

primrec pops :: "('q \<Rightarrow> ('a option \<times> 'q) option) \<Rightarrow> nat \<Rightarrow> 'q \<Rightarrow> ('a list \<times> 'q) option" where
  "pops pop 0 q = Some ([], q)"
| "pops pop (Suc n) q =
     do { (v, q1) \<leftarrow> pop q;
          (xs, q2) \<leftarrow> pops pop n q1;
          Some ((case v of None \<Rightarrow> [] | Some x \<Rightarrow> [x]) @ xs, q2) }"

context fifo begin

text \<open>Whatever was queued comes out in the order it went in, and nothing twice.\<close>

lemma pops_take:
  "inv q \<Longrightarrow> \<exists>q'. pops pop n q = Some (take n (contents q), q') \<and> inv q'
     \<and> contents q' = drop n (contents q)"
proof (induction n arbitrary: q)
  case (Suc n)
  show ?case
  proof (cases "contents q")
    case Nil
    with Suc.prems have "pop q = Some (None, q)" by (simp add: pop_empty)
    with Suc.IH [OF Suc.prems] Nil show ?thesis by auto
  next
    case (Cons x xs)
    with Suc.prems pop_front obtain q1 where "pop q = Some (Some x, q1)" "inv q1" "contents q1 = xs"
      by blast
    with Suc.IH [of q1] Cons show ?thesis by auto
  qed
qed simp

end

section \<open>\<^verbatim>\<open>std::queue\<close>\<close>

definition std_push :: "unit \<Rightarrow> 'a \<Rightarrow> 'a list \<Rightarrow> 'a list option" where
  "std_push r x q = Some (q @ [x])"

definition std_pop :: "'a list \<Rightarrow> ('a option \<times> 'a list) option" where
  "std_pop q = (case q of [] \<Rightarrow> Some (None, []) | x # xs \<Rightarrow> Some (Some x, xs))"

interpretation std_queue: fifo "\<lambda>q. True" "\<lambda>q. q" "\<lambda>r q. True" std_push std_pop
  by unfold_locales (auto simp: std_push_def std_pop_def)

end
