(* ===== verification/Lock_Free_Queue.thy ===== *)
theory Lock_Free_Queue
  imports Fifo
begin

text \<open>
  \<^verbatim>\<open>src/base/lock_free_queue.h\<close>: the single-producer single-consumer queue between two worker
  threads.  Nodes live in a heap \<open>nodes\<close>; \<open>q_first\<close> .. \<open>q_divider\<close> are consumed nodes that the
  producer reclaims, the nodes after \<open>q_divider\<close> up to \<open>q_last\<close> are pending.  Every dereference of
  an address that is not in the heap is a fault (\<open>None\<close>).  The first part is the sequential
  behaviour of the methods, the second the interleaving of one producer and one consumer at the
  granularity of single statements.
\<close>

record 'a node =
  nval :: 'a
  nnext :: "nat option"

record 'a lfq =
  nodes :: "nat \<rightharpoonup> 'a node"
  q_first :: nat
  q_divider :: nat
  q_last :: nat
  q_size :: int

section \<open>The statements of \<^verbatim>\<open>produce\<close> and \<^verbatim>\<open>consume\<close>\<close>

text \<open>The constructor; \<open>a\<close> is the address of the dummy node, \<open>v0\<close> is \<^verbatim>\<open>T()\<close>.\<close>

definition lfq_new :: "nat \<Rightarrow> 'a \<Rightarrow> 'a lfq" where
  "lfq_new a v0 = \<lparr>nodes = [a \<mapsto> \<lparr>nval = v0, nnext = None\<rparr>],
     q_first = a, q_divider = a, q_last = a, q_size = 0\<rparr>"

text \<open>\<^verbatim>\<open>last->next = new Node(t)\<close>, with \<open>a\<close> the address of the new node.\<close>

definition p_link :: "nat \<Rightarrow> 'a \<Rightarrow> 'a lfq \<Rightarrow> 'a lfq option" where
  "p_link a t q =
     do { n \<leftarrow> nodes q (q_last q);
          Some (q\<lparr>nodes := (nodes q)(q_last q \<mapsto> n\<lparr>nnext := Some a\<rparr>,
                                      a \<mapsto> \<lparr>nval = t, nnext = None\<rparr>)\<rparr>) }"

text \<open>\<^verbatim>\<open>last = last->next\<close>\<close>

definition p_advance :: "'a lfq \<Rightarrow> 'a lfq option" where
  "p_advance q = do { n \<leftarrow> nodes q (q_last q); b \<leftarrow> nnext n; Some (q\<lparr>q_last := b\<rparr>) }"

text \<open>\<^verbatim>\<open>++_size\<close>\<close>

definition p_count :: "'a lfq \<Rightarrow> 'a lfq" where
  "p_count q = q\<lparr>q_size := q_size q + 1\<rparr>"

text \<open>\<^verbatim>\<open>temp = first; first = first->next; delete temp\<close>\<close>

definition p_free :: "'a lfq \<Rightarrow> 'a lfq option" where
  "p_free q =
     do { n \<leftarrow> nodes q (q_first q); b \<leftarrow> nnext n;
          Some (q\<lparr>nodes := (nodes q)(q_first q := None), q_first := b\<rparr>) }"

text \<open>\<^verbatim>\<open>while (divider != first)\<close>: \<open>None\<close> if the loop faults or does not end.\<close>

partial_function (option) reclaim :: "'a lfq \<Rightarrow> 'a lfq option" where
  "reclaim q = (if q_divider q \<noteq> q_first q then do { q' \<leftarrow> p_free q; reclaim q' } else Some q)"

definition produce :: "nat \<Rightarrow> 'a \<Rightarrow> 'a lfq \<Rightarrow> 'a lfq option" where
  "produce a t q = do { q1 \<leftarrow> p_link a t q; q2 \<leftarrow> p_advance q1; reclaim (p_count q2) }"

text \<open>\<^verbatim>\<open>*result = divider->next->value\<close>\<close>

definition c_read :: "'a lfq \<Rightarrow> 'a option" where
  "c_read q = do { n \<leftarrow> nodes q (q_divider q); b \<leftarrow> nnext n; m \<leftarrow> nodes q b; Some (nval m) }"

text \<open>\<^verbatim>\<open>divider = divider->next\<close>\<close>

definition c_advance :: "'a lfq \<Rightarrow> 'a lfq option" where
  "c_advance q = do { n \<leftarrow> nodes q (q_divider q); b \<leftarrow> nnext n; Some (q\<lparr>q_divider := b\<rparr>) }"

definition c_count :: "'a lfq \<Rightarrow> 'a lfq" where
  "c_count q = q\<lparr>q_size := q_size q - 1\<rparr>"

text \<open>\<^verbatim>\<open>consume\<close>: \<open>Some v\<close> when it returns true with \<open>*result = v\<close>.\<close>

definition consume :: "'a lfq \<Rightarrow> ('a option \<times> 'a lfq) option" where
  "consume q =
     (if q_divider q \<noteq> q_last q
      then do { v \<leftarrow> c_read q; q' \<leftarrow> c_advance q; Some (Some v, c_count q') }
      else Some (None, q))"

definition lfq_empty :: "'a lfq \<Rightarrow> bool" where
  "lfq_empty q \<longleftrightarrow> q_size q = 0"

text \<open>The destructor: frees along \<^verbatim>\<open>next\<close> until null; the result is the remaining heap.\<close>

partial_function (option) free_all :: "(nat \<rightharpoonup> 'a node) \<Rightarrow> nat option \<Rightarrow> (nat \<rightharpoonup> 'a node) option" where
  "free_all h p =
     (case p of None \<Rightarrow> Some h
      | Some a \<Rightarrow> do { n \<leftarrow> h a; free_all (h(a := None)) (nnext n) })"

section \<open>Shape of the heap\<close>

fun chain :: "(nat \<rightharpoonup> 'a node) \<Rightarrow> nat list \<Rightarrow> bool" where
  "chain h [] \<longleftrightarrow> False"
| "chain h [a] \<longleftrightarrow> (\<exists>v. h a = Some \<lparr>nval = v, nnext = None\<rparr>)"
| "chain h (a # b # r) \<longleftrightarrow> (\<exists>v. h a = Some \<lparr>nval = v, nnext = Some b\<rparr>) \<and> chain h (b # r)"

text \<open>
  \<open>xs\<close> are the consumed nodes, \<open>ys\<close> the pending ones, \<open>zs\<close> a node that is linked but not yet
  published by moving \<^verbatim>\<open>last\<close>.
\<close>

definition lfq_shape :: "'a lfq \<Rightarrow> nat list \<Rightarrow> nat list \<Rightarrow> nat list \<Rightarrow> bool" where
  "lfq_shape q xs ys zs \<longleftrightarrow>
     chain (nodes q) (xs @ q_divider q # ys @ zs) \<and>
     distinct (xs @ q_divider q # ys @ zs) \<and>
     dom (nodes q) = set (xs @ q_divider q # ys @ zs) \<and>
     q_first q = hd (xs @ [q_divider q]) \<and>
     q_last q = last (q_divider q # ys)"

definition vals :: "'a lfq \<Rightarrow> nat list \<Rightarrow> 'a list" where
  "vals q ys = map (\<lambda>a. nval (the (nodes q a))) ys"

text \<open>The pending values, read off the heap from \<^verbatim>\<open>divider\<close> to \<^verbatim>\<open>last\<close>.\<close>

partial_function (option) walk :: "(nat \<rightharpoonup> 'a node) \<Rightarrow> nat \<Rightarrow> nat \<Rightarrow> 'a list option" where
  "walk h a l =
     (if a = l then Some []
      else do { n \<leftarrow> h a; b \<leftarrow> nnext n; m \<leftarrow> h b; vs \<leftarrow> walk h b l; Some (nval m # vs) })"

definition lfq_contents :: "'a lfq \<Rightarrow> 'a list" where
  "lfq_contents q = (case walk (nodes q) (q_divider q) (q_last q) of None \<Rightarrow> [] | Some vs \<Rightarrow> vs)"

definition lfq_inv :: "'a lfq \<Rightarrow> bool" where
  "lfq_inv q \<longleftrightarrow> (\<exists>xs ys. lfq_shape q xs ys []) \<and> q_size q = int (length (lfq_contents q))"

lemma chain_upd_other [simp]: "a \<notin> set L \<Longrightarrow> chain (h(a := x)) L = chain h L"
  by (induction h L rule: chain.induct) auto


lemma chain_Cons: "r \<noteq> [] \<Longrightarrow>
    chain h (a # r) \<longleftrightarrow> (\<exists>v. h a = Some \<lparr>nval = v, nnext = Some (hd r)\<rparr>) \<and> chain h r"
  by (cases r) auto

lemma chain_suffix: "chain h (L @ R) \<Longrightarrow> R \<noteq> [] \<Longrightarrow> chain h R"
  by (induction L) (auto simp: chain_Cons)

lemma chain_mid: "chain h (L @ a # b # R) \<Longrightarrow> \<exists>v. h a = Some \<lparr>nval = v, nnext = Some b\<rparr>"
  using chain_suffix [of h L "a # b # R"] by simp

lemma chain_end: "chain h (L @ [a]) \<Longrightarrow> \<exists>v. h a = Some \<lparr>nval = v, nnext = None\<rparr>"
  using chain_suffix [of h L "[a]"] by simp

lemma chain_in_dom: "chain h L \<Longrightarrow> a \<in> set L \<Longrightarrow> a \<in> dom h"
  by (induction h L rule: chain.induct) auto

lemma chain_link:
  "chain h (L @ [a]) \<Longrightarrow> distinct (L @ [a, b]) \<Longrightarrow> h a = Some n \<Longrightarrow>
   chain (h(a \<mapsto> n\<lparr>nnext := Some b\<rparr>, b \<mapsto> \<lparr>nval = t, nnext = None\<rparr>)) (L @ [a, b])"
proof (induction L)
  case (Cons x L)
  then show ?case by (cases L) (auto simp: chain_Cons)
qed auto

lemma walk_vals:
  "chain (nodes q) (a # ys @ zs) \<Longrightarrow> distinct (a # ys) \<Longrightarrow> last (a # ys) = l \<Longrightarrow>
   walk (nodes q) a l = Some (vals q ys)"
proof (induction ys arbitrary: a)
  case Nil
  then show ?case by (simp add: walk.simps vals_def)
next
  case (Cons b ys)
  then have "chain (nodes q) (b # ys @ zs)" by auto
  with Cons have IH: "walk (nodes q) b l = Some (vals q ys)" by auto
  from Cons.prems(2,3) have "a \<noteq> l"
    by (metis distinct.simps(2) last_ConsR last_in_set list.distinct(1))
  moreover from Cons.prems(1) have "b \<in> dom (nodes q)" by (auto dest: chain_in_dom)
  ultimately show ?case using Cons.prems(1) IH by (auto simp: walk.simps [of _ a] vals_def)
qed

lemma contents_shape: "lfq_shape q xs ys zs \<Longrightarrow> lfq_contents q = vals q ys"
  using walk_vals [of q "q_divider q" ys zs "q_last q"] chain_suffix [of "nodes q" xs]
  by (auto simp: lfq_shape_def lfq_contents_def)

lemma shape_divider_last: "lfq_shape q xs ys zs \<Longrightarrow> q_divider q = q_last q \<longleftrightarrow> ys = []"
  by (cases ys rule: rev_cases) (auto simp: lfq_shape_def)

lemma shape_divider_first: "lfq_shape q xs ys zs \<Longrightarrow> q_divider q = q_first q \<longleftrightarrow> xs = []"
  by (cases xs) (auto simp: lfq_shape_def)

section \<open>Each statement on a well-shaped heap\<close>

lemma p_link_shape:
  assumes "lfq_shape q xs ys []" and "a \<notin> dom (nodes q)"
  shows "\<exists>q'. p_link a t q = Some q' \<and> lfq_shape q' xs ys [a] \<and> vals q' ys = vals q ys
    \<and> nval (the (nodes q' a)) = t \<and> q_size q' = q_size q"
proof -
  define L where "L = butlast (xs @ q_divider q # ys)"
  have L: "xs @ q_divider q # ys = L @ [q_last q]"
    using assms(1) append_butlast_last_id [of "xs @ q_divider q # ys"]
    by (simp add: L_def lfq_shape_def)
  have shape: "chain (nodes q) (L @ [q_last q])" "distinct (L @ [q_last q])"
    "dom (nodes q) = set (L @ [q_last q])"
    using assms(1) unfolding lfq_shape_def append_Nil2 L by blast+
  then obtain v where n: "nodes q (q_last q) = Some \<lparr>nval = v, nnext = None\<rparr>"
    using chain_end by blast
  have eq: "xs @ q_divider q # ys @ [a] = L @ [q_last q, a]"
    using L by (metis append.assoc append_Cons append_Nil)
  have d: "distinct (L @ [q_last q, a])" using shape(2,3) assms(2) by auto
  let ?h = "(nodes q)(q_last q \<mapsto> \<lparr>nval = v, nnext = Some a\<rparr>, a \<mapsto> \<lparr>nval = t, nnext = None\<rparr>)"
  have "chain ?h (xs @ q_divider q # ys @ [a])"
    using chain_link [OF shape(1) d n, of t] unfolding eq by simp
  moreover have "dom ?h = set (xs @ q_divider q # ys @ [a])"
    unfolding eq using shape(3) by auto
  moreover have "distinct (xs @ q_divider q # ys @ [a])" unfolding eq by (rule d)
  moreover have "a \<notin> set ys" using assms by (auto simp: lfq_shape_def)
  ultimately show ?thesis
    using assms(1) n by (auto simp: p_link_def lfq_shape_def vals_def)
qed

lemma p_advance_shape:
  assumes "lfq_shape q xs ys [a]"
  shows "p_advance q = Some (q\<lparr>q_last := a\<rparr>) \<and> lfq_shape (q\<lparr>q_last := a\<rparr>) xs (ys @ [a]) []"
proof -
  obtain L where L: "xs @ q_divider q # ys = L @ [q_last q]"
    using assms append_butlast_last_id [of "xs @ q_divider q # ys"]
    by (metis append_is_Nil_conv last_appendR lfq_shape_def list.distinct(1))
  then have eq: "xs @ q_divider q # ys @ [a] = L @ q_last q # a # []"
    by (metis append.assoc append_Cons append_Nil)
  have "chain (nodes q) (L @ q_last q # a # [])"
    using assms unfolding lfq_shape_def eq by blast
  from chain_mid [OF this] assms show ?thesis by (auto simp: p_advance_def lfq_shape_def)
qed

lemma p_free_shape:
  assumes "lfq_shape q (x # xs) ys zs"
  shows "\<exists>q'. p_free q = Some q' \<and> lfq_shape q' xs ys zs \<and> vals q' ys = vals q ys
    \<and> q_divider q' = q_divider q \<and> q_last q' = q_last q \<and> q_size q' = q_size q"
proof -
  let ?r = "xs @ q_divider q # ys @ zs"
  have "chain (nodes q) (x # ?r)" "q_first q = x" "x \<notin> set ?r"
    using assms by (auto simp: lfq_shape_def)
  then obtain v where "nodes q x = Some \<lparr>nval = v, nnext = Some (hd ?r)\<rparr>" "chain (nodes q) ?r"
    by (auto simp: chain_Cons)
  then show ?thesis
    using assms \<open>q_first q = x\<close> \<open>x \<notin> set ?r\<close>
    by (cases xs) (auto simp: p_free_def lfq_shape_def vals_def)
qed

lemma c_read_shape:
  assumes "lfq_shape q xs (y # ys) zs"
  shows "c_read q = Some (nval (the (nodes q y)))"
proof -
  have ch: "chain (nodes q) (xs @ q_divider q # y # ys @ zs)" using assms by (simp add: lfq_shape_def)
  then have "y \<in> dom (nodes q)" by (auto dest: chain_in_dom)
  with chain_mid [OF ch] show ?thesis by (auto simp: c_read_def)
qed

lemma c_advance_shape:
  assumes "lfq_shape q xs (y # ys) zs"
  shows "c_advance q = Some (q\<lparr>q_divider := y\<rparr>)
    \<and> lfq_shape (q\<lparr>q_divider := y\<rparr>) (xs @ [q_divider q]) ys zs"
proof -
  have "chain (nodes q) (xs @ q_divider q # y # ys @ zs)" using assms by (simp add: lfq_shape_def)
  from chain_mid [OF this] assms show ?thesis
    by (cases xs) (auto simp: c_advance_def lfq_shape_def)
qed

lemma vals_simps [simp]:
  "vals q [] = []" "vals q (y # ys) = nval (the (nodes q y)) # vals q ys"
  "vals q (ys @ zs) = vals q ys @ vals q zs" "length (vals q ys) = length ys"
  by (simp_all add: vals_def)

lemma vals_cong [simp]:
  "vals (q\<lparr>q_last := b\<rparr>) ys = vals q ys" "vals (q\<lparr>q_divider := b\<rparr>) ys = vals q ys"
  "vals (q\<lparr>q_size := k\<rparr>) ys = vals q ys"
  by (simp_all add: vals_def)

lemma shape_size [simp]: "lfq_shape (q\<lparr>q_size := k\<rparr>) xs ys zs = lfq_shape q xs ys zs"
  by (simp add: lfq_shape_def)

text \<open>The reclaiming loop ends and frees exactly the consumed nodes.\<close>

lemma reclaim_shape:
  "lfq_shape q xs ys zs \<Longrightarrow>
   \<exists>q'. reclaim q = Some q' \<and> lfq_shape q' [] ys zs \<and> vals q' ys = vals q ys
     \<and> q_size q' = q_size q"
proof (induction xs arbitrary: q)
  case Nil
  then show ?case by (subst reclaim.simps) (auto simp: shape_divider_first [OF Nil])
next
  case (Cons x xs)
  from p_free_shape [OF Cons.prems] obtain q' where
    q': "p_free q = Some q'" "lfq_shape q' xs ys zs" "vals q' ys = vals q ys" "q_size q' = q_size q"
    by blast
  from Cons.IH [OF q'(2)] q' show ?case
    by (subst reclaim.simps) (auto simp: shape_divider_first [OF Cons.prems])
qed

section \<open>The methods implement a queue\<close>

lemma lfq_inv_new [simp]: "lfq_inv (lfq_new a v0)" "lfq_contents (lfq_new a v0) = []"
proof -
  have "lfq_shape (lfq_new a v0) [] [] []" by (simp add: lfq_shape_def lfq_new_def)
  then show "lfq_inv (lfq_new a v0)" "lfq_contents (lfq_new a v0) = []"
    using contents_shape [of "lfq_new a v0" "[]" "[]" "[]"]
    by (auto simp: lfq_inv_def lfq_new_def)
qed

lemma produce_ok:
  assumes "lfq_inv q" "a \<notin> dom (nodes q)"
  shows "\<exists>q'. produce a t q = Some q' \<and> lfq_inv q' \<and> lfq_contents q' = lfq_contents q @ [t]"
proof -
  from assms(1) obtain xs ys where s: "lfq_shape q xs ys []" "q_size q = int (length ys)"
    using contents_shape by (fastforce simp: lfq_inv_def)
  from p_link_shape [OF s(1) assms(2)] obtain q1 where q1: "p_link a t q = Some q1"
    "lfq_shape q1 xs ys [a]" "vals q1 ys = vals q ys" "nval (the (nodes q1 a)) = t"
    "q_size q1 = q_size q" by blast
  let ?q2 = "p_count (q1\<lparr>q_last := a\<rparr>)"
  have q2: "p_advance q1 = Some (q1\<lparr>q_last := a\<rparr>)" "lfq_shape ?q2 xs (ys @ [a]) []"
    using p_advance_shape [OF q1(2)] by (simp_all add: p_count_def)
  from reclaim_shape [OF q2(2)] obtain q3 where q3: "reclaim ?q2 = Some q3"
    "lfq_shape q3 [] (ys @ [a]) []" "vals q3 (ys @ [a]) = vals q1 (ys @ [a])"
    "q_size q3 = q_size q + 1"
    by (auto simp: p_count_def q1(5))
  have "lfq_contents q3 = lfq_contents q @ [t]"
    using q3(3) q1(3,4) contents_shape [OF q3(2)] contents_shape [OF s(1)] by simp
  moreover from this have "lfq_inv q3"
    using q3(2,4) s(2) contents_shape [OF s(1)] by (auto simp: lfq_inv_def)
  ultimately show ?thesis using q1(1) q2(1) q3(1) by (auto simp: produce_def)
qed

lemma consume_ok:
  assumes "lfq_inv q"
  shows "\<exists>v q'. consume q = Some (v, q') \<and> lfq_inv q' \<and>
    lfq_contents q = (case v of None \<Rightarrow> [] | Some x \<Rightarrow> [x]) @ lfq_contents q' \<and>
    (v = None \<longrightarrow> lfq_contents q = [] \<and> q' = q)"
proof -
  from assms obtain xs ys where s: "lfq_shape q xs ys []" "q_size q = int (length ys)"
    using contents_shape by (fastforce simp: lfq_inv_def)
  show ?thesis
  proof (cases ys)
    case Nil
    then show ?thesis
      using assms contents_shape [OF s(1)] shape_divider_last [OF s(1)] by (auto simp: consume_def)
  next
    case (Cons y ys')
    let ?q = "c_count (q\<lparr>q_divider := y\<rparr>)"
    have sh: "lfq_shape ?q (xs @ [q_divider q]) ys' []"
      using c_advance_shape [OF s(1) [unfolded Cons]] by (simp add: c_count_def)
    have "consume q = Some (Some (nval (the (nodes q y))), ?q)"
      using c_advance_shape [OF s(1) [unfolded Cons]] c_read_shape [OF s(1) [unfolded Cons]]
        shape_divider_last [OF s(1)] Cons
      by (simp add: consume_def)
    moreover have "lfq_contents ?q = vals q ys'" "lfq_contents q = vals q ys"
      using contents_shape [OF sh] contents_shape [OF s(1)] by (simp_all add: c_count_def)
    ultimately show ?thesis using sh s(2) Cons by (auto simp: lfq_inv_def c_count_def)
  qed
qed

interpretation lfq: fifo lfq_inv lfq_contents "\<lambda>a q. a \<notin> dom (nodes q)" produce consume
proof unfold_locales
  fix q :: "'a lfq" and a x assume "lfq_inv q" "a \<notin> dom (nodes q)"
  then show "\<exists>q'. produce a x q = Some q' \<and> lfq_inv q' \<and> lfq_contents q' = lfq_contents q @ [x]"
    by (rule produce_ok)
next
  fix q :: "'a lfq" assume "lfq_inv q" "lfq_contents q = []"
  then show "consume q = Some (None, q)" using consume_ok [of q] by (fastforce split: option.splits)
next
  fix q :: "'a lfq" and x xs assume q: "lfq_inv q" "lfq_contents q = x # xs"
  then show "\<exists>q'. consume q = Some (Some x, q') \<and> lfq_inv q' \<and> lfq_contents q' = xs"
    using consume_ok [OF q(1)] by (fastforce split: option.splits)
qed

lemma lfq_empty_iff: "lfq_inv q \<Longrightarrow> lfq_empty q \<longleftrightarrow> lfq_contents q = []"
  by (auto simp: lfq_inv_def lfq_empty_def)

lemma free_all_chain: "chain h L \<Longrightarrow> distinct L \<Longrightarrow>
    \<exists>h'. free_all h (Some (hd L)) = Some h' \<and> dom h' = dom h - set L"
proof (induction L arbitrary: h)
  case (Cons a L)
  show ?case
  proof (cases L)
    case Nil
    with Cons.prems show ?thesis by (auto simp: free_all.simps)
  next
    case L: (Cons b r)
    with Cons.prems have "chain (h(a := None)) L" "distinct L" by auto
    from Cons.IH [OF this] obtain h' where
      h': "free_all (h(a := None)) (Some (hd L)) = Some h'" "dom h' = dom (h(a := None)) - set L"
      by blast
    have "free_all h (Some a) = free_all (h(a := None)) (Some (hd L))"
      using Cons.prems L by (subst free_all.simps) auto
    then have "free_all h (Some (hd (a # L))) = Some h'" using h'(1) by (simp only: list.sel)
    moreover have "dom h' = dom h - set (a # L)" using h'(2) by auto
    ultimately show ?thesis by blast
  qed
qed simp

text \<open>The destructor frees every node once and leaves nothing behind.\<close>

lemma lfq_destructor:
  assumes "lfq_inv q"
  shows "free_all (nodes q) (Some (q_first q)) = Some Map.empty"
proof -
  from assms obtain xs ys where s: "lfq_shape q xs ys []" by (auto simp: lfq_inv_def)
  have "q_first q = hd (xs @ q_divider q # ys)"
    using s by (cases xs) (auto simp: lfq_shape_def)
  then show ?thesis
    using s free_all_chain [of "nodes q" "xs @ q_divider q # ys"] by (auto simp: lfq_shape_def)
qed

section \<open>One producer and one consumer\<close>

text \<open>
  The producer thread is between two statements of \<^verbatim>\<open>produce\<close>, the consumer thread between two
  statements of \<^verbatim>\<open>consume\<close>.  Statements are atomic and their order is the program's, which is what
  the comment in the source assumes of the plain pointers.  \<open>sent\<close> records the published values,
  \<open>got\<close> the values \<^verbatim>\<open>consume\<close> has returned or is about to return.
\<close>

datatype 'a ppc = P_idle | P_linked 'a | P_advanced | P_reclaim

datatype 'a cpc = C_idle | C_nonempty | C_read 'a | C_advanced

record 'a conc =
  cq :: "'a lfq"
  ppc :: "'a ppc"
  cpc :: "'a cpc"
  sent :: "'a list"
  got :: "'a list"

definition conc_init :: "nat \<Rightarrow> 'a \<Rightarrow> 'a conc" where
  "conc_init a v0 = \<lparr>cq = lfq_new a v0, ppc = P_idle, cpc = C_idle, sent = [], got = []\<rparr>"

inductive lfq_step :: "'a conc \<Rightarrow> 'a conc \<Rightarrow> bool" where
  link: "ppc s = P_idle \<Longrightarrow> a \<notin> dom (nodes (cq s)) \<Longrightarrow> p_link a t (cq s) = Some q \<Longrightarrow>
     lfq_step s (s\<lparr>cq := q, ppc := P_linked t\<rparr>)"
| publish: "ppc s = P_linked t \<Longrightarrow> p_advance (cq s) = Some q \<Longrightarrow>
     lfq_step s (s\<lparr>cq := q, ppc := P_advanced, sent := sent s @ [t]\<rparr>)"
| count_up: "ppc s = P_advanced \<Longrightarrow>
     lfq_step s (s\<lparr>cq := p_count (cq s), ppc := P_reclaim\<rparr>)"
| free: "ppc s = P_reclaim \<Longrightarrow> q_divider (cq s) \<noteq> q_first (cq s) \<Longrightarrow> p_free (cq s) = Some q \<Longrightarrow>
     lfq_step s (s\<lparr>cq := q\<rparr>)"
| produced: "ppc s = P_reclaim \<Longrightarrow> q_divider (cq s) = q_first (cq s) \<Longrightarrow>
     lfq_step s (s\<lparr>ppc := P_idle\<rparr>)"
| check: "cpc s = C_idle \<Longrightarrow> q_divider (cq s) \<noteq> q_last (cq s) \<Longrightarrow>
     lfq_step s (s\<lparr>cpc := C_nonempty\<rparr>)"
| read: "cpc s = C_nonempty \<Longrightarrow> c_read (cq s) = Some v \<Longrightarrow>
     lfq_step s (s\<lparr>cpc := C_read v\<rparr>)"
| advance: "cpc s = C_read v \<Longrightarrow> c_advance (cq s) = Some q \<Longrightarrow>
     lfq_step s (s\<lparr>cq := q, cpc := C_advanced, got := got s @ [v]\<rparr>)"
| count_down: "cpc s = C_advanced \<Longrightarrow>
     lfq_step s (s\<lparr>cq := c_count (cq s), cpc := C_idle\<rparr>)"

inductive_cases lfq_stepE: "lfq_step s s'"

inductive lfq_reachable :: "'a conc \<Rightarrow> bool" where
  start: "lfq_reachable (conc_init a v0)"
| step: "lfq_reachable s \<Longrightarrow> lfq_step s s' \<Longrightarrow> lfq_reachable s'"

text \<open>The statement a thread is about to execute touches only live nodes.\<close>

definition no_fault :: "'a conc \<Rightarrow> bool" where
  "no_fault s \<longleftrightarrow>
     (ppc s = P_idle \<longrightarrow> (\<forall>a t. a \<notin> dom (nodes (cq s)) \<longrightarrow> p_link a t (cq s) \<noteq> None)) \<and>
     (\<forall>t. ppc s = P_linked t \<longrightarrow> p_advance (cq s) \<noteq> None) \<and>
     (ppc s = P_reclaim \<and> q_divider (cq s) \<noteq> q_first (cq s) \<longrightarrow> p_free (cq s) \<noteq> None) \<and>
     (cpc s = C_nonempty \<longrightarrow> c_read (cq s) \<noteq> None) \<and>
     (\<forall>v. cpc s = C_read v \<longrightarrow> c_advance (cq s) \<noteq> None)"

definition conc_at :: "'a conc \<Rightarrow> nat list \<Rightarrow> nat list \<Rightarrow> nat list \<Rightarrow> bool" where
  "conc_at s xs ys zs \<longleftrightarrow>
     lfq_shape (cq s) xs ys zs \<and>
     (case ppc s of P_linked t \<Rightarrow> \<exists>a. zs = [a] \<and> nval (the (nodes (cq s) a)) = t | _ \<Rightarrow> zs = []) \<and>
     (case cpc s of C_nonempty \<Rightarrow> ys \<noteq> [] | C_read v \<Rightarrow> ys \<noteq> [] \<and> v = hd (vals (cq s) ys)
      | _ \<Rightarrow> True) \<and>
     sent s = got s @ vals (cq s) ys \<and>
     q_size (cq s) = int (length ys) - (if ppc s = P_advanced then 1 else 0)
       + (if cpc s = C_advanced then 1 else 0)"

definition conc_inv :: "'a conc \<Rightarrow> bool" where
  "conc_inv s \<longleftrightarrow> (\<exists>xs ys zs. conc_at s xs ys zs)"

lemma conc_inv_init: "conc_inv (conc_init a v0)"
proof -
  have "lfq_shape (lfq_new a v0) [] [] []" by (simp add: lfq_shape_def lfq_new_def)
  then have "conc_at (conc_init a v0) [] [] []" by (simp add: conc_at_def conc_init_def lfq_new_def)
  then show ?thesis by (auto simp: conc_inv_def)
qed

lemma p_link_shape_zs:
  assumes "p_link a t q = Some q'" "lfq_shape q xs ys []" "a \<notin> dom (nodes q)"
  shows "lfq_shape q' xs ys [a]" "vals q' ys = vals q ys" "nval (the (nodes q' a)) = t"
    "q_size q' = q_size q"
  using p_link_shape [OF assms(2,3), of t] assms(1) by auto

lemma p_free_shape_some:
  assumes "p_free q = Some q'" "lfq_shape q xs ys zs" "q_divider q \<noteq> q_first q"
  shows "\<exists>xs'. lfq_shape q' xs' ys zs" "vals q' ys = vals q ys" "q_size q' = q_size q"
proof -
  from assms(2,3) obtain x xs' where "xs = x # xs'"
    using shape_divider_first [OF assms(2)] by (cases xs) auto
  with p_free_shape [of q x xs' ys zs] assms show "\<exists>xs'. lfq_shape q' xs' ys zs"
    "vals q' ys = vals q ys" "q_size q' = q_size q" by auto
qed

lemma conc_at_link:
  assumes "conc_at s xs ys zs" "ppc s = P_idle" "a \<notin> dom (nodes (cq s))" "p_link a t (cq s) = Some q"
  shows "conc_at (s\<lparr>cq := q, ppc := P_linked t\<rparr>) xs ys [a]"
proof -
  have sh: "lfq_shape (cq s) xs ys []" using assms(1,2) by (auto simp: conc_at_def)
  from p_link_shape_zs [OF assms(4) sh assms(3)] assms(1,2) show ?thesis
    by (simp add: conc_at_def cong: cpc.case_cong)
qed

lemma conc_at_publish:
  assumes "conc_at s xs ys zs" "ppc s = P_linked t" "p_advance (cq s) = Some q"
  shows "\<exists>a. conc_at (s\<lparr>cq := q, ppc := P_advanced, sent := sent s @ [t]\<rparr>) xs (ys @ [a]) []"
proof -
  obtain a where zs: "zs = [a]" and val: "nval (the (nodes (cq s) a)) = t"
    and sh: "lfq_shape (cq s) xs ys [a]"
    using assms(1,2) by (auto simp: conc_at_def)
  from p_advance_shape [OF sh] assms(3)
  have q: "q = (cq s)\<lparr>q_last := a\<rparr>" "lfq_shape ((cq s)\<lparr>q_last := a\<rparr>) xs (ys @ [a]) []" by simp_all
  have "ys \<noteq> [] \<Longrightarrow> hd (vals (cq s) ys @ [t]) = hd (vals (cq s) ys)" by (cases ys) simp_all
  with assms(1,2) q val show ?thesis
    by (intro exI [of _ a]) (simp add: conc_at_def split: cpc.splits)
qed

lemma conc_at_free:
  assumes "conc_at s xs ys zs" "ppc s = P_reclaim" "q_divider (cq s) \<noteq> q_first (cq s)"
    "p_free (cq s) = Some q"
  shows "\<exists>xs'. conc_at (s\<lparr>cq := q\<rparr>) xs' ys []"
proof -
  have sh: "lfq_shape (cq s) xs ys []" using assms(1,2) by (auto simp: conc_at_def)
  from p_free_shape_some [OF assms(4) sh assms(3)] obtain xs' where
    "lfq_shape q xs' ys []" "vals q ys = vals (cq s) ys" "q_size q = q_size (cq s)" by blast
  with assms(1,2) have "conc_at (s\<lparr>cq := q\<rparr>) xs' ys []"
    by (simp add: conc_at_def cong: cpc.case_cong)
  then show ?thesis ..
qed

lemma conc_at_advance:
  assumes "conc_at s xs ys zs" "cpc s = C_read v" "c_advance (cq s) = Some q"
  shows "\<exists>xs' ys'. conc_at (s\<lparr>cq := q, cpc := C_advanced, got := got s @ [v]\<rparr>) xs' ys' zs"
proof -
  obtain y ys' where ys: "ys = y # ys'" using assms(1,2) by (cases ys) (simp_all add: conc_at_def)
  have sh: "lfq_shape (cq s) xs (y # ys') zs" using assms(1) ys by (simp add: conc_at_def)
  from c_advance_shape [OF sh] assms(3)
  have "q = (cq s)\<lparr>q_divider := y\<rparr>"
    "lfq_shape ((cq s)\<lparr>q_divider := y\<rparr>) (xs @ [q_divider (cq s)]) ys' zs" by simp_all
  with assms(1,2) ys
  have "conc_at (s\<lparr>cq := q, cpc := C_advanced, got := got s @ [v]\<rparr>) (xs @ [q_divider (cq s)]) ys' zs"
    by (simp add: conc_at_def split: ppc.splits)
  then show ?thesis by blast
qed

lemma conc_at_read:
  assumes "conc_at s xs ys zs" "cpc s = C_nonempty" "c_read (cq s) = Some v"
  shows "conc_at (s\<lparr>cpc := C_read v\<rparr>) xs ys zs"
proof -
  obtain y ys' where ys: "ys = y # ys'" using assms(1,2) by (cases ys) (simp_all add: conc_at_def)
  with c_read_shape [of "cq s" xs y ys' zs] assms show ?thesis
    by (simp add: conc_at_def split: ppc.splits)
qed

lemma lfq_step_at:
  assumes "lfq_step s s'" "conc_at s xs ys zs"
  shows "conc_inv s'"
  using assms(1)
proof cases
  case (link a t q)
  with conc_at_link [OF assms(2)] show ?thesis unfolding conc_inv_def by blast
next
  case (publish t q)
  with conc_at_publish [OF assms(2)] show ?thesis unfolding conc_inv_def by blast
next
  case count_up
  with assms(2) have "conc_at s' xs ys []"
    by (auto simp: conc_at_def p_count_def split: cpc.splits)
  then show ?thesis by (auto simp: conc_inv_def)
next
  case (free q)
  with conc_at_free [OF assms(2)] show ?thesis unfolding conc_inv_def by blast
next
  case produced
  with assms(2) have "conc_at s' xs ys []" by (auto simp: conc_at_def split: cpc.splits)
  then show ?thesis by (auto simp: conc_inv_def)
next
  case check
  have "lfq_shape (cq s) xs ys zs" using assms(2) by (simp add: conc_at_def)
  from shape_divider_last [OF this] check assms(2) have "conc_at s' xs ys zs"
    by (simp add: conc_at_def split: ppc.splits)
  then show ?thesis by (auto simp: conc_inv_def)
next
  case (read v)
  with conc_at_read [OF assms(2)] show ?thesis by (auto simp: conc_inv_def)
next
  case (advance v q)
  with conc_at_advance [OF assms(2)] show ?thesis unfolding conc_inv_def by blast
next
  case count_down
  with assms(2) have "conc_at s' xs ys zs"
    by (simp add: conc_at_def c_count_def split: ppc.splits)
  then show ?thesis by (auto simp: conc_inv_def)
qed

lemma lfq_step_inv: "lfq_step s s' \<Longrightarrow> conc_inv s \<Longrightarrow> conc_inv s'"
  using lfq_step_at by (auto simp: conc_inv_def)

lemma reachable_conc_inv: "lfq_reachable s \<Longrightarrow> conc_inv s"
  by (induction rule: lfq_reachable.induct) (auto intro: conc_inv_init lfq_step_inv)

lemma produce_nodes:
  assumes "lfq_inv q" "a \<notin> dom (nodes q)" "produce a t q = Some q'"
  shows "card (dom (nodes q')) = Suc (length (lfq_contents q'))"
proof -
  from assms(1) obtain xs ys where s: "lfq_shape q xs ys []" by (auto simp: lfq_inv_def)
  from p_link_shape [OF s assms(2)] obtain q1 where q1: "p_link a t q = Some q1"
    "lfq_shape q1 xs ys [a]" by blast
  let ?q2 = "p_count (q1\<lparr>q_last := a\<rparr>)"
  have q2: "p_advance q1 = Some (q1\<lparr>q_last := a\<rparr>)" "lfq_shape ?q2 xs (ys @ [a]) []"
    using p_advance_shape [OF q1(2)] by (simp_all add: p_count_def)
  from reclaim_shape [OF q2(2)] assms(3) q1(1) q2(1) have sh: "lfq_shape q' [] (ys @ [a]) []"
    by (auto simp: produce_def)
  then have d: "dom (nodes q') = set (q_divider q' # ys @ [a])"
    "distinct (q_divider q' # ys @ [a])" by (auto simp: lfq_shape_def)
  show ?thesis
    using distinct_card [OF d(2)] contents_shape [OF sh] by (simp add: d(1))
qed

lemma conc_inv_no_fault: "conc_inv s \<Longrightarrow> no_fault s"
proof -
  assume "conc_inv s"
  then obtain xs ys zs where c: "conc_at s xs ys zs" by (auto simp: conc_inv_def)
  then have sh: "lfq_shape (cq s) xs ys zs" by (simp add: conc_at_def)
  have "p_link a t (cq s) \<noteq> None" if "ppc s = P_idle" "a \<notin> dom (nodes (cq s))" for a t
    using c that p_link_shape [of "cq s" xs ys a t] by (auto simp: conc_at_def)
  moreover have "p_advance (cq s) \<noteq> None" if "ppc s = P_linked t" for t
    using c that p_advance_shape [of "cq s" xs ys] by (auto simp: conc_at_def)
  moreover have "p_free (cq s) \<noteq> None" if "q_divider (cq s) \<noteq> q_first (cq s)"
    using that shape_divider_first [OF sh] p_free_shape [of "cq s" "hd xs" "tl xs" ys zs] sh
    by (cases xs) auto
  moreover have "c_read (cq s) \<noteq> None" "c_advance (cq s) \<noteq> None" if "ys \<noteq> []"
    using that sh c_read_shape [of "cq s" xs "hd ys" "tl ys" zs]
      c_advance_shape [of "cq s" xs "hd ys" "tl ys" zs] by (cases ys; simp)+
  moreover have "ys \<noteq> []" if "cpc s = C_nonempty \<or> cpc s = C_read v" for v
    using c that by (auto simp: conc_at_def)
  ultimately show ?thesis by (auto simp: no_fault_def)
qed

section \<open>Properties\<close>

text \<open>C34: Sequentially the queue is first-in first-out and does not leak: on any reachable heap
  \<^verbatim>\<open>produce\<close> returns (no fault, the reclaiming loop ends), every value then comes out in the order
  it went in, and the heap holds one node per pending value and the dummy.\<close>
theorem lfq_fifo_no_leak:
  assumes "lfq_inv q" and "a \<notin> dom (nodes q)"
  shows "\<exists>q' q''. produce a t q = Some q' \<and> card (dom (nodes q')) = Suc (length (lfq_contents q) + 1)
    \<and> pops consume (length (lfq_contents q) + 1) q' = Some (lfq_contents q @ [t], q'')
    \<and> lfq_inv q'' \<and> lfq_empty q'' \<and> consume q'' = Some (None, q'')"
proof -
  from lfq.push_ok [OF assms, of t] obtain q' where
    q': "produce a t q = Some q'" "lfq_inv q'" "lfq_contents q' = lfq_contents q @ [t]" by blast
  from lfq.pops_take [OF q'(2), of "length (lfq_contents q) + 1"] q'(3) obtain q'' where
    "pops consume (length (lfq_contents q) + 1) q' = Some (lfq_contents q @ [t], q'')"
    "lfq_inv q''" "lfq_contents q'' = []" by auto
  then show ?thesis
    using q' produce_nodes [OF assms q'(1)] lfq_empty_iff lfq.pop_empty by fastforce
qed

theorem lfq_fifo_no_leak_witness:
  "\<exists>q' q''. produce 1 (7 :: int) (lfq_new 0 0) = Some q' \<and> card (dom (nodes q')) = 2
    \<and> pops consume 1 q' = Some ([7], q'') \<and> lfq_empty q''"
proof -
  have fresh: "1 \<notin> dom (nodes (lfq_new 0 (0 :: int)))" by (simp add: lfq_new_def)
  from lfq_fifo_no_leak [OF lfq_inv_new(1) fresh, of 7] show ?thesis
    by (auto simp: numeral_2_eq_2 simp del: pops.simps)
qed

text \<open>C15: With one producer and one consumer interleaved statement by statement, no thread ever
  dereferences a freed or null node: the producer frees only nodes the consumer has left.\<close>
theorem lfq_memory_safe:
  assumes "lfq_reachable s"
  shows "no_fault s"
  using assms by (intro conc_inv_no_fault reachable_conc_inv)

theorem lfq_memory_safe_witness: "no_fault (conc_init 0 (0 :: int))"
  by (rule lfq_memory_safe) (rule lfq_reachable.start)



end
