(* ===== verification/Mailbox.thy ===== *)
theory Mailbox
  imports Lock_Free_Queue Base_Socket
begin

text \<open>
  How the threads of the server talk to each other: the sender puts a message into a queue and then
  writes the number of the message kind into the receiver's pipe; the receiver's event loop reads one
  number per callback and takes one message out.  The workers and the servers each write this out
  themselves; the locale states the contract and what it gives: order, and that no message is lost as
  long as the pipe accepts the notifications.
\<close>

section \<open>The pipe\<close>

text \<open>\<^verbatim>\<open>notify\<close>: the result of \<^verbatim>\<open>write(_notify_send_fd, &msg, sizeof(int))\<close>.\<close>

definition notify :: "sys_result \<Rightarrow> int" where
  "notify r = (case r of Done n \<Rightarrow> (if n = 4 then 0 else -1) | Fail _ \<Rightarrow> -1)"

text \<open>The numbers in the pipe; a full \<^verbatim>\<open>int\<close> is written or nothing is.\<close>

definition pipe_write :: "sys_result \<Rightarrow> int \<Rightarrow> int list \<Rightarrow> int list" where
  "pipe_write r msg pipe = (if notify r = 0 then pipe @ [msg] else pipe)"

lemma notify_cases: "notify r = 0 \<or> notify r = -1"
  by (auto simp: notify_def split: sys_result.split)

section \<open>The contract\<close>

text \<open>
  A history: the messages sent, the messages received, the number of failed notifications, the state.
  The receiver runs when a notification of its kind is next in the pipe (\<open>ready\<close>); \<open>other\<close> are the
  steps of the thread that do not concern this mailbox.\<close>

inductive mb_run ::
    "('r \<Rightarrow> 's \<Rightarrow> bool) \<Rightarrow> ('r \<Rightarrow> 'a \<Rightarrow> sys_result \<Rightarrow> 's \<Rightarrow> (int \<times> 's) option)
      \<Rightarrow> ('s \<Rightarrow> bool) \<Rightarrow> ('s \<Rightarrow> ('a option \<times> 's) option) \<Rightarrow> ('s \<Rightarrow> 's \<Rightarrow> bool) \<Rightarrow> 's
      \<Rightarrow> 'a list \<Rightarrow> 'a list \<Rightarrow> nat \<Rightarrow> 's \<Rightarrow> bool"
  for avail send ready recv other s0 where
  start: "mb_run avail send ready recv other s0 [] [] 0 s0"
| sent: "mb_run avail send ready recv other s0 xs ys f s \<Longrightarrow> avail r s \<Longrightarrow>
    send r x w s = Some (ret, s') \<Longrightarrow>
    mb_run avail send ready recv other s0 (xs @ [x]) ys (if ret = 0 then f else Suc f) s'"
| got: "mb_run avail send ready recv other s0 xs ys f s \<Longrightarrow> ready s \<Longrightarrow> recv s = Some (v, s') \<Longrightarrow>
    mb_run avail send ready recv other s0 xs (ys @ (case v of None \<Rightarrow> [] | Some y \<Rightarrow> [y])) f s'"
| other: "mb_run avail send ready recv other s0 xs ys f s \<Longrightarrow> other s s' \<Longrightarrow>
    mb_run avail send ready recv other s0 xs ys f s'"

locale mailbox =
  fixes inv :: "'s \<Rightarrow> bool"
    and queued :: "'s \<Rightarrow> 'a list"
    and pending :: "'s \<Rightarrow> nat"
    and avail :: "'r \<Rightarrow> 's \<Rightarrow> bool"
    and send :: "'r \<Rightarrow> 'a \<Rightarrow> sys_result \<Rightarrow> 's \<Rightarrow> (int \<times> 's) option"
    and ready :: "'s \<Rightarrow> bool"
    and recv :: "'s \<Rightarrow> ('a option \<times> 's) option"
    and other :: "'s \<Rightarrow> 's \<Rightarrow> bool"
  assumes send_ok: "inv s \<Longrightarrow> avail r s \<Longrightarrow>
      \<exists>s'. send r x w s = Some (notify w, s') \<and> inv s' \<and> queued s' = queued s @ [x] \<and>
        pending s' = pending s + (if notify w = 0 then 1 else 0)"
    and ready_pending: "ready s \<Longrightarrow> 0 < pending s"
    and recv_empty: "inv s \<Longrightarrow> ready s \<Longrightarrow> queued s = [] \<Longrightarrow>
      \<exists>s'. recv s = Some (None, s') \<and> inv s' \<and> queued s' = [] \<and> pending s' = pending s - 1"
    and recv_front: "inv s \<Longrightarrow> ready s \<Longrightarrow> queued s = x # xs \<Longrightarrow>
      \<exists>s'. recv s = Some (Some x, s') \<and> inv s' \<and> queued s' = xs \<and> pending s' = pending s - 1"
    and other_ok: "inv s \<Longrightarrow> other s s' \<Longrightarrow> inv s' \<and> queued s' = queued s \<and> pending s' = pending s"
begin

abbreviation run :: "'s \<Rightarrow> 'a list \<Rightarrow> 'a list \<Rightarrow> nat \<Rightarrow> 's \<Rightarrow> bool" where
  "run \<equiv> mb_run avail send ready recv other"

text \<open>
  Everything sent is either received, in order, or still queued; a message waits without a
  notification only if a notification failed (\<open>f\<close> counts those).\<close>

lemma mb_invariant:
  assumes "run s0 xs ys f s" "inv s0" "queued s0 = []" "pending s0 = 0"
  shows "inv s \<and> ys @ queued s = xs \<and> pending s \<le> length (queued s) \<and>
    length (queued s) \<le> pending s + f"
  using assms(1)
proof induction
  case start
  then show ?case using assms by simp
next
  case (sent xs ys f s r x w ret s')
  then show ?case using send_ok [of s r x w] notify_cases [of w] by auto
next
  case (got xs ys f s v s')
  show ?case
  proof (cases "queued s")
    case Nil
    with got ready_pending [of s] show ?thesis by auto
  next
    case (Cons z zs)
    obtain s'' where "recv s = Some (Some z, s'')" "inv s''" "queued s'' = zs" "pending s'' = pending s - 1"
      using recv_front [OF _ got.hyps(2) Cons] got.IH by blast
    with got Cons ready_pending [of s] show ?thesis by auto
  qed
next
  case (other xs ys f s s')
  then show ?case using other_ok [of s s'] by simp
qed

text \<open>Once every notification is handled, every message sent has been received.\<close>

lemma mb_delivered:
  assumes "run s0 xs ys 0 s" "inv s0" "queued s0 = []" "pending s0 = 0" "pending s = 0"
  shows "ys = xs"
  using mb_invariant [OF assms(1-4)] assms(5) by auto

text \<open>A notification that comes up always hands out a message: the oldest one not yet received.\<close>

lemma mb_progress:
  assumes "run s0 xs ys f s" "inv s0" "queued s0 = []" "pending s0 = 0" "ready s"
  shows "\<exists>y zs s'. xs = ys @ y # zs \<and> recv s = Some (Some y, s') \<and> run s0 xs (ys @ [y]) f s'"
proof -
  have i: "inv s" "ys @ queued s = xs" "queued s \<noteq> []"
    using mb_invariant [OF assms(1-4)] ready_pending [OF assms(5)] by auto
  then obtain y zs where q: "queued s = y # zs" by (cases "queued s") auto
  from recv_front [OF i(1) assms(5) q] obtain s' where r: "recv s = Some (Some y, s')" by blast
  have "run s0 xs (ys @ [y]) f s'" using mb_run.got [OF assms(1,5) r] by simp
  with r i(2) q show ?thesis by auto
qed

end

end
