(* ===== verification/Tcp_Connection.thy ===== *)
theory Tcp_Connection
  imports Event_Loop Mailbox
begin

text \<open>
  The data of the signaling service: the request header of \<^verbatim>\<open>src/base/ghead.h\<close>, the messages of
  \<^verbatim>\<open>src/grtcserver_def.h\<close>, the per-client state of \<^verbatim>\<open>src/server/tcp_connection.h\<close>, and the JSON
  library (a parameter).
\<close>

section \<open>\<^verbatim>\<open>ghead_t\<close>\<close>

text \<open>
  The code overlays the struct on the bytes of the buffer: 36 bytes, little-endian integers on the
  target.
\<close>

abbreviation GHEAD_SIZE :: nat where "GHEAD_SIZE \<equiv> 36"
abbreviation GHEAD_MAGIC_NUM :: u32 where "GHEAD_MAGIC_NUM \<equiv> 0xfb202202"

record ghead =
  gh_id :: u16
  gh_version :: u16
  gh_log_id :: u32
  gh_provider :: string
  gh_magic_num :: u32
  gh_reserved :: u32
  gh_body_len :: u32

definition load16 :: "string \<Rightarrow> u16" where
  "load16 s = word_of_nat (be_nat (rev s))"

definition ghead_of :: "string \<Rightarrow> ghead" where
  "ghead_of s =
     \<lparr>gh_id = load16 (take 2 s), gh_version = load16 (take 2 (drop 2 s)),
      gh_log_id = load32 (take 4 (drop 4 s)), gh_provider = take 16 (drop 8 s),
      gh_magic_num = load32 (take 4 (drop 24 s)), gh_reserved = load32 (take 4 (drop 28 s)),
      gh_body_len = load32 (take 4 (drop 32 s))\<rparr>"

text \<open>\<^verbatim>\<open>xh->body_len = n\<close> on the bytes of a header.\<close>

definition set_body_len :: "nat \<Rightarrow> string \<Rightarrow> string" where
  "set_body_len n h = take 32 h @ mem32 (word_of_nat n) @ drop 36 h"

lemma length_set_body_len [simp]: "36 \<le> length h \<Longrightarrow> length (set_body_len n h) = length h"
  by (simp add: set_body_len_def)

lemma ghead_of_append [simp]: "36 \<le> length h \<Longrightarrow> ghead_of (h @ t) = ghead_of h"
  by (simp add: ghead_of_def)

lemma ghead_of_take [simp]: "ghead_of (take 36 s) = ghead_of s"
  by (simp add: ghead_of_def drop_take)

lemma ghead_of_set_body_len:
  "36 \<le> length h \<Longrightarrow> ghead_of (set_body_len n h) = (ghead_of h)\<lparr>gh_body_len := word_of_nat n\<rparr>"
  by (simp add: ghead_of_def set_body_len_def drop_take)

section \<open>\<^verbatim>\<open>RtcMsg\<close>\<close>

abbreviation CMDNO_PUSH :: int where "CMDNO_PUSH \<equiv> 1"
abbreviation CMDNO_ANSWER :: int where "CMDNO_ANSWER \<equiv> 3"
abbreviation MAX_RES_BUF :: nat where "MAX_RES_BUF \<equiv> 4096"

text \<open>Pointers are addresses; \<open>None\<close> is \<^verbatim>\<open>nullptr\<close>.\<close>

record rtc_msg =
  rm_cmdno :: int
  rm_uid :: u64
  rm_stream_name :: string
  rm_stream_type :: string
  rm_audio :: int
  rm_video :: int
  rm_log_id :: u32
  rm_worker :: "nat option"
  rm_conn :: "nat option"
  rm_sdp :: string
  rm_err_no :: int
  rm_fd :: int
  rm_certificate :: "nat option"

definition rtc_msg_new :: rtc_msg where
  "rtc_msg_new = \<lparr>rm_cmdno = -1, rm_uid = 0, rm_stream_name = [], rm_stream_type = [], rm_audio = 0,
     rm_video = 0, rm_log_id = 0, rm_worker = None, rm_conn = None, rm_sdp = [], rm_err_no = 0,
     rm_fd = 0, rm_certificate = None\<rparr>"

section \<open>JSON\<close>

text \<open>
  \<^verbatim>\<open>jsoncpp\<close>: \<open>js_parse\<close> is \<open>None\<close> when the reader reports an error text; the accessors are \<open>None\<close>
  when they throw \<^verbatim>\<open>Json::Exception\<close>; \<open>js_write\<close> is the writer on an object with the given fields.
\<close>

datatype json_val = JInt int | JStr string

record 'j json_lib =
  js_parse :: "string \<Rightarrow> 'j option"
  js_int :: "'j \<Rightarrow> string \<Rightarrow> int option"
  js_uint64 :: "'j \<Rightarrow> string \<Rightarrow> u64 option"
  js_string :: "'j \<Rightarrow> string \<Rightarrow> string option"
  js_write :: "(string \<times> json_val) list \<Rightarrow> string"

section \<open>Replies\<close>

text \<open>
  A reply is an \<^verbatim>\<open>rtc::Slice\<close>: a pointer to the allocated block (a byte that was never written is
  \<open>None\<close>) and a size, which the code computes without looking at the size of the block.
\<close>

record reply =
  rp_mem :: "char option list"
  rp_size :: nat

text \<open>The bytes \<^verbatim>\<open>data() + pos\<close> up to the size: \<open>None\<close> when that leaves the written part of the block.\<close>

definition reply_bytes :: "reply \<Rightarrow> nat \<Rightarrow> string option" where
  "reply_bytes r pos =
     (let bs = drop pos (take (rp_size r) (rp_mem r)) in
      if rp_size r \<le> length (rp_mem r) \<and> None \<notin> set bs then Some (map the bs) else None)"

text \<open>
  Allocation of \<^verbatim>\<open>GHEAD_SIZE + MAX_RES_BUF\<close> bytes, the copied request header with the new body length,
  \<^verbatim>\<open>snprintf(buf + GHEAD_SIZE, MAX_RES_BUF, "%s", json)\<close>, and the slice over it.
\<close>

definition c_str :: "string \<Rightarrow> string" where
  "c_str s = takeWhile (\<lambda>c. c \<noteq> CHR 0x00) s"

definition snprintf_mem :: "nat \<Rightarrow> string \<Rightarrow> char option list" where
  "snprintf_mem n s =
     (let t = take (n - 1) (c_str s) in
      map Some t @ Some (CHR 0x00) # replicate (n - length t - 1) None)"

definition build_reply :: "string \<Rightarrow> string \<Rightarrow> reply" where
  "build_reply header json =
     \<lparr>rp_mem = map Some (set_body_len (length json) header) @ snprintf_mem MAX_RES_BUF json,
      rp_size = unat (36 + word_of_nat (length json) :: u32)\<rparr>"

lemma length_snprintf_mem: "0 < n \<Longrightarrow> length (snprintf_mem n s) = n"
  by (simp add: snprintf_mem_def Let_def c_str_def)

section \<open>\<^verbatim>\<open>TcpConnection\<close>\<close>

datatype conn_state = STATE_HEAD | STATE_BODY

record 's tcp_conn =
  tc_fd :: int
  tc_ip :: string
  tc_port :: int
  tc_io :: io_watcher
  tc_timer :: "'s timer_watcher"
  tc_querybuf :: string
  tc_expected :: nat
  tc_processed :: nat
  tc_state :: conn_state
  tc_last :: u64
  tc_replies :: "reply list"
  tc_resp_pos :: nat

definition tcp_conn_new :: "int \<Rightarrow> string \<times> int \<Rightarrow> io_watcher \<Rightarrow> 's timer_watcher \<Rightarrow> u64 \<Rightarrow> 's tcp_conn" where
  "tcp_conn_new fd peer io tm t =
     \<lparr>tc_fd = fd, tc_ip = fst peer, tc_port = snd peer, tc_io = io, tc_timer = tm, tc_querybuf = [],
      tc_expected = GHEAD_SIZE, tc_processed = 0, tc_state = STATE_HEAD, tc_last = t,
      tc_replies = [], tc_resp_pos = 0\<rparr>"

text \<open>A reply whose JSON text leaves room for the terminating NUL is the header and the text.\<close>

lemma map_the_Some [simp]: "map (the \<circ> Some) xs = xs" "map (\<lambda>x. the (Some x)) xs = xs"
  by (simp_all add: comp_def)

lemma reply_bytes_small:
  assumes "length header = 36" "length json < MAX_RES_BUF" "CHR 0x00 \<notin> set json"
  shows "reply_bytes (build_reply header json) 0 = Some (set_body_len (length json) header @ json)"
proof -
  have c: "c_str json = json"
    using assms(3) by (auto simp: c_str_def takeWhile_eq_all_conv)
  have n: "unat (36 + word_of_nat (length json) :: u32) = 36 + length json"
    using assms(2) by (simp add: unat_word_ariths unat_of_nat take_bit_nat_eq_self)
  have t: "take (36 + length json) (rp_mem (build_reply header json)) =
      map Some (set_body_len (length json) header @ json)"
    using assms(1,2) c by (simp add: build_reply_def snprintf_mem_def)
  have "36 + length json \<le> length (rp_mem (build_reply header json))"
    using assms(1,2) by (simp add: build_reply_def length_snprintf_mem)
  then show ?thesis
    using n t by (simp add: reply_bytes_def Let_def build_reply_def)
qed

lemma reply_bytes_over:
  assumes "length header = 36" "MAX_RES_BUF < length json" "length json < 2 ^ 31"
  shows "reply_bytes (build_reply header json) pos = None"
proof -
  have "unat (36 + word_of_nat (length json) :: u32) = 36 + length json"
    using assms(3) by (simp add: unat_word_ariths unat_of_nat take_bit_nat_eq_self)
  then show ?thesis
    using assms(1,2) by (simp add: reply_bytes_def build_reply_def length_snprintf_mem Let_def)
qed

end
