(* ===== verification/Signaling_Request.thy ===== *)
theory Signaling_Request
  imports Tcp_Connection
begin

text \<open>
  Requests of signaling clients (\<^verbatim>\<open>src/server/signaling_worker.cpp\<close>): cutting the byte stream of a
  connection into header and body, and executing the request.  The functions here change one
  connection; \<open>Signaling_Worker\<close> puts them into the worker.
\<close>

text \<open>
  What the request code uses of its surroundings: the JSON library, the address of the worker and
  the result of writing the notification when a message goes to the RTC server.
\<close>

record 'j sig_env =
  se_json :: "'j json_lib"
  se_worker :: nat
  se_pipe :: "rtc_msg \<Rightarrow> sys_result"

section \<open>Executing a request\<close>

definition add_reply :: "'s tcp_conn \<Rightarrow> reply \<Rightarrow> 's tcp_conn" where
  "add_reply c r = c\<lparr>tc_replies := tc_replies c @ [r],
     tc_io := start_io_event (tc_io c) (tc_fd c) EV_LOOP_WRITE\<rparr>"

text \<open>The result and the messages put into the queue of the RTC server.\<close>

definition signaling_process_answer ::
    "'j sig_env \<Rightarrow> int \<Rightarrow> 'j \<Rightarrow> u32 \<Rightarrow> int \<times> rtc_msg list" where
  "signaling_process_answer env cmdno root log_id =
     (let js = se_json env in
      case do { uid \<leftarrow> js_uint64 js root ''uid'';
                stream_name \<leftarrow> js_string js root ''stream_name'';
                answer \<leftarrow> js_string js root ''answer'';
                stream_type \<leftarrow> js_string js root ''type'';
                Some (uid, stream_name, answer, stream_type) } of
        None \<Rightarrow> (-1, [])
      | Some (uid, stream_name, answer, stream_type) \<Rightarrow>
          let msg = rtc_msg_new\<lparr>rm_cmdno := cmdno, rm_stream_name := stream_name, rm_uid := uid,
                      rm_sdp := answer, rm_stream_type := stream_type, rm_log_id := log_id\<rparr>
          in (notify (se_pipe env msg), [msg]))"

definition signaling_process_push ::
    "'j sig_env \<Rightarrow> int \<Rightarrow> nat \<Rightarrow> 's tcp_conn \<Rightarrow> 'j \<Rightarrow> u32 \<Rightarrow> int \<times> rtc_msg list" where
  "signaling_process_push env cmdno a c root log_id =
     (let js = se_json env in
      case do { uid \<leftarrow> js_uint64 js root ''uid'';
                stream_name \<leftarrow> js_string js root ''stream_name'';
                audio \<leftarrow> js_int js root ''audio'';
                video \<leftarrow> js_int js root ''video'';
                Some (uid, stream_name, audio, video) } of
        None \<Rightarrow> (-1, [])
      | Some (uid, stream_name, audio, video) \<Rightarrow>
          let msg = rtc_msg_new\<lparr>rm_cmdno := cmdno, rm_stream_name := stream_name, rm_uid := uid,
                      rm_audio := audio, rm_video := video, rm_log_id := log_id,
                      rm_worker := Some (se_worker env), rm_conn := Some a, rm_fd := tc_fd c\<rparr>
          in (notify (se_pipe env msg), [msg]))"

definition result_json :: "'j json_lib \<Rightarrow> int \<Rightarrow> string" where
  "result_json js ret =
     js_write js [(''err_no'', JInt ret),
                  (''err_msg'', JStr (if ret = 0 then ''success'' else ''process error''))]"

definition process_request ::
    "'j sig_env \<Rightarrow> nat \<Rightarrow> 's tcp_conn \<Rightarrow> string \<Rightarrow> string \<Rightarrow> int \<times> 's tcp_conn \<times> rtc_msg list" where
  "process_request env a c header body =
     (let js = se_json env; log_id = gh_log_id (ghead_of header) in
      case js_parse js body of
        None \<Rightarrow> (-1, c, [])
      | Some root \<Rightarrow>
        (case js_int js root ''cmdno'' of
           None \<Rightarrow> (-1, c, [])
         | Some cmdno \<Rightarrow>
             if cmdno = CMDNO_PUSH then
               (case signaling_process_push env cmdno a c root log_id of (ret, ms) \<Rightarrow> (ret, c, ms))
             else
               (case (if cmdno = CMDNO_ANSWER then signaling_process_answer env cmdno root log_id
                      else (0, [])) of
                  (ret, ms) \<Rightarrow> (0, add_reply c (build_reply header (result_json js ret)), ms))))"

section \<open>Cutting the stream\<close>

text \<open>
  \<^verbatim>\<open>_process_query_buffer\<close>: the loop runs as long as the buffer holds what is expected; \<open>ms\<close> are the
  messages queued so far.  \<open>None\<close>: the loop does not end.
\<close>

partial_function (option) process_query_buffer ::
    "'j sig_env \<Rightarrow> nat \<Rightarrow> 's tcp_conn \<Rightarrow> rtc_msg list
      \<Rightarrow> (int \<times> 's tcp_conn \<times> rtc_msg list) option" where
  "process_query_buffer env a c ms =
     (if tc_processed c + tc_expected c \<le> length (tc_querybuf c) then
        (if tc_state c = STATE_HEAD then
           (if gh_magic_num (ghead_of (tc_querybuf c)) \<noteq> GHEAD_MAGIC_NUM then Some (-1, c, ms)
            else process_query_buffer env a
              (c\<lparr>tc_state := STATE_BODY,
                 tc_expected := unat (gh_body_len (ghead_of (tc_querybuf c))),
                 tc_processed := GHEAD_SIZE\<rparr>) ms)
         else
           (case process_request env a c (take GHEAD_SIZE (tc_querybuf c))
                   (take (unat (gh_body_len (ghead_of (tc_querybuf c)))) (drop GHEAD_SIZE (tc_querybuf c))) of
              (ret, c', ms') \<Rightarrow>
                if ret \<noteq> 0 then Some (-1, c', ms @ ms')
                else process_query_buffer env a (c'\<lparr>tc_processed := 65535\<rparr>) (ms @ ms')))
      else Some (0, c, ms))"

text \<open>The bytes of one read appended to the buffer, then the loop: \<^verbatim>\<open>_read_query\<close> on a connection.\<close>

definition feed ::
    "'j sig_env \<Rightarrow> nat \<Rightarrow> string \<Rightarrow> 's tcp_conn \<Rightarrow> (int \<times> 's tcp_conn \<times> rtc_msg list) option" where
  "feed env a bytes c = process_query_buffer env a (c\<lparr>tc_querybuf := tc_querybuf c @ bytes\<rparr>) []"

text \<open>Several reads; the first failure closes the connection and ends the sequence.\<close>

fun feeds ::
    "'j sig_env \<Rightarrow> nat \<Rightarrow> string list \<Rightarrow> 's tcp_conn \<Rightarrow> (int \<times> 's tcp_conn \<times> rtc_msg list) option" where
  "feeds env a [] c = Some (0, c, [])"
| "feeds env a (b # bs) c =
     do { (ret, c1, ms1) \<leftarrow> feed env a b c;
          if ret \<noteq> 0 then Some (ret, c1, ms1)
          else do { (ret2, c2, ms2) \<leftarrow> feeds env a bs c1; Some (ret2, c2, ms1 @ ms2) } }"

text \<open>The specification: what one client's byte stream means, however it arrives.\<close>

definition request_of ::
    "'j sig_env \<Rightarrow> nat \<Rightarrow> 's tcp_conn \<Rightarrow> string \<Rightarrow> int \<times> 's tcp_conn \<times> rtc_msg list" where
  "request_of env a c s =
     (let c = c\<lparr>tc_querybuf := s\<rparr>;
          body_len = unat (gh_body_len (ghead_of s));
          c1 = c\<lparr>tc_state := STATE_BODY, tc_expected := body_len, tc_processed := GHEAD_SIZE\<rparr>
      in if length s < GHEAD_SIZE then (0, c, [])
         else if gh_magic_num (ghead_of s) \<noteq> GHEAD_MAGIC_NUM then (-1, c, [])
         else if length s < GHEAD_SIZE + body_len then (0, c1, [])
         else (case process_request env a c1 (take GHEAD_SIZE s) (take body_len (drop GHEAD_SIZE s)) of
                 (ret, c2, ms) \<Rightarrow>
                   if ret \<noteq> 0 then (-1, c2, ms) else (0, c2\<lparr>tc_processed := 65535\<rparr>, ms)))"

section \<open>Framing\<close>

lemma querybuf_last [simp]:
  "c\<lparr>tc_querybuf := q, tc_state := st, tc_expected := e, tc_processed := p\<rparr> =
   c\<lparr>tc_state := st, tc_expected := e, tc_processed := p, tc_querybuf := q\<rparr>"
  by simp

lemma process_request_querybuf:
  "process_request env a (c\<lparr>tc_querybuf := q\<rparr>) h b =
     (case process_request env a c h b of (ret, c', ms) \<Rightarrow> (ret, c'\<lparr>tc_querybuf := q\<rparr>, ms))"
  by (simp add: process_request_def signaling_process_push_def add_reply_def Let_def
      split: option.splits prod.splits bind_splits)

lemma process_request_frame:
  assumes "process_request env a c h b = (ret, c', ms)"
  shows "tc_querybuf c' = tc_querybuf c" "tc_state c' = tc_state c" "tc_expected c' = tc_expected c"
    "tc_processed c' = tc_processed c" "tc_fd c' = tc_fd c" "tc_last c' = tc_last c"
    "tc_timer c' = tc_timer c" "tc_resp_pos c' = tc_resp_pos c"
  using assms
  by (auto simp: process_request_def add_reply_def Let_def split: option.splits prod.splits if_splits)

definition fresh_conn :: "'s tcp_conn \<Rightarrow> bool" where
  "fresh_conn c \<longleftrightarrow> tc_querybuf c = [] \<and> tc_state c = STATE_HEAD \<and> tc_expected c = GHEAD_SIZE \<and>
     tc_processed c = 0"

lemma pqb_wait:
  "length (tc_querybuf c) < tc_processed c + tc_expected c \<Longrightarrow>
     process_query_buffer env a c ms = Some (0, c, ms)"
  by (subst process_query_buffer.simps) simp

lemma pqb_body:
  assumes "tc_state c = STATE_BODY" "tc_processed c = 36"
    "tc_expected c = unat (gh_body_len (ghead_of (tc_querybuf c)))"
    "length (tc_querybuf c) < 65535 + tc_expected c"
  shows "process_query_buffer env a c ms =
    (if length (tc_querybuf c) < 36 + tc_expected c then Some (0, c, ms)
     else case process_request env a c (take 36 (tc_querybuf c))
         (take (tc_expected c) (drop 36 (tc_querybuf c))) of
       (ret, c', ms') \<Rightarrow> if ret \<noteq> 0 then Some (-1, c', ms @ ms')
         else Some (0, c'\<lparr>tc_processed := 65535\<rparr>, ms @ ms'))"
proof -
  obtain ret c' ms' where r: "process_request env a c (take 36 (tc_querybuf c))
      (take (tc_expected c) (drop 36 (tc_querybuf c))) = (ret, c', ms')"
    using prod_cases3 by blast
  note f = process_request_frame [OF r]
  have w: "process_query_buffer env a (c'\<lparr>tc_processed := 65535\<rparr>) (ms @ ms') =
      Some (0, c'\<lparr>tc_processed := 65535\<rparr>, ms @ ms')"
    using f assms(4) by (intro pqb_wait) simp
  show ?thesis
    using assms(1-3) r w by (subst process_query_buffer.simps) (simp add: not_less)
qed

text \<open>One read on a connection that has already seen \<open>s\<close>.\<close>

lemma feed_request_of:
  assumes c: "fresh_conn c" and s: "request_of env a c s = (0, c', ms)"
    and len: "length (s @ t) < 65535"
  shows "\<exists>ret c'' ms'. feed env a t c' = Some (ret, c'', ms') \<and>
    request_of env a c (s @ t) = (ret, c'', ms @ ms')"
proof -
  let ?bl = "unat (gh_body_len (ghead_of s))"
  let ?m = "gh_magic_num (ghead_of s) = GHEAD_MAGIC_NUM"
  let ?bl' = "unat (gh_body_len (ghead_of (s @ t)))"
  let ?c1 = "c\<lparr>tc_state := STATE_BODY, tc_expected := ?bl', tc_processed := 36, tc_querybuf := s @ t\<rparr>"
  have b: "process_query_buffer env a ?c1 [] =
      (if length (s @ t) < 36 + ?bl' then Some (0, ?c1, [])
       else case process_request env a ?c1 (take 36 (s @ t)) (take ?bl' (drop 36 (s @ t))) of
         (ret, c', ms') \<Rightarrow> if ret \<noteq> 0 then Some (-1, c', ms')
           else Some (0, c'\<lparr>tc_processed := 65535\<rparr>, ms'))"
    using len by (subst pqb_body) (auto split: prod.split)
  consider "length s < 36" "length (s @ t) < 36"
    | "length s < 36" "36 \<le> length (s @ t)"
    | "36 \<le> length s" "length s < 36 + ?bl"
    | "36 + ?bl \<le> length s" by linarith
  then show ?thesis
  proof cases
    case 1
    then have "c' = c\<lparr>tc_querybuf := s\<rparr>" "ms = []" using s by (simp_all add: request_of_def)
    with 1 c show ?thesis by (simp add: feed_def request_of_def fresh_conn_def pqb_wait)
  next
    case 2
    then have c': "c' = c\<lparr>tc_querybuf := s\<rparr>" and ms: "ms = []" using s by (simp_all add: request_of_def)
    have "feed env a t c' =
        (if gh_magic_num (ghead_of (s @ t)) \<noteq> GHEAD_MAGIC_NUM then Some (-1, c\<lparr>tc_querybuf := s @ t\<rparr>, [])
         else process_query_buffer env a ?c1 [])"
      using 2 c c' unfolding feed_def by (subst process_query_buffer.simps) (simp add: fresh_conn_def)
    then show ?thesis
      using 2 ms b by (auto simp: request_of_def Let_def split: prod.splits if_splits)
  next
    case 3
    then have m: ?m and c': "c' = c\<lparr>tc_state := STATE_BODY, tc_expected := ?bl, tc_processed := 36, tc_querybuf := s\<rparr>"
      and ms: "ms = []"
      using s by (auto simp: request_of_def Let_def split: if_splits)
    have "feed env a t c' = process_query_buffer env a ?c1 []"
      using 3 c' by (simp add: feed_def)
    then show ?thesis
      using 3 m ms b by (auto simp: request_of_def Let_def split: prod.splits if_splits)
  next
    case 4
    let ?c0 = "c\<lparr>tc_state := STATE_BODY, tc_expected := ?bl, tc_processed := 36, tc_querybuf := s\<rparr>"
    obtain r d ms0 where r: "process_request env a ?c0 (take 36 s) (take ?bl (drop 36 s)) = (r, d, ms0)"
      using prod_cases3 by blast
    with 4 s have m: ?m and "r = 0" and c': "c' = d\<lparr>tc_processed := 65535\<rparr>" and ms: "ms = ms0"
      by (auto simp: request_of_def Let_def split: if_splits)
    have f: "feed env a t c' = Some (0, c'\<lparr>tc_querybuf := s @ t\<rparr>, [])"
      using process_request_frame [OF r] len c' by (simp add: feed_def pqb_wait)
    have "process_request env a (?c0\<lparr>tc_querybuf := s @ t\<rparr>) (take 36 s) (take ?bl (drop 36 s)) =
        (r, d\<lparr>tc_querybuf := s @ t\<rparr>, ms0)"
      using r by (simp only: process_request_querybuf) simp
    then show ?thesis
      using 4 m \<open>r = 0\<close> c' ms f by (simp add: request_of_def Let_def)
  qed
qed

text \<open>A failure is final: more bytes do not change it.\<close>

lemma request_of_failed:
  assumes "request_of env a c s = (ret, c', ms)" "ret \<noteq> 0"
  shows "\<exists>c''. request_of env a c (s @ t) = (ret, c'', ms)"
proof -
  let ?bl = "unat (gh_body_len (ghead_of s))"
  let ?c0 = "c\<lparr>tc_state := STATE_BODY, tc_expected := ?bl, tc_processed := 36, tc_querybuf := s\<rparr>"
  obtain r d ms0 where r: "process_request env a ?c0 (take 36 s) (take ?bl (drop 36 s)) = (r, d, ms0)"
    using prod_cases3 by blast
  have "process_request env a (?c0\<lparr>tc_querybuf := s @ t\<rparr>) (take 36 s) (take ?bl (drop 36 s)) =
      (r, d\<lparr>tc_querybuf := s @ t\<rparr>, ms0)"
    using r by (simp only: process_request_querybuf) simp
  then show ?thesis
    using assms r
    by (cases "length s < 36"; cases "gh_magic_num (ghead_of s) = GHEAD_MAGIC_NUM";
        cases "length s < 36 + ?bl") (simp_all add: request_of_def Let_def split: if_splits)
qed

lemma feeds_request_of:
  assumes "fresh_conn c" "request_of env a c s = (0, c', ms)" "length (s @ concat bs) < 65535"
  shows "\<exists>ret c'' ms'. feeds env a bs c' = Some (ret, c'', ms') \<and>
    (\<exists>d. request_of env a c (s @ concat bs) = (ret, d, ms @ ms') \<and> (ret = 0 \<longrightarrow> d = c''))"
  using assms(2,3)
proof (induction bs arbitrary: s c' ms)
  case (Cons b bs)
  obtain ret c1 ms1 where f: "feed env a b c' = Some (ret, c1, ms1)"
    and r: "request_of env a c (s @ b) = (ret, c1, ms @ ms1)"
    using feed_request_of [OF assms(1) Cons.prems(1), of b] Cons.prems(2) by auto
  show ?case
  proof (cases "ret = 0")
    case True
    with Cons.IH [of "s @ b" c1 "ms @ ms1"] r Cons.prems(2)
    obtain ret2 c2 ms2 d where "feeds env a bs c1 = Some (ret2, c2, ms2)"
      "request_of env a c (s @ b @ concat bs) = (ret2, d, ms @ ms1 @ ms2)" "ret2 = 0 \<longrightarrow> d = c2"
      by auto
    then show ?thesis using f True by auto
  next
    case False
    then show ?thesis using request_of_failed [OF r False, of "concat bs"] f by auto
  qed
qed auto

lemma request_of_Nil: "fresh_conn c \<Longrightarrow> request_of env a c [] = (0, c, [])"
  by (cases c) (simp add: request_of_def fresh_conn_def)

text \<open>
  C13: However the bytes of a client are split over reads, the connection ends up as if they had come
  at once: nothing happens before the header is complete, a wrong magic number closes the
  connection, the request runs exactly once, with exactly the header and the \<open>body_len\<close> bytes after
  it, and whatever follows it is ignored (up to the 65535 bytes the code takes as unreachable).\<close>

theorem request_framing:
  assumes "fresh_conn c" "length (concat bs) < 65535"
  shows "\<exists>ret c' ms d. feeds env a bs c = Some (ret, c', ms) \<and>
    request_of env a c (concat bs) = (ret, d, ms) \<and> (ret = 0 \<longrightarrow> d = c')"
  using feeds_request_of [OF assms(1) request_of_Nil [OF assms(1)], of bs] assms(2) by simp

text \<open>An instance of the JSON library for the witnesses, and a complete request of two body bytes.\<close>

definition ref_json :: "unit json_lib" where
  "ref_json = \<lparr>js_parse = (\<lambda>b. if b = [] then None else Some ()),
     js_int = (\<lambda>j k. Some (if k = ''cmdno'' then CMDNO_ANSWER else 0)),
     js_uint64 = (\<lambda>j k. Some 7), js_string = (\<lambda>j k. Some ''live''),
     js_write = (\<lambda>fs. ''{}'')\<rparr>"

definition ref_env :: "unit sig_env" where
  "ref_env = \<lparr>se_json = ref_json, se_worker = 1, se_pipe = (\<lambda>m. Done 4)\<rparr>"

definition sample_request :: string where
  "sample_request = replicate 24 (CHR 0x00) @ mem32 GHEAD_MAGIC_NUM @ mem32 0 @ mem32 2 @ ''{}''"

definition sample_conn :: "int tcp_conn" where
  "sample_conn = tcp_conn_new 5 (''192.0.2.1'', 4000)
     (start_io_event (create_io_event \<lparr>w_active = False, w_fd = 0, w_events = 0\<rparr>) 5 EV_LOOP_READ)
     (create_timer 0 True) 0"

lemma fresh_new [simp]: "fresh_conn (tcp_conn_new fd peer io tm t)"
  by (simp add: fresh_conn_def tcp_conn_new_def)

lemma fresh_sample [simp]: "fresh_conn sample_conn"
  by (simp add: sample_conn_def)

lemma length_sample_request [simp]: "length sample_request = 38"
  by (simp add: sample_request_def)

lemma ghead_sample_request:
  "gh_magic_num (ghead_of sample_request) = GHEAD_MAGIC_NUM" "gh_body_len (ghead_of sample_request) = 2"
  by (simp_all add: ghead_of_def sample_request_def)

lemma body_sample_request: "take 2 (drop 36 sample_request) = ''{}''"
  by (simp add: sample_request_def)

lemma request_of_sample:
  "request_of ref_env a c sample_request = (ret, c', ms) \<Longrightarrow> ret = 0 \<and> length ms = 1 \<and> tc_processed c' = 65535"
  by (auto simp: request_of_def ghead_sample_request process_request_def signaling_process_answer_def
      ref_env_def ref_json_def notify_def Let_def body_sample_request add_reply_def)

theorem request_framing_witness:
  "\<exists>c' ms. feeds ref_env 9 [take 20 sample_request, drop 20 sample_request] sample_conn = Some (0, c', ms)
     \<and> length ms = 1 \<and> tc_processed c' = 65535"
proof -
  let ?bs = "[take 20 sample_request, drop 20 sample_request]"
  have c: "concat ?bs = sample_request" by simp
  obtain ret c' ms d where "feeds ref_env 9 ?bs sample_conn = Some (ret, c', ms)"
    "request_of ref_env 9 sample_conn sample_request = (ret, d, ms)" "ret = 0 \<longrightarrow> d = c'"
    using request_framing [of sample_conn ?bs ref_env 9] unfolding c by auto
  with request_of_sample show ?thesis by fastforce
qed

section \<open>More bytes than the code expects\<close>

lemma process_request_ret:
  "tc_fd c = tc_fd d \<Longrightarrow> fst (process_request env a c h b) = fst (process_request env a d h b)"
  by (simp add: process_request_def signaling_process_push_def Let_def
      split: option.splits prod.splits bind_splits)

lemma pqb_diverges:
  assumes "process_query_buffer env a c ms = Some r"
  shows "tc_state c = STATE_BODY \<Longrightarrow> tc_processed c \<le> 65535 \<Longrightarrow>
    65535 + tc_expected c \<le> length (tc_querybuf c) \<Longrightarrow>
    fst (process_request env a c (take 36 (tc_querybuf c))
      (take (unat (gh_body_len (ghead_of (tc_querybuf c)))) (drop 36 (tc_querybuf c)))) = 0 \<Longrightarrow> False"
proof (rule process_query_buffer.raw_induct [where P = "\<lambda>env a c ms r. tc_state c = STATE_BODY \<longrightarrow>
    tc_processed c \<le> 65535 \<longrightarrow> 65535 + tc_expected c \<le> length (tc_querybuf c) \<longrightarrow>
    fst (process_request env a c (take 36 (tc_querybuf c))
      (take (unat (gh_body_len (ghead_of (tc_querybuf c)))) (drop 36 (tc_querybuf c)))) = 0 \<longrightarrow> False",
    OF _ assms, rule_format])
  fix f env a c ms r
  let ?pr = "\<lambda>c. process_request env a c (take 36 (tc_querybuf c))
      (take (unat (gh_body_len (ghead_of (tc_querybuf c)))) (drop 36 (tc_querybuf c)))"
  assume IH: "\<And>env a c ms r. f env a c ms = Some r \<Longrightarrow> tc_state c = STATE_BODY \<Longrightarrow>
      tc_processed c \<le> 65535 \<Longrightarrow> 65535 + tc_expected c \<le> length (tc_querybuf c) \<Longrightarrow>
      fst (process_request env a c (take 36 (tc_querybuf c))
        (take (unat (gh_body_len (ghead_of (tc_querybuf c)))) (drop 36 (tc_querybuf c)))) = 0 \<Longrightarrow> False"
    and st: "tc_state c = STATE_BODY" "tc_processed c \<le> 65535"
      "65535 + tc_expected c \<le> length (tc_querybuf c)" "fst (?pr c) = 0"
    and eq: "(if tc_processed c + tc_expected c \<le> length (tc_querybuf c) then
        (if tc_state c = STATE_HEAD then
           (if gh_magic_num (ghead_of (tc_querybuf c)) \<noteq> GHEAD_MAGIC_NUM then Some (-1, c, ms)
            else f env a (c\<lparr>tc_state := STATE_BODY,
                 tc_expected := unat (gh_body_len (ghead_of (tc_querybuf c))),
                 tc_processed := GHEAD_SIZE\<rparr>) ms)
         else (case ?pr c of (ret, c', ms') \<Rightarrow>
                if ret \<noteq> 0 then Some (-1, c', ms @ ms')
                else f env a (c'\<lparr>tc_processed := 65535\<rparr>) (ms @ ms')))
      else Some (0, c, ms)) = Some r"
  obtain c' ms' where r: "?pr c = (0, c', ms')" using st(4) by (metis prod.collapse)
  note fr = process_request_frame [OF r]
  have "f env a (c'\<lparr>tc_processed := 65535\<rparr>) (ms @ ms') = Some r" using eq st r by simp
  moreover have "fst (?pr (c'\<lparr>tc_processed := 65535\<rparr>)) = fst (?pr c)"
    using fr by (simp add: process_request_ret [of "c'\<lparr>tc_processed := 65535\<rparr>" c])
  ultimately show False using IH [of env a "c'\<lparr>tc_processed := 65535\<rparr>"] fr st by simp
qed

text \<open>
  C24: After a connection's request was executed, a further read returns to the event loop exactly as
  long as the buffer stays below \<open>65535 + body_len\<close> bytes.  From there on the loop executes the same
  request again and again and never returns: a client that keeps sending hangs the worker.\<close>

theorem request_overrun_hangs:
  assumes "fresh_conn c" "request_of env a c s = (0, c', ms)" "tc_processed c' = 65535"
  shows "feed env a t c' = None \<longleftrightarrow> 65535 + unat (gh_body_len (ghead_of s)) \<le> length (s @ t)"
proof -
  let ?bl = "unat (gh_body_len (ghead_of s))"
  let ?old = "c\<lparr>tc_state := STATE_BODY, tc_expected := ?bl, tc_processed := 36, tc_querybuf := s\<rparr>"
  obtain r d ms0 where r: "process_request env a ?old (take 36 s) (take ?bl (drop 36 s)) = (r, d, ms0)"
    using prod_cases3 by blast
  have l: "36 + ?bl \<le> length s" and r0: "r = 0" and c': "c' = d\<lparr>tc_processed := 65535\<rparr>"
    using assms r
    by (cases "length s < 36"; cases "gh_magic_num (ghead_of s) = GHEAD_MAGIC_NUM";
        cases "length s < 36 + ?bl"; auto simp: request_of_def Let_def fresh_conn_def split: if_splits)+
  note fr = process_request_frame [OF r]
  have g: "ghead_of (s @ t) = ghead_of s" using l by simp
  let ?new = "c'\<lparr>tc_querybuf := s @ t\<rparr>"
  have "fst (process_request env a ?new (take 36 s) (take ?bl (drop 36 s))) =
      fst (process_request env a ?old (take 36 s) (take ?bl (drop 36 s)))"
    by (rule process_request_ret) (use fr c' in simp)
  also have "\<dots> = 0" unfolding r r0 by simp
  finally have pr: "fst (process_request env a ?new (take 36 s) (take ?bl (drop 36 s))) = 0" .
  show ?thesis
  proof (cases "65535 + ?bl \<le> length (s @ t)")
    case True
    have "process_query_buffer env a ?new [] = None"
    proof (rule ccontr)
      assume "process_query_buffer env a ?new [] \<noteq> None"
      then obtain v where "process_query_buffer env a ?new [] = Some v" by auto
      then show False by (rule pqb_diverges) (use True fr c' g l pr in simp_all)
    qed
    with True fr c' show ?thesis by (simp add: feed_def)
  next
    case False
    then have "feed env a t c' = Some (0, ?new, [])"
      using fr c' by (simp add: feed_def pqb_wait)
    with False show ?thesis by simp
  qed
qed

theorem request_overrun_hangs_witness:
  "\<exists>c' :: int tcp_conn. feed ref_env 9 (replicate 65535 (CHR ''x'')) c' = None"
proof -
  obtain ret c' ms where r: "request_of ref_env 9 sample_conn sample_request = (ret, c', ms)"
    using prod_cases3 by blast
  have "length (sample_request @ replicate 65535 (CHR ''x'')) = 65573"
    by (simp only: length_append length_sample_request length_replicate)
  then have "feed ref_env 9 (replicate 65535 (CHR ''x'')) c' = None"
    using request_overrun_hangs [of sample_conn ref_env 9 sample_request c' ms] r
      request_of_sample [OF r] ghead_sample_request(2) by simp
  then show ?thesis by blast
qed

end
