(* ===== verification/Signaling_Worker.thy ===== *)
theory Signaling_Worker
  imports Signaling_Request
begin

text \<open>
  \<^verbatim>\<open>src/server/signaling_worker.cpp\<close>: one worker thread of the signaling service.  Its state is a
  record: the connections live in a heap (address to object), \<open>sw_conns\<close> is the vector of pointers
  indexed by descriptor.  An operation is partial: \<open>None\<close> is a memory fault or a loop that never
  ends.  What an operation hands to other parts (messages for the RTC server, bytes on the wire) is
  part of its result.  Where the code does not check an allocation it is taken to succeed.
\<close>

section \<open>State\<close>

record 's sig_worker =
  sw_heap :: "nat \<rightharpoonup> 's tcp_conn"
  sw_conns :: "nat option list"
  sw_q_conn :: "int lfq"
  sw_q_msg :: "rtc_msg list"
  sw_pipe :: "int list"
  sw_pipe_watcher :: "io_watcher option"
  sw_recv_fd :: int
  sw_send_fd :: int
  sw_thread :: bool
  sw_looping :: bool
  sw_timeout :: int
  sw_now :: u64
  sw_closed :: "int list"

text \<open>
  The surroundings of a callback: those of the request code, the address the next \<^verbatim>\<open>new\<close> returns, the
  peer as \<^verbatim>\<open>sock_peer_2_str\<close> reports it, the contents of an uninitialised watcher, the conversion of
  timer intervals, whether \<^verbatim>\<open>sdsMakeRoomFor\<close> can extend a buffer by an amount, and whether
  \<^verbatim>\<open>zmalloc\<close> returns a block.
\<close>

record ('j, 's) sw_env =
  en_req :: "'j sig_env"
  en_new :: nat
  en_peer :: "int \<Rightarrow> string \<times> int"
  en_uninit :: io_watcher
  en_to_sec :: "nat \<Rightarrow> 's"
  en_room :: "int \<Rightarrow> bool"
  en_zmalloc :: bool

abbreviation SW_QUIT :: int where "SW_QUIT \<equiv> 0"
abbreviation SW_NEW_CONN :: int where "SW_NEW_CONN \<equiv> 1"
abbreviation SW_RTC_MSG :: int where "SW_RTC_MSG \<equiv> 2"

definition sig_worker_new :: "int \<Rightarrow> nat \<Rightarrow> 's sig_worker" where
  "sig_worker_new timeout dummy =
     \<lparr>sw_heap = Map.empty, sw_conns = [], sw_q_conn = lfq_new dummy 0, sw_q_msg = [], sw_pipe = [],
      sw_pipe_watcher = None, sw_recv_fd = -1, sw_send_fd = -1, sw_thread = False,
      sw_looping = False, sw_timeout = timeout, sw_now = 0, sw_closed = []\<rparr>"

text \<open>\<^verbatim>\<open>init\<close>: \<open>fds\<close> is the result of \<^verbatim>\<open>pipe\<close>.\<close>

definition sw_init :: "io_watcher \<Rightarrow> (int \<times> int) option \<Rightarrow> 's sig_worker \<Rightarrow> int \<times> 's sig_worker" where
  "sw_init u fds w =
     (case fds of
        None \<Rightarrow> (-1, w)
      | Some (r, s) \<Rightarrow>
          (0, w\<lparr>sw_recv_fd := r, sw_send_fd := s,
                sw_pipe_watcher := Some (start_io_event (create_io_event u) r EV_LOOP_READ)\<rparr>))"

definition sw_start :: "'s sig_worker \<Rightarrow> bool \<times> 's sig_worker" where
  "sw_start w = (if sw_thread w then (False, w) else (True, w\<lparr>sw_thread := True, sw_looping := True\<rparr>))"

section \<open>Connections\<close>

text \<open>\<^verbatim>\<open>_remove_conn\<close>: both watchers go with the object.\<close>

definition remove_conn :: "nat \<Rightarrow> 's sig_worker \<Rightarrow> 's sig_worker option" where
  "remove_conn a w =
     do { c \<leftarrow> sw_heap w a;
          if tc_fd c < 0 \<or> length (sw_conns w) \<le> nat (tc_fd c) then None
          else Some (w\<lparr>sw_conns := (sw_conns w)[nat (tc_fd c) := None],
                       sw_heap := (sw_heap w)(a := None)\<rparr>) }"

definition close_conn :: "nat \<Rightarrow> 's sig_worker \<Rightarrow> 's sig_worker option" where
  "close_conn a w =
     do { c \<leftarrow> sw_heap w a; remove_conn a (w\<lparr>sw_closed := sw_closed w @ [tc_fd c]\<rparr>) }"

definition new_conn :: "('j, 's::zero) sw_env \<Rightarrow> int \<Rightarrow> 's sig_worker \<Rightarrow> 's sig_worker option" where
  "new_conn env fd w =
     (if fd < 0 then Some w
      else
        let c = tcp_conn_new fd (en_peer env fd)
                  (start_io_event (create_io_event (en_uninit env)) fd EV_LOOP_READ)
                  (start_timer (en_to_sec env) (create_timer 0 True) 100000) (sw_now w);
            conns = (if length (sw_conns w) \<le> nat fd then resize (nat (fd * 2)) None (sw_conns w)
                     else sw_conns w)
        in if nat fd < length conns
           then Some (w\<lparr>sw_heap := (sw_heap w)(en_new env \<mapsto> c), sw_conns := conns[nat fd := Some (en_new env)]\<rparr>)
           else None)"

text \<open>\<open>now - last_interaction\<close> and the configured \<^verbatim>\<open>int\<close> timeout are \<^verbatim>\<open>unsigned long\<close>.\<close>

definition process_timeout :: "nat \<Rightarrow> 's sig_worker \<Rightarrow> 's sig_worker option" where
  "process_timeout a w =
     do { c \<leftarrow> sw_heap w a;
          if (word_of_int (sw_timeout w) :: u64) \<le> sw_now w - tc_last c then close_conn a w else Some w }"

section \<open>Reading requests\<close>

text \<open>\<open>rd len\<close>: the result of \<^verbatim>\<open>read\<close> for \<open>len\<close> bytes and the bytes stored.\<close>

definition read_query ::
    "('j, 's) sw_env \<Rightarrow> (int \<Rightarrow> sys_result \<times> string) \<Rightarrow> int \<Rightarrow> 's sig_worker
      \<Rightarrow> ('s sig_worker \<times> rtc_msg list) option" where
  "read_query env rd fd w =
     (if fd < 0 \<or> length (sw_conns w) \<le> nat fd then Some (w, [])
      else
        do { a \<leftarrow> sw_conns w ! nat fd;
             c \<leftarrow> sw_heap w a;
             let read_len = to_int32 (int (tc_expected c));
             if \<not> en_room env read_len then None
             else
               let (r, bytes) = rd read_len;
                   nread = sock_read_data r;
                   c = c\<lparr>tc_last := sw_now w\<rparr>
               in if nread = -1 then
                    do { w' \<leftarrow> close_conn a (w\<lparr>sw_heap := (sw_heap w)(a \<mapsto> c)\<rparr>); Some (w', []) }
                  else
                    do { (ret, c', ms) \<leftarrow> feed (en_req env) a (take (nat nread) bytes) c;
                         let w = w\<lparr>sw_heap := (sw_heap w)(a \<mapsto> c')\<rparr>;
                         if ret \<noteq> 0 then do { w' \<leftarrow> close_conn a w; Some (w', ms) }
                         else Some (w, ms) } })"

section \<open>Writing replies\<close>

text \<open>
  The loop of \<^verbatim>\<open>_write_reply\<close>: \<open>res k\<close> is the result of the \<open>k\<close>-th \<^verbatim>\<open>write\<close>; the result says
  whether the connection survives, and what went onto the wire.
\<close>

partial_function (option) write_loop ::
    "(nat \<Rightarrow> sys_result) \<Rightarrow> nat \<Rightarrow> 's tcp_conn \<Rightarrow> string \<Rightarrow> (bool \<times> 's tcp_conn \<times> string) option" where
  "write_loop res k c wire =
     (case tc_replies c of
        [] \<Rightarrow> Some (True, c, wire)
      | r # rs \<Rightarrow>
          do { bs \<leftarrow> reply_bytes r (tc_resp_pos c);
               let n = sock_write_data (res k);
               if n = -1 then Some (False, c, wire)
               else if n = 0 then write_loop res (Suc k) c wire
               else if rp_size r \<le> nat n + tc_resp_pos c
               then write_loop res (Suc k) (c\<lparr>tc_replies := rs, tc_resp_pos := 0\<rparr>) (wire @ bs)
               else write_loop res (Suc k) (c\<lparr>tc_resp_pos := tc_resp_pos c + nat n\<rparr>)
                      (wire @ take (nat n) bs) })"

definition write_reply ::
    "(nat \<Rightarrow> sys_result) \<Rightarrow> int \<Rightarrow> 's sig_worker \<Rightarrow> ('s sig_worker \<times> string) option" where
  "write_reply res fd w =
     (if fd \<le> 0 \<or> length (sw_conns w) \<le> nat fd then Some (w, [])
      else
        case sw_conns w ! nat fd of
          None \<Rightarrow> Some (w, [])
        | Some a \<Rightarrow>
            do { c \<leftarrow> sw_heap w a;
                 (alive, c, wire) \<leftarrow> write_loop res 0 c [];
                 if \<not> alive then
                   do { w' \<leftarrow> close_conn a (w\<lparr>sw_heap := (sw_heap w)(a \<mapsto> c)\<rparr>); Some (w', wire) }
                 else
                   let c = c\<lparr>tc_last := sw_now w\<rparr>;
                       c = (if tc_replies c = []
                            then c\<lparr>tc_io := stop_io_event (tc_io c) (tc_fd c) EV_LOOP_WRITE\<rparr> else c)
                   in Some (w\<lparr>sw_heap := (sw_heap w)(a \<mapsto> c)\<rparr>, wire) })"

text \<open>The callback of a connection's watcher: readable wins.\<close>

definition conn_io_cb ::
    "('j, 's) sw_env \<Rightarrow> (int \<Rightarrow> sys_result \<times> string) \<Rightarrow> (nat \<Rightarrow> sys_result) \<Rightarrow> int \<Rightarrow> int
      \<Rightarrow> 's sig_worker \<Rightarrow> ('s sig_worker \<times> rtc_msg list \<times> string) option" where
  "conn_io_cb env rd res fd events w =
     (if events AND EV_LOOP_READ \<noteq> 0 then
        do { (w, ms) \<leftarrow> read_query env rd fd w; Some (w, ms, []) }
      else if events AND EV_LOOP_WRITE \<noteq> 0 then
        do { (w, wire) \<leftarrow> write_reply res fd w; Some (w, [], wire) }
      else Some (w, [], []))"

section \<open>Messages from other threads\<close>

definition offer_json :: "'j json_lib \<Rightarrow> rtc_msg \<Rightarrow> string" where
  "offer_json js msg =
     js_write js [(''error_no'', JInt (rm_err_no msg)),
                  (''err_msg'', JStr (if rm_err_no msg \<noteq> 0 then ''process error'' else ''success'')),
                  (''offer'', JStr (if rm_err_no msg \<noteq> 0 then [] else rm_sdp msg))]"

definition response_server_offer :: "('j, 's) sw_env \<Rightarrow> rtc_msg \<Rightarrow> 's sig_worker \<Rightarrow> 's sig_worker option" where
  "response_server_offer env msg w =
     (case rm_conn msg of
        None \<Rightarrow> Some w
      | Some a \<Rightarrow>
          let fd = rm_fd msg in
          if fd \<le> 0 \<or> length (sw_conns w) \<le> nat fd then Some w
          else if sw_conns w ! nat fd \<noteq> Some a then Some w
          else if \<not> en_zmalloc env then Some w
          else
            do { c \<leftarrow> sw_heap w a;
                 if length (tc_querybuf c) < GHEAD_SIZE then None
                 else
                   let reply = build_reply (take GHEAD_SIZE (tc_querybuf c))
                                 (offer_json (se_json (en_req env)) msg)
                   in Some (w\<lparr>sw_heap := (sw_heap w)(a \<mapsto> add_reply c reply)\<rparr>) })"

text \<open>\<^verbatim>\<open>push_msg\<close> and \<^verbatim>\<open>pop_msg\<close> hold the mutex for their whole body; so they are single steps.\<close>

definition sw_push_msg :: "rtc_msg \<Rightarrow> 's sig_worker \<Rightarrow> 's sig_worker" where
  "sw_push_msg msg w = w\<lparr>sw_q_msg := sw_q_msg w @ [msg]\<rparr>"

definition sw_pop_msg :: "'s sig_worker \<Rightarrow> rtc_msg option \<times> 's sig_worker" where
  "sw_pop_msg w = (case sw_q_msg w of [] \<Rightarrow> (None, w) | m # ms \<Rightarrow> (Some m, w\<lparr>sw_q_msg := ms\<rparr>))"

definition sw_process_rtc_msg :: "('j, 's) sw_env \<Rightarrow> 's sig_worker \<Rightarrow> 's sig_worker option" where
  "sw_process_rtc_msg env w =
     (case sw_pop_msg w of
        (None, w) \<Rightarrow> Some w
      | (Some msg, w) \<Rightarrow> if rm_cmdno msg = CMDNO_PUSH then response_server_offer env msg w else Some w)"

definition sw_stop_loop :: "'s sig_worker \<Rightarrow> 's sig_worker" where
  "sw_stop_loop w =
     (if \<not> sw_thread w then w
      else w\<lparr>sw_pipe_watcher := None, sw_looping := False,
             sw_closed := sw_closed w @ [sw_recv_fd w, sw_send_fd w]\<rparr>)"

text \<open>The \<^verbatim>\<open>NEW_CONN\<close> case up to the descriptor.\<close>

definition sw_take_conn :: "'s sig_worker \<Rightarrow> (int option \<times> 's sig_worker) option" where
  "sw_take_conn w = do { (fd, q) \<leftarrow> consume (sw_q_conn w); Some (fd, w\<lparr>sw_q_conn := q\<rparr>) }"

definition sw_process_notify :: "('j, 's::zero) sw_env \<Rightarrow> int \<Rightarrow> 's sig_worker \<Rightarrow> 's sig_worker option" where
  "sw_process_notify env msg w =
     (if msg = SW_QUIT then Some (sw_stop_loop w)
      else if msg = SW_NEW_CONN then
        do { (fd, w) \<leftarrow> sw_take_conn w;
             (case fd of None \<Rightarrow> Some w | Some fd \<Rightarrow> new_conn env fd w) }
      else if msg = SW_RTC_MSG then sw_process_rtc_msg env w
      else Some w)"

text \<open>The callback of the pipe: nothing when less than an \<^verbatim>\<open>int\<close> can be read.\<close>

definition signaling_worker_recv_notify :: "('j, 's::zero) sw_env \<Rightarrow> 's sig_worker \<Rightarrow> 's sig_worker option" where
  "signaling_worker_recv_notify env w =
     (case sw_pipe w of
        [] \<Rightarrow> Some w
      | msg # rest \<Rightarrow> sw_process_notify env msg (w\<lparr>sw_pipe := rest\<rparr>))"

text \<open>Called by the other threads: \<open>r\<close> is the result of the \<^verbatim>\<open>write\<close> to the pipe.\<close>

definition sw_notify :: "sys_result \<Rightarrow> int \<Rightarrow> 's sig_worker \<Rightarrow> int \<times> 's sig_worker" where
  "sw_notify r msg w = (notify r, w\<lparr>sw_pipe := pipe_write r msg (sw_pipe w)\<rparr>)"

definition sw_stop :: "sys_result \<Rightarrow> 's sig_worker \<Rightarrow> 's sig_worker" where
  "sw_stop r w = snd (sw_notify r SW_QUIT w)"

definition notify_new_conn :: "nat \<Rightarrow> int \<Rightarrow> sys_result \<Rightarrow> 's sig_worker \<Rightarrow> (int \<times> 's sig_worker) option" where
  "notify_new_conn node fd r w =
     do { q \<leftarrow> produce node fd (sw_q_conn w); Some (sw_notify r SW_NEW_CONN (w\<lparr>sw_q_conn := q\<rparr>)) }"

definition sw_send_rtc_msg :: "rtc_msg \<Rightarrow> sys_result \<Rightarrow> 's sig_worker \<Rightarrow> int \<times> 's sig_worker" where
  "sw_send_rtc_msg msg r w = sw_notify r SW_RTC_MSG (sw_push_msg msg w)"

text \<open>The destructor closes every connection of the vector.\<close>

fun close_all :: "nat option list \<Rightarrow> 's sig_worker \<Rightarrow> 's sig_worker option" where
  "close_all [] w = Some (w\<lparr>sw_conns := []\<rparr>)"
| "close_all (None # as) w = close_all as w"
| "close_all (Some a # as) w = do { w \<leftarrow> close_conn a w; close_all as w }"

definition sig_worker_free :: "'s sig_worker \<Rightarrow> 's sig_worker option" where
  "sig_worker_free w = close_all (sw_conns w) w"

end
