(* ===== verification/Signaling_Worker_Properties.thy ===== *)
theory Signaling_Worker_Properties
  imports Signaling_Worker
begin

text \<open>
  What the signaling worker guarantees: replies leave in order and complete, the table of
  connections and their watchers stay consistent under every callback, connections are handed over
  without loss.
\<close>

section \<open>Writing replies\<close>

definition reply_ok :: "reply \<Rightarrow> bool" where
  "reply_ok r \<longleftrightarrow> 0 < rp_size r \<and> reply_bytes r 0 \<noteq> None"

definition reply_text :: "reply \<Rightarrow> string" where
  "reply_text r = the (reply_bytes r 0)"

definition replies_ok :: "'s tcp_conn \<Rightarrow> bool" where
  "replies_ok c \<longleftrightarrow> list_all reply_ok (tc_replies c) \<and>
     (case tc_replies c of [] \<Rightarrow> tc_resp_pos c = 0 | r # rs \<Rightarrow> tc_resp_pos c < rp_size r)"

text \<open>The bytes the client is still owed.\<close>

definition owed :: "'s tcp_conn \<Rightarrow> string" where
  "owed c = drop (tc_resp_pos c) (concat (map reply_text (tc_replies c)))"

lemma reply_bytes_pos:
  assumes "reply_ok r" "pos \<le> rp_size r"
  shows "reply_bytes r pos = Some (drop pos (reply_text r))" "length (reply_text r) = rp_size r"
proof -
  have l: "rp_size r \<le> length (rp_mem r)" "None \<notin> set (take (rp_size r) (rp_mem r))"
    using assms(1) by (auto simp: reply_ok_def reply_bytes_def Let_def split: if_splits)
  then have t: "reply_text r = map the (take (rp_size r) (rp_mem r))"
    by (simp add: reply_text_def reply_bytes_def Let_def)
  then show "length (reply_text r) = rp_size r" using l by simp
  have "None \<notin> set (drop pos (take (rp_size r) (rp_mem r)))"
    using l(2) by (meson in_set_dropD)
  then show "reply_bytes r pos = Some (drop pos (reply_text r))"
    using l(1) t by (simp add: reply_bytes_def Let_def drop_map)
qed

text \<open>Calls that write nothing do not change anything.\<close>

lemma write_loop_skip:
  assumes "replies_ok c" "tc_replies c \<noteq> []"
  shows "(\<forall>i<d. sock_write_data (res (k + i)) = 0) \<Longrightarrow>
    write_loop res k c wire = write_loop res (k + d) c wire"
proof (induction d)
  case (Suc d)
  obtain r rs where r: "tc_replies c = r # rs" using assms(2) by (cases "tc_replies c") auto
  then have b: "reply_bytes r (tc_resp_pos c) = Some (drop (tc_resp_pos c) (reply_text r))"
    using assms(1) reply_bytes_pos [of r "tc_resp_pos c"] by (simp add: replies_ok_def)
  have "write_loop res (k + d) c wire = write_loop res (k + Suc d) c wire"
    using r b Suc.prems by (subst write_loop.simps) simp
  then show ?case using Suc by simp
qed simp

lemma write_loop_ok:
  assumes "replies_ok c" "\<And>k. \<exists>j\<ge>k. sock_write_data (res j) \<noteq> 0"
    "\<And>j. -1 \<le> sock_write_data (res j)"
  shows "\<exists>alive c' out. write_loop res k c wire = Some (alive, c', wire @ out) \<and>
    out @ owed c' = owed c \<and> replies_ok c' \<and> (alive \<longrightarrow> tc_replies c' = []) \<and>
    c' = c\<lparr>tc_replies := tc_replies c', tc_resp_pos := tc_resp_pos c'\<rparr>"
  using assms(1)
proof (induction "length (owed c)" arbitrary: c k wire rule: less_induct)
  case less
  show ?case
  proof (cases "tc_replies c")
    case Nil
    then have "write_loop res k c wire = Some (True, c, wire)" by (subst write_loop.simps) simp
    then show ?thesis using less.prems Nil by (intro exI [of _ True] exI [of _ c] exI [of _ "[]"]) simp
  next
    case (Cons r rs)
    obtain j where j: "k \<le> j" "sock_write_data (res j) \<noteq> 0"
      "\<And>i. k \<le> i \<Longrightarrow> i < j \<Longrightarrow> sock_write_data (res i) = 0"
    proof -
      have "\<exists>d. sock_write_data (res (k + d)) \<noteq> 0"
        using assms(2) [of k] by (metis le_iff_add)
      define d where "d = (LEAST d. sock_write_data (res (k + d)) \<noteq> 0)"
      have "sock_write_data (res (k + d)) \<noteq> 0"
        unfolding d_def by (rule LeastI_ex) fact
      moreover have "sock_write_data (res (k + i)) = 0" if "i < d" for i
        using that not_less_Least unfolding d_def by blast
      ultimately show ?thesis
        by (intro that [of "k + d"]) (auto simp: less_diff_conv le_iff_add)
    qed
    let ?p = "tc_resp_pos c" and ?n = "sock_write_data (res j)"
    have rk: "reply_ok r" "?p < rp_size r" "list_all reply_ok rs"
      using less.prems Cons by (simp_all add: replies_ok_def)
    note b = reply_bytes_pos [OF rk(1) less_imp_le [OF rk(2)]]
    have skip: "write_loop res k c wire = write_loop res j c wire"
      using write_loop_skip [OF less.prems, of "j - k" res k wire] Cons j by simp
    have ow: "owed c = drop ?p (reply_text r) @ concat (map reply_text rs)"
      using Cons b(2) rk(2) by (simp add: owed_def)
    have step: "write_loop res j c wire =
       (if ?n = -1 then Some (False, c, wire)
        else if rp_size r \<le> nat ?n + ?p
        then write_loop res (Suc j) (c\<lparr>tc_replies := rs, tc_resp_pos := 0\<rparr>) (wire @ drop ?p (reply_text r))
        else write_loop res (Suc j) (c\<lparr>tc_resp_pos := ?p + nat ?n\<rparr>) (wire @ take (nat ?n) (drop ?p (reply_text r))))"
      using Cons b j(2) by (subst write_loop.simps) (simp add: Let_def)
    consider "?n = -1" | "?n \<noteq> -1" "rp_size r \<le> nat ?n + ?p" | "?n \<noteq> -1" "nat ?n + ?p < rp_size r"
      by linarith
    then show ?thesis
    proof cases
      case 1
      then have "write_loop res k c wire = Some (False, c, wire @ [])" using skip step by simp
      then show ?thesis using less.prems
        by (intro exI [of _ False] exI [of _ c] exI [of _ "[]"]) simp
    next
      case 2
      let ?d = "c\<lparr>tc_replies := rs, tc_resp_pos := 0\<rparr>"
      have "replies_ok ?d" using rk by (auto simp: replies_ok_def reply_ok_def split: list.splits)
      moreover have od: "owed c = drop ?p (reply_text r) @ owed ?d" using ow by (simp add: owed_def)
      moreover have "length (owed ?d) < length (owed c)" using od b(2) rk(2) by simp
      ultimately obtain alive c' out where
        "write_loop res (Suc j) ?d (wire @ drop ?p (reply_text r)) =
           Some (alive, c', (wire @ drop ?p (reply_text r)) @ out)"
        "out @ owed c' = owed ?d" "replies_ok c'" "alive \<longrightarrow> tc_replies c' = []"
        "c' = ?d\<lparr>tc_replies := tc_replies c', tc_resp_pos := tc_resp_pos c'\<rparr>"
        using less.hyps [of ?d "Suc j" "wire @ drop ?p (reply_text r)"] by metis
      then show ?thesis using skip step 2 od
        by (intro exI [of _ alive] exI [of _ c'] exI [of _ "drop ?p (reply_text r) @ out"]) simp
    next
      case 3
      let ?d = "c\<lparr>tc_resp_pos := ?p + nat ?n\<rparr>" and ?o = "take (nat ?n) (drop ?p (reply_text r))"
      have pos: "0 < nat ?n"
        using j(2) 3(1) assms(3) [of j] by auto
      have "replies_ok ?d" using rk Cons 3 by (simp add: replies_ok_def)
      moreover have od: "owed c = ?o @ owed ?d"
      proof -
        have "owed ?d = drop (?p + nat ?n) (reply_text r) @ concat (map reply_text rs)"
          using Cons b(2) 3 by (simp add: owed_def)
        then show ?thesis using ow by (simp add: append_assoc [symmetric] add.commute [of ?p] drop_drop [symmetric] del: drop_drop append_assoc)
      qed
      moreover have "length (owed ?d) < length (owed c)" using od b(2) 3 pos rk(2) by simp
      ultimately obtain alive c' out where
        "write_loop res (Suc j) ?d (wire @ ?o) = Some (alive, c', (wire @ ?o) @ out)"
        "out @ owed c' = owed ?d" "replies_ok c'" "alive \<longrightarrow> tc_replies c' = []"
        "c' = ?d\<lparr>tc_replies := tc_replies c', tc_resp_pos := tc_resp_pos c'\<rparr>"
        using less.hyps [of ?d "Suc j" "wire @ ?o"] by metis
      then show ?thesis using skip step 3 od
        by (intro exI [of _ alive] exI [of _ c'] exI [of _ "?o @ out"]) simp
    qed
  qed
qed

text \<open>If every \<^verbatim>\<open>write\<close> reports a full socket the loop never leaves: the thread spins.\<close>

lemma write_loop_spins:
  assumes "write_loop res k c wire = Some v"
  shows "(\<forall>j. sock_write_data (res j) = 0) \<and> tc_replies c \<noteq> [] \<longrightarrow> False"
proof (rule write_loop.raw_induct [where P = "\<lambda>res k c wire v.
    All (\<lambda>j. sock_write_data (res j) = 0) \<and> tc_replies c \<noteq> [] \<longrightarrow> False", OF _ assms])
  fix f res k c wire v
  assume IH: "\<And>res k c wire v. f res k c wire = Some v \<Longrightarrow>
      (\<forall>j. sock_write_data (res j) = 0) \<and> tc_replies c \<noteq> [] \<longrightarrow> False"
    and eq: "(case tc_replies c of
        [] \<Rightarrow> Some (True, c, wire)
      | r # rs \<Rightarrow>
          do { bs \<leftarrow> reply_bytes r (tc_resp_pos c);
               let n = sock_write_data (res k);
               if n = -1 then Some (False, c, wire)
               else if n = 0 then f res (Suc k) c wire
               else if rp_size r \<le> nat n + tc_resp_pos c
               then f res (Suc k) (c\<lparr>tc_replies := rs, tc_resp_pos := 0\<rparr>) (wire @ bs)
               else f res (Suc k) (c\<lparr>tc_resp_pos := tc_resp_pos c + nat n\<rparr>)
                      (wire @ take (nat n) bs) }) = Some v"
  show "(\<forall>j. sock_write_data (res j) = 0) \<and> tc_replies c \<noteq> [] \<longrightarrow> False"
  proof (intro impI, elim conjE)
    assume z: "\<forall>j. sock_write_data (res j) = 0" and ne: "tc_replies c \<noteq> []"
    from eq z ne have "f res (Suc k) c wire = Some v"
      by (auto split: list.splits Option.bind_splits)
    then show False using IH z ne by blast
  qed
qed

text \<open>
  C20: As long as the socket takes bytes or fails again and again, \<^verbatim>\<open>_write_reply\<close> returns; what it put
  on the wire followed by what it still owes is what it owed before, in the order the replies were
  queued; and if the connection survives nothing is left.  If instead the client stops reading, so
  that every write reports a full socket, the loop never returns to the event loop.\<close>

theorem reply_delivery:
  assumes "replies_ok c" "\<And>j. -1 \<le> sock_write_data (res j)"
  shows "((\<forall>k. \<exists>j\<ge>k. sock_write_data (res j) \<noteq> 0) \<longrightarrow>
      (\<exists>alive c' wire. write_loop res 0 c [] = Some (alive, c', wire) \<and> wire @ owed c' = owed c \<and>
        (alive \<longrightarrow> wire = owed c \<and> tc_replies c' = []))) \<and>
    (tc_replies c \<noteq> [] \<and> (\<forall>j. sock_write_data (res j) = 0) \<longrightarrow> write_loop res 0 c [] = None)"
proof (intro conjI impI)
  assume "\<forall>k. \<exists>j\<ge>k. sock_write_data (res j) \<noteq> 0"
  then obtain alive c' out where "write_loop res 0 c [] = Some (alive, c', [] @ out)"
    "out @ owed c' = owed c" "alive \<longrightarrow> tc_replies c' = []"
    using write_loop_ok [where res = res and k = 0 and wire = "[]", OF assms(1) _ assms(2)] by blast
  moreover have "owed c' = []" if "tc_replies c' = []" using that by (simp add: owed_def)
  ultimately show "\<exists>alive c' wire. write_loop res 0 c [] = Some (alive, c', wire) \<and>
      wire @ owed c' = owed c \<and> (alive \<longrightarrow> wire = owed c \<and> tc_replies c' = [])"
    by (metis append_Nil append_Nil2)
next
  assume "tc_replies c \<noteq> [] \<and> (\<forall>j. sock_write_data (res j) = 0)"
  then show "write_loop res 0 c [] = None"
    using write_loop_spins [of res 0 c "[]"] by (cases "write_loop res 0 c []") auto
qed

definition sample_reply :: reply where
  "sample_reply = \<lparr>rp_mem = map Some ''ok'', rp_size = 2\<rparr>"

lemma sample_reply_ok: "reply_ok sample_reply" "reply_text sample_reply = ''ok''"
  by (simp_all add: reply_ok_def reply_text_def sample_reply_def reply_bytes_def)

theorem reply_delivery_witness:
  "\<exists>c'. write_loop (\<lambda>j. Done 1) 0 (add_reply sample_conn sample_reply) [] = Some (True, c', ''ok'')"
proof -
  let ?c = "add_reply sample_conn sample_reply"
  have c: "tc_replies ?c = [sample_reply]" "tc_resp_pos ?c = 0"
    by (simp_all add: add_reply_def sample_conn_def tcp_conn_new_def)
  have ok: "replies_ok ?c"
    using c sample_reply_ok by (simp add: replies_ok_def sample_reply_def)
  have o: "owed ?c = ''ok''" using c sample_reply_ok by (simp add: owed_def)
  have w: "sock_write_data (Done 1) = 1" by (simp add: sock_write_data_def)
  obtain alive c' wire where "write_loop (\<lambda>j. Done 1) 0 ?c [] = Some (alive, c', wire)"
    "wire @ owed c' = owed ?c" "alive \<longrightarrow> wire = owed ?c \<and> tc_replies c' = []"
    using reply_delivery [OF ok, of "\<lambda>j. Done 1"] w by auto
  moreover have "alive"
  proof (rule ccontr)
    assume "\<not> alive"
    then show False
      using calculation c w sample_reply_ok
      by (subst (asm) write_loop.simps; subst (asm) write_loop.simps; subst (asm) write_loop.simps)
        (simp add: sample_reply_def reply_bytes_def numeral_2_eq_2)
  qed
  ultimately show ?thesis using o by auto
qed

section \<open>The table of connections\<close>

text \<open>What every connection satisfies between two callbacks.\<close>

definition io_ok :: "'s tcp_conn \<Rightarrow> bool" where
  "io_ok c \<longleftrightarrow> replies_ok c \<and> reads (tc_io c) \<and> (writes (tc_io c) \<longleftrightarrow> tc_replies c \<noteq> []) \<and>
     tm_active (tc_timer c)"

definition stream_ok :: "'s tcp_conn \<Rightarrow> bool" where
  "stream_ok c \<longleftrightarrow>
     (let n = length (tc_querybuf c); body_len = unat (gh_body_len (ghead_of (tc_querybuf c))) in
      case tc_state c of
        STATE_HEAD \<Rightarrow> tc_processed c = 0 \<and> tc_expected c = GHEAD_SIZE \<and> n < GHEAD_SIZE
      | STATE_BODY \<Rightarrow> GHEAD_SIZE \<le> n \<and> tc_expected c = body_len \<and>
          (tc_processed c = GHEAD_SIZE \<and> n < GHEAD_SIZE + body_len \<or>
           tc_processed c = 65535 \<and> GHEAD_SIZE + body_len \<le> n))"

definition sw_inv :: "'s sig_worker \<Rightarrow> bool" where
  "sw_inv w \<longleftrightarrow>
     (\<forall>i a. i < length (sw_conns w) \<longrightarrow> sw_conns w ! i = Some a \<longrightarrow>
        (\<exists>c. sw_heap w a = Some c \<and> tc_fd c = int i)) \<and>
     (\<forall>a c. sw_heap w a = Some c \<longrightarrow>
        0 < tc_fd c \<and> nat (tc_fd c) < length (sw_conns w) \<and>
        sw_conns w ! nat (tc_fd c) = Some a \<and> io_ok c \<and> stream_ok c)"

definition short_json :: "string \<Rightarrow> bool" where
  "short_json s \<longleftrightarrow> length s < MAX_RES_BUF \<and> CHR 0x00 \<notin> set s"

lemma build_reply_ok: "length h = 36 \<Longrightarrow> short_json js \<Longrightarrow> reply_ok (build_reply h js)"
  using reply_bytes_small [of h js]
  by (auto simp: reply_ok_def short_json_def build_reply_def unat_word_ariths unat_of_nat take_bit_nat_eq_self)

lemma replies_ok_append:
  assumes "replies_ok c" "reply_ok r"
  shows "replies_ok (c\<lparr>tc_replies := tc_replies c @ [r], tc_io := x\<rparr>)"
  using assms by (cases "tc_replies c") (auto simp: replies_ok_def reply_ok_def)

lemma add_reply_ok: "io_ok c \<Longrightarrow> reply_ok r \<Longrightarrow> io_ok (add_reply c r)"
  by (simp add: io_ok_def add_reply_def replies_ok_append)

lemma add_reply_stream [simp]:
  "stream_ok (add_reply c r) = stream_ok c" "tc_fd (add_reply c r) = tc_fd c"
  "tc_querybuf (add_reply c r) = tc_querybuf c"
  by (simp_all add: stream_ok_def add_reply_def split: conn_state.split)

lemma io_ok_cong [simp]:
  "io_ok (c\<lparr>tc_querybuf := q\<rparr>) = io_ok c" "io_ok (c\<lparr>tc_processed := n\<rparr>) = io_ok c"
  "io_ok (c\<lparr>tc_state := st\<rparr>) = io_ok c" "io_ok (c\<lparr>tc_expected := n\<rparr>) = io_ok c"
  "io_ok (c\<lparr>tc_last := t\<rparr>) = io_ok c" "stream_ok (c\<lparr>tc_last := t\<rparr>) = stream_ok c"
  "stream_ok (c\<lparr>tc_io := x\<rparr>) = stream_ok c"
  by (simp_all add: io_ok_def replies_ok_def stream_ok_def split: conn_state.split list.split)

definition short_results :: "'j sig_env \<Rightarrow> bool" where
  "short_results env \<longleftrightarrow> (\<forall>ret. short_json (result_json (se_json env) ret))"

lemma process_request_ok:
  assumes "process_request env a c h b = (ret, c', ms)" "length h = 36" "io_ok c" "short_results env"
  shows "io_ok c'"
  using assms
  by (auto simp: process_request_def Let_def add_reply_ok build_reply_ok short_results_def
      split: option.splits prod.splits if_splits)

text \<open>A read on a consistent connection returns and leaves it consistent, unless it has to be closed.\<close>

lemma pqb_body_ok:
  assumes "tc_state c = STATE_BODY" "tc_processed c = 36" "36 \<le> length (tc_querybuf c)"
    "tc_expected c = unat (gh_body_len (ghead_of (tc_querybuf c)))"
    "length (tc_querybuf c) < 65535" "io_ok c" "short_results env"
  shows "\<exists>ret c' ms. process_query_buffer env a c [] = Some (ret, c', ms) \<and> tc_fd c' = tc_fd c \<and>
    io_ok c' \<and> (ret = 0 \<longrightarrow> stream_ok c')"
proof -
  obtain ret c' ms where r: "process_request env a c (take 36 (tc_querybuf c))
      (take (tc_expected c) (drop 36 (tc_querybuf c))) = (ret, c', ms)"
    using prod_cases3 by blast
  have "length (tc_querybuf c) < 65535 + tc_expected c" using assms(5) by simp
  note b = pqb_body [OF assms(1,2,4) this, of env a "[]"]
  note f = process_request_frame [OF r]
  have "length (take 36 (tc_querybuf c)) = 36" using assms(3) by simp
  note ok = process_request_ok [OF r this assms(6,7)]
  show ?thesis
  proof (cases "length (tc_querybuf c) < 36 + tc_expected c")
    case True
    then have "stream_ok c" using assms by (simp add: stream_ok_def Let_def)
    then show ?thesis using True b assms(6) by simp
  next
    case False
    then have "ret = 0 \<longrightarrow> stream_ok (c'\<lparr>tc_processed := 65535\<rparr>)"
      using assms f by (simp add: stream_ok_def Let_def)
    then show ?thesis using False b r ok f by simp
  qed
qed

lemma feed_ok:
  assumes "stream_ok c" "io_ok c" "short_results env" "length (tc_querybuf c @ t) < 65535"
  shows "\<exists>ret c' ms. feed env a t c = Some (ret, c', ms) \<and> tc_fd c' = tc_fd c \<and>
    io_ok c' \<and> (ret = 0 \<longrightarrow> stream_ok c')"
proof (cases "tc_state c")
  case STATE_HEAD
  let ?d = "c\<lparr>tc_querybuf := tc_querybuf c @ t\<rparr>"
  let ?bl = "unat (gh_body_len (ghead_of (tc_querybuf c @ t)))"
  let ?e = "c\<lparr>tc_state := STATE_BODY, tc_expected := ?bl, tc_processed := 36, tc_querybuf := tc_querybuf c @ t\<rparr>"
  have h: "tc_processed c = 0" "tc_expected c = 36"
    using STATE_HEAD assms(1) by (simp_all add: stream_ok_def Let_def)
  have u: "feed env a t c =
     (if length (tc_querybuf c @ t) < 36 then Some (0, ?d, [])
      else if gh_magic_num (ghead_of (tc_querybuf c @ t)) \<noteq> GHEAD_MAGIC_NUM then Some (-1, ?d, [])
      else process_query_buffer env a ?e [])"
    unfolding feed_def using STATE_HEAD h by (subst process_query_buffer.simps) (simp add: not_less)
  show ?thesis
  proof (cases "length (tc_querybuf c @ t) < 36 \<or> gh_magic_num (ghead_of (tc_querybuf c @ t)) \<noteq> GHEAD_MAGIC_NUM")
    case True
    then show ?thesis using u h STATE_HEAD assms(2) by (auto simp: stream_ok_def Let_def)
  next
    case False
    then show ?thesis using u pqb_body_ok [of ?e env a] assms by auto
  qed
next
  case STATE_BODY
  let ?d = "c\<lparr>tc_querybuf := tc_querybuf c @ t\<rparr>"
  have b: "36 \<le> length (tc_querybuf c)" "tc_expected c = unat (gh_body_len (ghead_of (tc_querybuf c)))"
    using STATE_BODY assms(1) by (simp_all add: stream_ok_def Let_def)
  show ?thesis
  proof (cases "tc_processed c = 36")
    case True
    then show ?thesis using pqb_body_ok [of ?d env a] STATE_BODY b assms by (simp add: feed_def)
  next
    case False
    then have "tc_processed c = 65535" "36 + tc_expected c \<le> length (tc_querybuf c)"
      using STATE_BODY assms(1) b(2) by (auto simp: stream_ok_def Let_def)
    moreover from this have "stream_ok ?d" using STATE_BODY b by (simp add: stream_ok_def Let_def)
    ultimately show ?thesis using assms(2,4) by (simp add: feed_def pqb_wait)
  qed
qed

text \<open>The callbacks, each with the surroundings it meets.\<close>

datatype ('j, 's) sw_event =
  Ev_accept "('j, 's) sw_env" int
| Ev_io "('j, 's) sw_env" "int \<Rightarrow> sys_result \<times> string" "nat \<Rightarrow> sys_result" int int
| Ev_timer nat
| Ev_offer "('j, 's) sw_env" rtc_msg
| Ev_tick u64

fun sw_step :: "('j, 's::zero) sw_event \<Rightarrow> 's sig_worker \<Rightarrow> 's sig_worker option" where
  "sw_step (Ev_accept env fd) w = new_conn env fd w"
| "sw_step (Ev_io env rd res fd events) w =
     map_option fst (conn_io_cb env rd res fd events w)"
| "sw_step (Ev_timer a) w = process_timeout a w"
| "sw_step (Ev_offer env msg) w = response_server_offer env msg w"
| "sw_step (Ev_tick t) w = Some (w\<lparr>sw_now := t\<rparr>)"

text \<open>
  When a callback can run: an accepted descriptor is new and positive and so is the address of its
  object; I/O and timer events come from watchers of live connections; what a read adds stays below
  the 65535 bytes, a write eventually makes progress; an offer is for a connection whose header has
  arrived; and the JSON texts fit the reply buffer.\<close>

definition reading :: "(int \<Rightarrow> sys_result \<times> string) \<Rightarrow> 's tcp_conn \<Rightarrow> int \<Rightarrow> string" where
  "reading rd c len = take (nat (sock_read_data (fst (rd len)))) (snd (rd len))"

fun enabled :: "('j, 's::zero) sw_event \<Rightarrow> 's sig_worker \<Rightarrow> bool" where
  "enabled (Ev_accept env fd) w \<longleftrightarrow>
     0 < fd \<and> (nat fd < length (sw_conns w) \<longrightarrow> sw_conns w ! nat fd = None) \<and>
     sw_heap w (en_new env) = None \<and> en_to_sec env 100000 \<noteq> 0"
| "enabled (Ev_io env rd res fd events) w \<longleftrightarrow>
     (\<exists>a c. sw_heap w a = Some c \<and> tc_fd c = fd \<and> (\<forall>n. en_room env n) \<and>
        short_results (en_req env) \<and>
        (\<forall>n. length (tc_querybuf c @ reading rd c n) < 65535)) \<and>
     (\<forall>j. -1 \<le> sock_write_data (res j)) \<and> (\<forall>k. \<exists>j\<ge>k. sock_write_data (res j) \<noteq> 0)"
| "enabled (Ev_timer a) w \<longleftrightarrow> a \<in> dom (sw_heap w)"
| "enabled (Ev_offer env msg) w \<longleftrightarrow>
     short_json (offer_json (se_json (en_req env)) msg) \<and>
     (\<forall>a c. rm_conn msg = Some a \<longrightarrow> sw_heap w a = Some c \<longrightarrow> GHEAD_SIZE \<le> length (tc_querybuf c))"
| "enabled (Ev_tick t) w \<longleftrightarrow> True"

lemma sw_inv_cong [simp]:
  "sw_inv (w\<lparr>sw_closed := x\<rparr>) = sw_inv w" "sw_inv (w\<lparr>sw_now := t\<rparr>) = sw_inv w"
  by (simp_all add: sw_inv_def)

lemma sw_inv_at:
  assumes "sw_inv w" "sw_heap w a = Some c"
  shows "0 < tc_fd c" "nat (tc_fd c) < length (sw_conns w)" "sw_conns w ! nat (tc_fd c) = Some a"
    "io_ok c" "stream_ok c"
  using assms by (simp_all add: sw_inv_def)

lemma sw_inv_slot:
  assumes "sw_inv w" "i < length (sw_conns w)" "sw_conns w ! i = Some a"
  shows "\<exists>c. sw_heap w a = Some c \<and> tc_fd c = int i"
  using assms by (simp add: sw_inv_def)

lemma sw_inv_update:
  assumes "sw_inv w" "sw_heap w a = Some c" "tc_fd c' = tc_fd c" "io_ok c'" "stream_ok c'"
  shows "sw_inv (w\<lparr>sw_heap := (sw_heap w)(a \<mapsto> c')\<rparr>)"
proof -
  have "\<exists>d. ((sw_heap w)(a \<mapsto> c')) b = Some d \<and> tc_fd d = int i"
    if "i < length (sw_conns w)" "sw_conns w ! i = Some b" for i b
    using sw_inv_slot [OF assms(1) that] assms(2,3) by (cases "b = a") auto
  moreover have "0 < tc_fd d \<and> nat (tc_fd d) < length (sw_conns w) \<and>
      sw_conns w ! nat (tc_fd d) = Some b \<and> io_ok d \<and> stream_ok d"
    if "((sw_heap w)(a \<mapsto> c')) b = Some d" for b d
    using sw_inv_at [OF assms(1,2)] sw_inv_at [OF assms(1), of b d] that assms(3-5)
    by (cases "b = a") auto
  ultimately show ?thesis by (simp add: sw_inv_def)
qed

text \<open>Closing forgets the object and its slot and nothing else, whatever happened to the object.\<close>

lemma close_conn_inv:
  assumes "sw_inv w" "sw_heap w a = Some c" "tc_fd c' = tc_fd c"
  shows "\<exists>w'. close_conn a (w\<lparr>sw_heap := (sw_heap w)(a \<mapsto> c')\<rparr>) = Some w' \<and> sw_inv w' \<and>
    sw_heap w' = (sw_heap w)(a := None) \<and> sw_closed w' = sw_closed w @ [tc_fd c]"
proof -
  note a = sw_inv_at [OF assms(1,2)]
  let ?w = "w\<lparr>sw_closed := sw_closed w @ [tc_fd c], sw_conns := (sw_conns w)[nat (tc_fd c) := None],
      sw_heap := (sw_heap w)(a := None)\<rparr>"
  have e: "close_conn a (w\<lparr>sw_heap := (sw_heap w)(a \<mapsto> c')\<rparr>) = Some ?w"
    using a(1,2) assms(3) by (simp add: close_conn_def remove_conn_def)
  have "\<exists>d. ((sw_heap w)(a := None)) b = Some d \<and> tc_fd d = int i"
    if "i < length (sw_conns w)" "(sw_conns w)[nat (tc_fd c) := None] ! i = Some b" for i b
  proof -
    have i: "i \<noteq> nat (tc_fd c)" "sw_conns w ! i = Some b" using that a(2) by (auto simp: nth_list_update split: if_splits)
    from sw_inv_slot [OF assms(1) that(1) i(2)] obtain d where "sw_heap w b = Some d" "tc_fd d = int i"
      by blast
    moreover have "b \<noteq> a" using i(1) assms(2) calculation by auto
    ultimately show ?thesis by simp
  qed
  moreover have "0 < tc_fd d \<and> nat (tc_fd d) < length (sw_conns w) \<and>
      (sw_conns w)[nat (tc_fd c) := None] ! nat (tc_fd d) = Some b \<and> io_ok d \<and> stream_ok d"
    if "((sw_heap w)(a := None)) b = Some d" for b d
  proof -
    have b: "b \<noteq> a" "sw_heap w b = Some d" using that by (auto split: if_splits)
    with sw_inv_at [OF assms(1) b(2)] a show ?thesis by (auto simp: nth_list_update)
  qed
  ultimately have "sw_inv ?w" by (simp add: sw_inv_def)
  with e show ?thesis by simp
qed

lemma close_conn_inv_same:
  assumes "sw_inv w" "sw_heap w a = Some c"
  shows "\<exists>w'. close_conn a w = Some w' \<and> sw_inv w' \<and> sw_heap w' = (sw_heap w)(a := None)"
proof -
  have "w\<lparr>sw_heap := (sw_heap w)(a \<mapsto> c)\<rparr> = w" using assms(2) by (simp add: fun_upd_idem)
  then show ?thesis using close_conn_inv [OF assms, of c] by auto
qed

lemma new_conn_inv:
  assumes "sw_inv w" "enabled (Ev_accept env fd) w"
  shows "\<exists>w'. new_conn env fd w = Some w' \<and> sw_inv w'"
proof -
  let ?conns = "if length (sw_conns w) \<le> nat fd then resize (nat (fd * 2)) None (sw_conns w) else sw_conns w"
  let ?c = "tcp_conn_new fd (en_peer env fd)
      (start_io_event (create_io_event (en_uninit env)) fd EV_LOOP_READ)
      (start_timer (en_to_sec env) (create_timer 0 True) 100000) (sw_now w)"
  let ?w = "w\<lparr>sw_heap := (sw_heap w)(en_new env \<mapsto> ?c), sw_conns := ?conns[nat fd := Some (en_new env)]\<rparr>"
  have fd: "0 < fd" and free: "sw_heap w (en_new env) = None" and sec: "en_to_sec env 100000 \<noteq> 0"
    and slot: "nat fd < length (sw_conns w) \<Longrightarrow> sw_conns w ! nat fd = None"
    using assms(2) by auto
  have len: "nat fd < length ?conns" "length (sw_conns w) \<le> length ?conns"
    using fd by auto
  have old: "?conns ! i = (if i < length (sw_conns w) then sw_conns w ! i else None)"
    if "i < length ?conns" for i
    using that by (auto simp: nth_resize)
  have ok: "io_ok ?c" "stream_ok ?c"
    using sec by (simp_all add: io_ok_def stream_ok_def tcp_conn_new_def replies_ok_def start_timer_def
        create_timer_def Let_def)
  have "\<exists>d. ((sw_heap w)(en_new env \<mapsto> ?c)) b = Some d \<and> tc_fd d = int i"
    if "i < length ?conns" "?conns[nat fd := Some (en_new env)] ! i = Some b" for i b
  proof (cases "i = nat fd")
    case True
    then show ?thesis using that len fd by (simp add: tcp_conn_new_def)
  next
    case False
    then have "i < length (sw_conns w)" "sw_conns w ! i = Some b"
      using that old [OF that(1)] by (auto split: if_splits)
    from sw_inv_slot [OF assms(1) this] free show ?thesis by auto
  qed
  moreover have "0 < tc_fd d \<and> nat (tc_fd d) < length ?conns \<and>
      ?conns[nat fd := Some (en_new env)] ! nat (tc_fd d) = Some b \<and> io_ok d \<and> stream_ok d"
    if d: "((sw_heap w)(en_new env \<mapsto> ?c)) b = Some d" for b d
  proof (cases "b = en_new env")
    case True
    then show ?thesis using d len fd ok by (auto simp: tcp_conn_new_def)
  next
    case False
    then have b: "sw_heap w b = Some d" using d by simp
    note at = sw_inv_at [OF assms(1) b]
    moreover have "nat (tc_fd d) \<noteq> nat fd" using slot at(2,3) by auto
    ultimately show ?thesis using old [of "nat (tc_fd d)"] len by simp
  qed
  ultimately have "sw_inv ?w" by (simp add: sw_inv_def)
  moreover have "new_conn env fd w = Some ?w" using fd len(1) by (simp add: new_conn_def Let_def)
  ultimately show ?thesis by blast
qed

lemma read_query_inv:
  assumes "sw_inv w" "sw_heap w a = Some c" "tc_fd c = fd" "\<forall>n. en_room env n"
    "short_results (en_req env)" "\<forall>n. length (tc_querybuf c @ reading rd c n) < 65535"
  shows "\<exists>w' ms. read_query env rd fd w = Some (w', ms) \<and> sw_inv w'"
proof -
  note at = sw_inv_at [OF assms(1,2)]
  let ?n = "to_int32 (int (tc_expected c))"
  let ?d = "c\<lparr>tc_last := sw_now w\<rparr>"
  obtain r bytes where rd: "rd ?n = (r, bytes)" by fastforce
  show ?thesis
  proof (cases "sock_read_data r = -1")
    case True
    obtain w' where "close_conn a (w\<lparr>sw_heap := (sw_heap w)(a \<mapsto> ?d)\<rparr>) = Some w'" "sw_inv w'"
      using close_conn_inv [OF assms(1,2), of ?d] by auto
    then show ?thesis using True at assms(2-4) rd by (simp add: read_query_def Let_def)
  next
    case False
    have "length (tc_querybuf ?d @ take (nat (sock_read_data r)) bytes) < 65535"
      using assms(6) [rule_format, of ?n] rd by (simp add: reading_def)
    then obtain ret c' ms where f: "feed (en_req env) a (take (nat (sock_read_data r)) bytes) ?d = Some (ret, c', ms)"
      "tc_fd c' = fd" "io_ok c'" "ret = 0 \<longrightarrow> stream_ok c'"
      using feed_ok [of ?d "en_req env" "take (nat (sock_read_data r)) bytes" a] at assms(3,5) by auto
    have rq: "read_query env rd fd w =
        (if ret \<noteq> 0 then do { w' \<leftarrow> close_conn a (w\<lparr>sw_heap := (sw_heap w)(a \<mapsto> c')\<rparr>); Some (w', ms) }
         else Some (w\<lparr>sw_heap := (sw_heap w)(a \<mapsto> c')\<rparr>, ms))"
      using False at assms(2-4) rd f(1) by (simp add: read_query_def Let_def)
    show ?thesis
    proof (cases "ret = 0")
      case True
      then show ?thesis using rq f assms(3) sw_inv_update [OF assms(1,2), of c'] by simp
    next
      case False
      then show ?thesis using rq f assms(3) close_conn_inv [OF assms(1,2), of c'] by auto
    qed
  qed
qed

lemma write_reply_inv:
  assumes "sw_inv w" "sw_heap w a = Some c" "tc_fd c = fd"
    "\<forall>j. -1 \<le> sock_write_data (res j)" "\<forall>k. \<exists>j\<ge>k. sock_write_data (res j) \<noteq> 0"
  shows "\<exists>w' wire. write_reply res fd w = Some (w', wire) \<and> sw_inv w'"
proof -
  note at = sw_inv_at [OF assms(1,2)]
  have rok: "replies_ok c" using at(4) by (simp add: io_ok_def)
  obtain alive d wire where wl: "write_loop res 0 c [] = Some (alive, d, wire)"
    "replies_ok d" "alive \<longrightarrow> tc_replies d = []"
    "d = c\<lparr>tc_replies := tc_replies d, tc_resp_pos := tc_resp_pos d\<rparr>"
    using write_loop_ok [where res = res and k = 0 and wire = "[]", OF rok] assms(4,5)
    by (auto simp only: append_Nil)
  have fd: "tc_fd d = tc_fd c" "tc_io d = tc_io c" "tc_timer d = tc_timer c"
    "stream_ok d \<longleftrightarrow> stream_ok c"
    by (subst wl(4), simp add: stream_ok_def split: conn_state.split)+
  show ?thesis
  proof (cases alive)
    case False
    obtain w' where "close_conn a (w\<lparr>sw_heap := (sw_heap w)(a \<mapsto> d)\<rparr>) = Some w'" "sw_inv w'"
      using close_conn_inv [OF assms(1,2), of d] fd by auto
    then show ?thesis using False at assms(2,3) wl(1) by (simp add: write_reply_def)
  next
    case True
    let ?e = "d\<lparr>tc_last := sw_now w, tc_io := stop_io_event (tc_io d) (tc_fd d) EV_LOOP_WRITE\<rparr>"
    have act: "w_active (tc_io c)" using at(4) by (auto simp: io_ok_def active_iff_interest)
    have "io_ok ?e" "stream_ok ?e" "tc_fd ?e = tc_fd c"
      using at(4,5) wl(2,3) True fd act
      by (simp_all add: io_ok_def replies_ok_def interest_stop)
    then have "sw_inv (w\<lparr>sw_heap := (sw_heap w)(a \<mapsto> ?e)\<rparr>)"
      using sw_inv_update [OF assms(1,2), of ?e] by blast
    then show ?thesis using True at assms(2,3) wl(1,3) fd by (simp add: write_reply_def Let_def)
  qed
qed

lemma response_inv:
  assumes "sw_inv w" "enabled (Ev_offer env msg) w"
  shows "\<exists>w'. response_server_offer env msg w = Some w' \<and> sw_inv w'"
proof -
  consider "response_server_offer env msg w = Some w"
    | a c where "rm_conn msg = Some a" "0 < rm_fd msg" "nat (rm_fd msg) < length (sw_conns w)"
      "sw_conns w ! nat (rm_fd msg) = Some a" "sw_heap w a = Some c" "en_zmalloc env"
  proof (cases "\<exists>a. rm_conn msg = Some a \<and> 0 < rm_fd msg \<and> nat (rm_fd msg) < length (sw_conns w) \<and>
      sw_conns w ! nat (rm_fd msg) = Some a \<and> en_zmalloc env")
    case True
    then show ?thesis using sw_inv_slot [OF assms(1), of "nat (rm_fd msg)"] that(2) by blast
  next
    case False
    then have "response_server_offer env msg w = Some w"
      by (cases "rm_conn msg") (auto simp: response_server_offer_def Let_def)
    then show ?thesis by (rule that(1))
  qed
  then show ?thesis
  proof cases
    case 1
    then show ?thesis using assms(1) by simp
  next
    case 2
    note at = sw_inv_at [OF assms(1) 2(5)]
    let ?r = "build_reply (take GHEAD_SIZE (tc_querybuf c)) (offer_json (se_json (en_req env)) msg)"
    have l: "36 \<le> length (tc_querybuf c)" "short_json (offer_json (se_json (en_req env)) msg)"
      using assms(2) 2 by auto
    then have "reply_ok ?r" by (intro build_reply_ok) simp_all
    then have "sw_inv (w\<lparr>sw_heap := (sw_heap w)(a \<mapsto> add_reply c ?r)\<rparr>)"
      using sw_inv_update [OF assms(1) 2(5), of "add_reply c ?r"] at by (simp add: add_reply_ok)
    then show ?thesis using 2 l by (simp add: response_server_offer_def Let_def)
  qed
qed

lemma sw_step_ok:
  assumes "sw_inv w" "enabled ev w"
  shows "\<exists>w'. sw_step ev w = Some w' \<and> sw_inv w'"
proof (cases ev)
  case (Ev_accept env fd)
  then show ?thesis using new_conn_inv assms by auto
next
  case (Ev_io env rd res fd events)
  then obtain a c where e: "sw_heap w a = Some c" "tc_fd c = fd" "\<forall>n. en_room env n"
    "short_results (en_req env)" "\<forall>n. length (tc_querybuf c @ reading rd c n) < 65535"
    "\<forall>j. -1 \<le> sock_write_data (res j)" "\<forall>k. \<exists>j\<ge>k. sock_write_data (res j) \<noteq> 0"
    using assms(2) by auto
  show ?thesis
    using Ev_io assms(1) read_query_inv [OF assms(1) e(1-5)] write_reply_inv [OF assms(1) e(1,2) e(6,7)]
    by (auto simp: conn_io_cb_def)
next
  case (Ev_timer a)
  then show ?thesis
    using assms close_conn_inv_same [OF assms(1), of a] by (auto simp: process_timeout_def)
next
  case (Ev_offer env msg)
  then show ?thesis using response_inv assms by auto
qed (use assms in simp)

text \<open>A run of the worker, and the requirement that each callback is one that can occur.\<close>

fun sw_run :: "('j, 's::zero) sw_event list \<Rightarrow> 's sig_worker \<Rightarrow> 's sig_worker option" where
  "sw_run [] w = Some w"
| "sw_run (ev # evs) w = do { w' \<leftarrow> sw_step ev w; sw_run evs w' }"

fun schedulable :: "('j, 's::zero) sw_event list \<Rightarrow> 's sig_worker \<Rightarrow> bool" where
  "schedulable [] w \<longleftrightarrow> True"
| "schedulable (ev # evs) w \<longleftrightarrow>
     enabled ev w \<and> (case sw_step ev w of None \<Rightarrow> True | Some w' \<Rightarrow> schedulable evs w')"

lemma sw_run_ok:
  "sw_inv w \<Longrightarrow> schedulable evs w \<Longrightarrow> \<exists>w'. sw_run evs w = Some w' \<and> sw_inv w'"
proof (induction evs arbitrary: w)
  case (Cons ev evs)
  obtain w1 where w1: "sw_step ev w = Some w1" "sw_inv w1"
    using sw_step_ok [OF Cons.prems(1), of ev] Cons.prems(2) by auto
  then show ?case using Cons.IH [OF w1(2)] Cons.prems(2) by simp
qed simp

lemma sw_inv_new: "sw_inv (sig_worker_new t d)"
  by (simp add: sw_inv_def sig_worker_new_def)


definition sample_sw_env :: "nat \<Rightarrow> (unit, int) sw_env" where
  "sample_sw_env a = \<lparr>en_req = ref_env, en_new = a, en_peer = (\<lambda>fd. (''192.0.2.1'', 4000)),
     en_uninit = \<lparr>w_active = False, w_fd = 0, w_events = 0\<rparr>, en_to_sec = int, en_room = (\<lambda>n. True), en_zmalloc = True\<rparr>"

definition sample_events :: "(unit, int) sw_event list" where
  "sample_events = [Ev_accept (sample_sw_env 1) 5, Ev_tick 70, Ev_timer 1]"

lemma new_conn_sample:
  "new_conn (sample_sw_env 1) 5 (sig_worker_new t d) = Some w \<Longrightarrow>
     1 \<in> dom (sw_heap w) \<and> sw_conns w ! 5 = Some 1 \<and> length (sw_conns w) = 10"
  by (auto simp: new_conn_def Let_def sample_sw_env_def sig_worker_new_def)


section \<open>Handing over connections\<close>

lemma count_pipe: "sw_pipe w = m # rest \<Longrightarrow>
    count_list (sw_pipe w) k = (if m = k then 1 else 0) + count_list rest k"
  by simp

text \<open>The receiver of the mailbox: the notification is taken off the pipe, then the descriptor.\<close>

definition recv_conn :: "'s sig_worker \<Rightarrow> (int option \<times> 's sig_worker) option" where
  "recv_conn w = sw_take_conn (w\<lparr>sw_pipe := tl (sw_pipe w)\<rparr>)"

definition conn_ready :: "'s sig_worker \<Rightarrow> bool" where
  "conn_ready w \<longleftrightarrow> sw_pipe w \<noteq> [] \<and> hd (sw_pipe w) = SW_NEW_CONN"

lemma recv_notify_conn:
  "conn_ready w \<Longrightarrow> signaling_worker_recv_notify env w =
     do { (fd, w') \<leftarrow> recv_conn w; (case fd of None \<Rightarrow> Some w' | Some fd \<Rightarrow> new_conn env fd w') }"
  by (cases "sw_pipe w")
    (simp_all add: conn_ready_def signaling_worker_recv_notify_def sw_process_notify_def recv_conn_def)

definition conn_other :: "'s sig_worker \<Rightarrow> 's sig_worker \<Rightarrow> bool" where
  "conn_other w w' \<longleftrightarrow> sw_q_conn w' = sw_q_conn w \<and>
     count_list (sw_pipe w') SW_NEW_CONN = count_list (sw_pipe w) SW_NEW_CONN"

interpretation conn_mailbox: mailbox
  "\<lambda>w. lfq_inv (sw_q_conn w)" "\<lambda>w. lfq_contents (sw_q_conn w)"
  "\<lambda>w. count_list (sw_pipe w) SW_NEW_CONN" "\<lambda>a w. a \<notin> dom (nodes (sw_q_conn w))"
  notify_new_conn conn_ready recv_conn conn_other
proof
  fix w :: "'s sig_worker" and a fd r
  assume "lfq_inv (sw_q_conn w)" "a \<notin> dom (nodes (sw_q_conn w))"
  from lfq.push_ok [OF this, of fd] obtain q' where
    "produce a fd (sw_q_conn w) = Some q'" "lfq_inv q'" "lfq_contents q' = lfq_contents (sw_q_conn w) @ [fd]"
    by blast
  then show "\<exists>s'. notify_new_conn a fd r w = Some (notify r, s') \<and> lfq_inv (sw_q_conn s') \<and>
      lfq_contents (sw_q_conn s') = lfq_contents (sw_q_conn w) @ [fd] \<and>
      count_list (sw_pipe s') SW_NEW_CONN = count_list (sw_pipe w) SW_NEW_CONN + (if notify r = 0 then 1 else 0)"
    by (simp add: notify_new_conn_def sw_notify_def pipe_write_def)
next
  fix w :: "'s sig_worker" assume "conn_ready w"
  then show "0 < count_list (sw_pipe w) SW_NEW_CONN" by (cases "sw_pipe w") (auto simp: conn_ready_def)
next
  fix w :: "'s sig_worker"
  assume w: "lfq_inv (sw_q_conn w)" "conn_ready w" "lfq_contents (sw_q_conn w) = []"
  then show "\<exists>s'. recv_conn w = Some (None, s') \<and> lfq_inv (sw_q_conn s') \<and>
      lfq_contents (sw_q_conn s') = [] \<and>
      count_list (sw_pipe s') SW_NEW_CONN = count_list (sw_pipe w) SW_NEW_CONN - 1"
    using lfq.pop_empty [OF w(1,3)]
    by (cases "sw_pipe w") (auto simp: recv_conn_def sw_take_conn_def conn_ready_def)
next
  fix w :: "'s sig_worker" and x xs
  assume w: "lfq_inv (sw_q_conn w)" "conn_ready w" "lfq_contents (sw_q_conn w) = x # xs"
  from lfq.pop_front [OF w(1,3)] obtain q' where
    "consume (sw_q_conn w) = Some (Some x, q')" "lfq_inv q'" "lfq_contents q' = xs" by blast
  then show "\<exists>s'. recv_conn w = Some (Some x, s') \<and> lfq_inv (sw_q_conn s') \<and>
      lfq_contents (sw_q_conn s') = xs \<and>
      count_list (sw_pipe s') SW_NEW_CONN = count_list (sw_pipe w) SW_NEW_CONN - 1"
    using w(2) by (cases "sw_pipe w") (auto simp: recv_conn_def sw_take_conn_def conn_ready_def)
qed (simp add: conn_other_def)

lemma conn_other_steps:
  "conn_other w (snd (sw_send_rtc_msg msg r w))" "conn_other w (sw_stop r w)"
  "conn_other w (sw_stop_loop w)" "conn_other w (w\<lparr>sw_heap := h, sw_conns := cs\<rparr>)"
  by (simp_all add: conn_other_def sw_send_rtc_msg_def sw_notify_def sw_push_msg_def sw_stop_def
      sw_stop_loop_def pipe_write_def)

text \<open>
  C22: The accepted descriptors reach the worker's thread in the order of acceptance, each once: at any
  time those taken out followed by those in the queue are those handed over.  A descriptor can wait
  without a notification only if the write of a notification failed; and whenever a notification
  comes up the oldest waiting descriptor is taken out.\<close>

theorem connections_handed_over:
  assumes "mb_run (\<lambda>a w. a \<notin> dom (nodes (sw_q_conn w))) notify_new_conn conn_ready recv_conn conn_other
    (sig_worker_new timeout dummy) fds taken failed w"
  shows "taken @ lfq_contents (sw_q_conn w) = fds \<and>
    length (lfq_contents (sw_q_conn w)) \<le> count_list (sw_pipe w) SW_NEW_CONN + failed \<and>
    (conn_ready w \<longrightarrow> (\<exists>fd rest w'. fds = taken @ fd # rest \<and> recv_conn w = Some (Some fd, w')))"
proof -
  have s0: "lfq_inv (sw_q_conn (sig_worker_new timeout dummy))"
    "lfq_contents (sw_q_conn (sig_worker_new timeout dummy)) = []"
    "count_list (sw_pipe (sig_worker_new timeout dummy)) SW_NEW_CONN = 0"
    using lfq_inv_new [of dummy "0 :: int"] by (simp_all add: sig_worker_new_def)
  show ?thesis
    using conn_mailbox.mb_invariant [OF assms s0] conn_mailbox.mb_progress [OF assms s0] by blast
qed

theorem connections_handed_over_witness:
  "\<exists>w :: int sig_worker. lfq_contents (sw_q_conn w) = [5]"
proof -
  let ?w = "sig_worker_new 60 0 :: int sig_worker"
  let ?av = "\<lambda>a (w :: int sig_worker). a \<notin> dom (nodes (sw_q_conn w))"
  have av: "?av 1 ?w" by (simp add: sig_worker_new_def lfq_new_def)
  then obtain ret w' where s: "notify_new_conn 1 5 (Done 4) ?w = Some (ret, w')"
    using conn_mailbox.send_ok [of ?w 1 5 "Done 4"] lfq_inv_new [of 0 "0 :: int"]
    by (auto simp: sig_worker_new_def)
  have "mb_run ?av notify_new_conn conn_ready recv_conn conn_other ?w ([] @ [5]) []
      (if ret = 0 then 0 else Suc 0) w'"
    by (rule mb_run.sent [OF mb_run.start, where r = 1 and w = "Done 4"]) (use av s in simp_all)
  from connections_handed_over [OF this] show ?thesis by auto
qed

section \<open>An offer for a connection that is gone\<close>

text \<open>
  C23: The check before an offer is delivered compares descriptor and address of the connection that
  asked for it.  When that connection was closed meanwhile and both were reused by a new client, the
  check passes: before the new client has sent a header, the reply header is read past the end of
  its empty buffer; afterwards the offer of the old client is queued for the new one.\<close>

theorem offer_to_reused_connection:
  assumes "sw_inv w" "sw_heap w a = Some c" "close_conn a w = Some w1" "en_new env = a"
    "new_conn env (tc_fd c) w1 = Some w2" "rm_conn msg = Some a" "rm_fd msg = tc_fd c"
    "en_zmalloc env"
  shows "response_server_offer env msg w2 = None \<and>
    (\<forall>d. GHEAD_SIZE \<le> length (tc_querybuf d) \<longrightarrow>
      (\<exists>r. response_server_offer env msg (w2\<lparr>sw_heap := (sw_heap w2)(a \<mapsto> d)\<rparr>) =
        Some (w2\<lparr>sw_heap := (sw_heap w2)(a \<mapsto> add_reply d r)\<rparr>)))"
proof -
  note at = sw_inv_at [OF assms(1,2)]
  have l1: "length (sw_conns w1) = length (sw_conns w)"
    using assms(2,3) at by (auto simp: close_conn_def remove_conn_def)
  have w2: "length (sw_conns w2) = length (sw_conns w)" "sw_conns w2 ! nat (tc_fd c) = Some a"
    and h: "\<exists>d. sw_heap w2 a = Some d \<and> tc_querybuf d = []"
    using assms(4,5) at l1 by (auto simp: new_conn_def Let_def tcp_conn_new_def split: if_splits)
  then show ?thesis
    using assms(6-8) at by (auto simp: response_server_offer_def Let_def)
qed

definition push_from :: "nat \<Rightarrow> int \<Rightarrow> rtc_msg" where
  "push_from a fd = rtc_msg_new\<lparr>rm_cmdno := CMDNO_PUSH, rm_conn := Some a, rm_fd := fd\<rparr>"

theorem offer_to_reused_connection_witness:
  "\<exists>w :: int sig_worker. response_server_offer (sample_sw_env 1) (push_from 1 5) w = None"
proof -
  let ?w0 = "sig_worker_new 60 0 :: int sig_worker"
  have en: "enabled (Ev_accept (sample_sw_env 1) 5) ?w0"
    by (simp add: sig_worker_new_def sample_sw_env_def)
  obtain w where w: "new_conn (sample_sw_env 1) 5 ?w0 = Some w" "sw_inv w"
    using new_conn_inv [OF sw_inv_new en] by blast
  then obtain c where c: "sw_heap w 1 = Some c" using new_conn_sample [OF w(1)] by auto
  have "sw_conns w ! 5 = Some 1" "length (sw_conns w) = 10" using new_conn_sample [OF w(1)] by auto
  then have fd: "tc_fd c = 5" using sw_inv_slot [OF w(2), of 5 1] c by auto
  obtain w1 where w1: "close_conn 1 w = Some w1" "sw_inv w1" "sw_heap w1 = (sw_heap w)(1 := None)"
    using close_conn_inv_same [OF w(2) c] by blast
  have "sw_conns w1 ! 5 = None \<and> length (sw_conns w1) = 10"
    using w1(1) c fd new_conn_sample [OF w(1)] by (auto simp: close_conn_def remove_conn_def)
  then have en1: "enabled (Ev_accept (sample_sw_env 1) (tc_fd c)) w1"
    using w1(3) fd by (simp add: sample_sw_env_def)
  obtain w2 where "new_conn (sample_sw_env 1) (tc_fd c) w1 = Some w2"
    using new_conn_inv [OF w1(2) en1] by blast
  from offer_to_reused_connection [OF w(2) c w1(1) _ this, of "push_from 1 5"] fd show ?thesis
    by (auto simp: push_from_def sample_sw_env_def)
qed

end
