(* ===== verification/Signaling_Server.thy ===== *)
theory Signaling_Server
  imports Signaling_Worker_Properties
begin

text \<open>
  \<^verbatim>\<open>src/server/signaling_server.cpp\<close>: the accepting thread and its workers.  \<open>None\<close> is a fault or an
  exception nobody catches.  What the system calls and the YAML library answer during \<^verbatim>\<open>init\<close> is the
  record \<open>server_env\<close>: \<open>sv_load path\<close> are host, port, connection timeout and number of workers, or
  \<open>None\<close> when loading or converting throws \<^verbatim>\<open>YAML::Exception\<close>.
\<close>

record server_env =
  sv_load :: "string \<Rightarrow> (string \<times> int \<times> int \<times> int) option"
  sv_pipe :: "(int \<times> int) option"
  sv_socket :: sys_result
  sv_setsockopt :: sys_result
  sv_bind :: "u32 \<Rightarrow> u16 \<Rightarrow> sys_result"
  sv_listen :: sys_result
  sv_aton :: "string \<Rightarrow> u32 option"
  sv_worker_pipe :: "nat \<Rightarrow> (int \<times> int) option"
  sv_dummy :: "nat \<Rightarrow> nat"
  sv_uninit :: io_watcher

record 's sig_server =
  ss_host :: string
  ss_port :: int
  ss_timeout :: int
  ss_worker_num :: int
  ss_listen_fd :: int
  ss_io_watcher :: "io_watcher option"
  ss_pipe_watcher :: "io_watcher option"
  ss_thread :: bool
  ss_looping :: bool
  ss_recv_fd :: int
  ss_send_fd :: int
  ss_pipe :: "int list"
  ss_workers :: "'s sig_worker list"
  ss_next :: nat
  ss_closed :: "int list"

abbreviation SS_QUIT :: int where "SS_QUIT \<equiv> 0"

definition sig_server_new :: "'s sig_server" where
  "sig_server_new = \<lparr>ss_host = [], ss_port = 0, ss_timeout = 0, ss_worker_num = 0, ss_listen_fd = -1,
     ss_io_watcher = None, ss_pipe_watcher = None, ss_thread = False, ss_looping = False,
     ss_recv_fd = -1, ss_send_fd = -1, ss_pipe = [], ss_workers = [], ss_next = 0, ss_closed = []\<rparr>"

section \<open>Start-up\<close>

definition ss_create_worker :: "server_env \<Rightarrow> nat \<Rightarrow> 's sig_server \<Rightarrow> int \<times> 's sig_server" where
  "ss_create_worker env i s =
     (case sw_init (sv_uninit env) (sv_worker_pipe env i) (sig_worker_new (ss_timeout s) (sv_dummy env i)) of
        (ret, w) \<Rightarrow>
          if ret \<noteq> 0 then (-1, s)
          else (case sw_start w of
                  (ok, w) \<Rightarrow> if \<not> ok then (-1, s) else (0, s\<lparr>ss_workers := ss_workers s @ [w]\<rparr>)))"

fun ss_create_workers :: "server_env \<Rightarrow> nat list \<Rightarrow> 's sig_server \<Rightarrow> int \<times> 's sig_server" where
  "ss_create_workers env [] s = (0, s)"
| "ss_create_workers env (i # is) s =
     (case ss_create_worker env i s of
        (ret, s) \<Rightarrow> if ret \<noteq> 0 then (-1, s) else ss_create_workers env is s)"

text \<open>
  \<^verbatim>\<open>init\<close>.  The handler \<^verbatim>\<open>catch (YAML::Exception *e)\<close> does not match the object the library throws.
\<close>

definition ss_init :: "server_env \<Rightarrow> string option \<Rightarrow> 's sig_server \<Rightarrow> (int \<times> 's sig_server) option" where
  "ss_init env conf_path s =
     (case conf_path of
        None \<Rightarrow> Some (-1, s)
      | Some path \<Rightarrow>
          do { (host, port, timeout, worker_num) \<leftarrow> sv_load env path;
               let s = s\<lparr>ss_host := host, ss_port := port, ss_timeout := timeout, ss_worker_num := worker_num\<rparr>;
               Some (case sv_pipe env of
                 None \<Rightarrow> (-1, s)
               | Some (r, w) \<Rightarrow>
                   let s = s\<lparr>ss_recv_fd := r, ss_send_fd := w,
                             ss_pipe_watcher := Some (start_io_event (create_io_event (sv_uninit env)) r EV_LOOP_READ)\<rparr>;
                       fd = create_tcp_server (sv_socket env) (sv_setsockopt env) (sv_bind env)
                              (sv_listen env) (sv_aton env) (Some host) port;
                       s = s\<lparr>ss_listen_fd := fd\<rparr>
                   in if fd = -1 then (-1, s)
                      else ss_create_workers env [0 ..< nat worker_num]
                             (s\<lparr>ss_io_watcher := Some (start_io_event (create_io_event (sv_uninit env)) fd EV_LOOP_READ)\<rparr>)) })"

definition ss_start :: "'s sig_server \<Rightarrow> bool \<times> 's sig_server" where
  "ss_start s = (if ss_thread s then (False, s) else (True, s\<lparr>ss_thread := True, ss_looping := True\<rparr>))"

section \<open>Accepting\<close>

text \<open>\<^verbatim>\<open>_dispacth_new_conn\<close>: \<open>node\<close> and \<open>r\<close> are what the queue and the pipe of the worker use.\<close>

definition dispatch_new_conn ::
    "nat \<Rightarrow> sys_result \<Rightarrow> int \<Rightarrow> 's sig_server \<Rightarrow> 's sig_server option" where
  "dispatch_new_conn node r fd s =
     (let index = ss_next s;
          nxt = (if length (ss_workers s) \<le> Suc index then 0 else Suc index)
      in do { w \<leftarrow> at_index (ss_workers s) index;
              (_, w) \<leftarrow> notify_new_conn node fd r w;
              Some (s\<lparr>ss_next := nxt, ss_workers := (ss_workers s)[index := w]\<rparr>) })"

text \<open>The callback of the listening socket, over the results of \<^verbatim>\<open>accept\<close>.\<close>

definition accept_new_conn ::
    "(u32 \<Rightarrow> string) \<Rightarrow> sys_result list \<Rightarrow> u32 \<times> u16 \<Rightarrow> nat \<Rightarrow> sys_result \<Rightarrow> 's sig_server
      \<Rightarrow> 's sig_server option" where
  "accept_new_conn inet_ntoa rs sa node r s =
     do { (cfd, cip, cport) \<leftarrow> tcp_accept inet_ntoa rs sa;
          if cfd = -1 then Some s else dispatch_new_conn node r cfd s }"

section \<open>Shut-down\<close>

definition ss_stop_loop :: "sys_result \<Rightarrow> 's sig_server \<Rightarrow> 's sig_server" where
  "ss_stop_loop r s =
     (if \<not> ss_thread s then s
      else s\<lparr>ss_io_watcher := None, ss_pipe_watcher := None, ss_looping := False,
             ss_closed := ss_closed s @ [ss_recv_fd s, ss_send_fd s, ss_listen_fd s],
             ss_workers := map (sw_stop r) (ss_workers s)\<rparr>)"

definition ss_process_notify :: "sys_result \<Rightarrow> int \<Rightarrow> 's sig_server \<Rightarrow> 's sig_server" where
  "ss_process_notify r msg s = (if msg = SS_QUIT then ss_stop_loop r s else s)"

text \<open>
  The callback of the pipe goes on after a failed \<^verbatim>\<open>read\<close>: \<open>g\<close> is what the uninitialised \<^verbatim>\<open>msg\<close>
  holds then.
\<close>

definition signaling_server_recv_notify :: "int \<Rightarrow> sys_result \<Rightarrow> 's sig_server \<Rightarrow> 's sig_server" where
  "signaling_server_recv_notify g r s =
     (case ss_pipe s of
        [] \<Rightarrow> ss_process_notify r g s
      | msg # rest \<Rightarrow> ss_process_notify r msg (s\<lparr>ss_pipe := rest\<rparr>))"

definition ss_notify :: "sys_result \<Rightarrow> int \<Rightarrow> 's sig_server \<Rightarrow> int \<times> 's sig_server" where
  "ss_notify r msg s = (notify r, s\<lparr>ss_pipe := pipe_write r msg (ss_pipe s)\<rparr>)"

definition ss_stop :: "sys_result \<Rightarrow> 's sig_server \<Rightarrow> 's sig_server" where
  "ss_stop r s = snd (ss_notify r SS_QUIT s)"

section \<open>Round robin\<close>

fun dispatch_all :: "(nat \<times> sys_result \<times> int) list \<Rightarrow> 's sig_server \<Rightarrow> 's sig_server option" where
  "dispatch_all [] s = Some s"
| "dispatch_all ((node, r, fd) # xs) s = do { s \<leftarrow> dispatch_new_conn node r fd s; dispatch_all xs s }"

text \<open>Each new node of a queue is at an address the queues do not use.\<close>

fun fresh_nodes :: "(nat \<times> sys_result \<times> int) list \<Rightarrow> 's sig_server \<Rightarrow> bool" where
  "fresh_nodes [] s \<longleftrightarrow> True"
| "fresh_nodes ((node, r, fd) # xs) s \<longleftrightarrow>
     (\<forall>w \<in> set (ss_workers s). node \<notin> dom (nodes (sw_q_conn w))) \<and>
     (case dispatch_new_conn node r fd s of None \<Rightarrow> True | Some s' \<Rightarrow> fresh_nodes xs s')"

fun share :: "nat \<Rightarrow> nat \<Rightarrow> nat \<Rightarrow> 'a list \<Rightarrow> 'a list" where
  "share n i j [] = []"
| "share n i j (x # xs) = (if j mod n = i then [x] else []) @ share n i (Suc j) xs"

lemma share_snoc:
  "share n i j (xs @ [x]) = share n i j xs @ (if (j + length xs) mod n = i then [x] else [])"
  by (induction xs arbitrary: j) auto

lemma share_eq: "share n i 0 xs = map ((!) xs) (filter (\<lambda>k. k mod n = i) [0 ..< length xs])"
proof (induction xs rule: rev_induct)
  case (snoc x xs)
  have "map ((!) (xs @ [x])) (filter (\<lambda>k. k mod n = i) [0 ..< length xs]) =
      map ((!) xs) (filter (\<lambda>k. k mod n = i) [0 ..< length xs])"
    by (auto simp: nth_append)
  then show ?case using snoc by (simp add: share_snoc)
qed simp

abbreviation conn_queue :: "'s sig_server \<Rightarrow> nat \<Rightarrow> int list" where
  "conn_queue s i \<equiv> lfq_contents (sw_q_conn (ss_workers s ! i))"

lemma dispatch_spec:
  assumes "\<forall>w \<in> set (ss_workers s). lfq_inv (sw_q_conn w)" "ss_next s = j mod length (ss_workers s)"
    "ss_workers s \<noteq> []" "\<forall>w \<in> set (ss_workers s). node \<notin> dom (nodes (sw_q_conn w))"
  shows "\<exists>s'. dispatch_new_conn node r fd s = Some s' \<and> length (ss_workers s') = length (ss_workers s) \<and>
    (\<forall>w \<in> set (ss_workers s'). lfq_inv (sw_q_conn w)) \<and>
    ss_next s' = Suc j mod length (ss_workers s) \<and>
    (\<forall>i < length (ss_workers s). conn_queue s' i =
       conn_queue s i @ (if j mod length (ss_workers s) = i then [fd] else []))"
proof -
  let ?n = "length (ss_workers s)" and ?k = "ss_next s"
  have n: "0 < ?n" "?k < ?n" using assms(2,3) by auto
  let ?w = "ss_workers s ! ?k"
  have w: "lfq_inv (sw_q_conn ?w)" "node \<notin> dom (nodes (sw_q_conn ?w))"
    using assms(1,4) n(2) nth_mem by blast+
  obtain w' where w': "notify_new_conn node fd r ?w = Some (notify r, w')" "lfq_inv (sw_q_conn w')"
    "lfq_contents (sw_q_conn w') = lfq_contents (sw_q_conn ?w) @ [fd]"
    using conn_mailbox.send_ok [OF w] by blast
  have nx: "(if ?n \<le> Suc ?k then 0 else Suc ?k) = Suc j mod ?n"
    using n unfolding mod_Suc assms(2) [symmetric] by auto
  have "\<forall>w \<in> set ((ss_workers s)[?k := w']). lfq_inv (sw_q_conn w)"
    using assms(1) w'(2) set_update_subset_insert [of "ss_workers s" ?k w'] by blast
  then show ?thesis
    using n w' unfolding dispatch_new_conn_def Let_def nx
    by (simp add: nth_list_update assms(2) [symmetric])
qed

lemma dispatch_all_spec:
  assumes "\<forall>w \<in> set (ss_workers s). lfq_inv (sw_q_conn w)" "ss_next s = j mod length (ss_workers s)"
    "ss_workers s \<noteq> []" "fresh_nodes xs s"
  shows "\<exists>s'. dispatch_all xs s = Some s' \<and> length (ss_workers s') = length (ss_workers s) \<and>
    (\<forall>i < length (ss_workers s). conn_queue s' i =
       conn_queue s i @ share (length (ss_workers s)) i j (map (\<lambda>x. snd (snd x)) xs))"
  using assms
proof (induction xs arbitrary: s j)
  case (Cons x xs)
  obtain node r fd where x: "x = (node, r, fd)" by (cases x)
  obtain s1 where s1: "dispatch_new_conn node r fd s = Some s1"
    "length (ss_workers s1) = length (ss_workers s)" "\<forall>w \<in> set (ss_workers s1). lfq_inv (sw_q_conn w)"
    "ss_next s1 = Suc j mod length (ss_workers s)"
    "\<forall>i < length (ss_workers s). conn_queue s1 i =
       conn_queue s i @ (if j mod length (ss_workers s) = i then [fd] else [])"
    using dispatch_spec [OF Cons.prems(1-3), of node r fd] Cons.prems(4) x by auto
  have "fresh_nodes xs s1" "ss_workers s1 \<noteq> []" using Cons.prems(3,4) s1(1,2) x by auto
  then obtain s2 where "dispatch_all xs s1 = Some s2" "length (ss_workers s2) = length (ss_workers s1)"
    "\<forall>i < length (ss_workers s1). conn_queue s2 i =
       conn_queue s1 i @ share (length (ss_workers s1)) i (Suc j) (map (\<lambda>x. snd (snd x)) xs)"
    using Cons.IH [of s1 "Suc j"] s1(2-4) by auto
  then show ?case using s1 x by simp
qed simp

text \<open>
  C35: With \<open>n\<close> workers the \<open>k\<close>-th accepted connection goes to worker \<open>k mod n\<close>, in the order of
  acceptance, and no index ever leaves the vector.  With no worker (a configured \<^verbatim>\<open>worker_num\<close> of zero
  or less) the first connection does.\<close>

theorem dispatch_round_robin:
  assumes "ss_workers s = map (\<lambda>d. sig_worker_new timeout d) dummies" "ss_next s = 0" "fresh_nodes xs s"
  shows "if dummies = [] then xs \<noteq> [] \<longrightarrow> dispatch_all xs s = None
    else \<exists>s'. dispatch_all xs s = Some s' \<and>
      (\<forall>i < length dummies. conn_queue s' i =
        map ((!) (map (\<lambda>x. snd (snd x)) xs)) (filter (\<lambda>k. k mod length dummies = i) [0 ..< length xs]))"
proof (cases "dummies = []")
  case True
  have "dispatch_all xs s = None" if ne: "xs \<noteq> []"
  proof -
    obtain node r fd ys where "xs = (node, r, fd) # ys" using ne by (cases xs) auto
    then show ?thesis using True assms(1) by (simp add: dispatch_new_conn_def Let_def)
  qed
  then show ?thesis using True by simp
next
  case False
  have i: "\<forall>w \<in> set (ss_workers s). lfq_inv (sw_q_conn w)"
    using assms(1) by (auto simp: sig_worker_new_def)
  have e: "conn_queue s i = []" if "i < length dummies" for i
    using assms(1) that by (simp add: sig_worker_new_def)
  have "ss_next s = 0 mod length (ss_workers s)" "ss_workers s \<noteq> []"
    using assms(1,2) False by simp_all
  from dispatch_all_spec [OF i this assms(3)] obtain s' where "dispatch_all xs s = Some s'"
    "\<forall>i < length dummies. conn_queue s' i =
       conn_queue s i @ share (length dummies) i 0 (map (\<lambda>x. snd (snd x)) xs)"
    using assms(1) by auto
  then show ?thesis using False e by (auto simp: share_eq)
qed

definition sample_server :: "int sig_server" where
  "sample_server = sig_server_new\<lparr>ss_workers := map (\<lambda>d. sig_worker_new 60 d) [0, 0]\<rparr>"

lemma fresh_sample_nodes: "fresh_nodes [(1, Done 4, 5)] sample_server"
  by (auto simp: sample_server_def sig_worker_new_def lfq_new_def split: option.split)

theorem dispatch_round_robin_witness:
  "\<exists>s'. dispatch_all [(1, Done 4, 5)] sample_server = Some s' \<and> conn_queue s' 0 = [5] \<and> conn_queue s' 1 = []"
proof -
  have "ss_workers sample_server = map (\<lambda>d. sig_worker_new 60 d) [0, 0]" "ss_next sample_server = 0"
    by (simp_all add: sample_server_def sig_server_new_def)
  from dispatch_round_robin [OF this fresh_sample_nodes] obtain s' where
    "dispatch_all [(1, Done 4, 5)] sample_server = Some s'"
    "\<And>i. i < 2 \<Longrightarrow> conn_queue s' i =
       map ((!) (map (\<lambda>x. snd (snd x)) [(1 :: nat, Done 4, 5)])) (filter (\<lambda>k. k mod 2 = i) [0 ..< 1])"
    by auto
  then show ?thesis by (intro exI [of _ s']) simp
qed

text \<open>Start-up with a readable configuration creates the configured number of workers or fails.\<close>

lemma create_workers_length:
  "ss_create_workers env is s = (0, s') \<Longrightarrow> length (ss_workers s') = length (ss_workers s) + length is"
proof (induction "is" arbitrary: s)
  case (Cons i "is")
  obtain ret s1 where r: "ss_create_worker env i s = (ret, s1)" by fastforce
  with Cons.prems have ret: "ret = 0" and rest: "ss_create_workers env is s1 = (0, s')"
    by (auto split: if_splits)
  have "length (ss_workers s1) = Suc (length (ss_workers s))"
    using r ret by (auto simp: ss_create_worker_def split: prod.splits if_splits)
  then show ?case using Cons.IH [OF rest] by simp
qed simp

end
