(* ===== verification/Stun.thy ===== *)
theory Stun
  imports Rtc_Base
begin

text \<open>
  \<^verbatim>\<open>src/ice/stun.h\<close> and \<^verbatim>\<open>stun.cpp\<close>: STUN messages and their attributes, the writer
  with MESSAGE-INTEGRITY and FINGERPRINT, the reader, and the two validators that guard every packet
  that reaches the ICE layer.  Byte buffers, byte order, CRC32 and HMAC come from \<^verbatim>\<open>rtc_base\<close>
  (parameter \<open>rt\<close>).
\<close>

unbundle bit_operations_syntax

section \<open>Constants\<close>

abbreviation k_stun_header_size :: nat where "k_stun_header_size \<equiv> 20"
abbreviation k_stun_attribute_header_size :: nat where "k_stun_attribute_header_size \<equiv> 4"
abbreviation k_stun_magic_cookie :: u32 where "k_stun_magic_cookie \<equiv> 0x2112A442"
abbreviation k_stun_message_integrity_size :: nat where "k_stun_message_integrity_size \<equiv> 20"
abbreviation STUN_FINGERPRINT_XOR_VALUE :: u32 where "STUN_FINGERPRINT_XOR_VALUE \<equiv> 0x5354554e"

abbreviation STUN_BINDING_REQUEST :: u16 where "STUN_BINDING_REQUEST \<equiv> 0x0001"
abbreviation STUN_BINDING_RESPONSE :: u16 where "STUN_BINDING_RESPONSE \<equiv> 0x0101"
abbreviation STUN_BINDING_ERROR_RESPONSE :: u16 where "STUN_BINDING_ERROR_RESPONSE \<equiv> 0x0111"

abbreviation STUN_ATTR_USERNAME :: u16 where "STUN_ATTR_USERNAME \<equiv> 0x0006"
abbreviation STUN_ATTR_MESSAGE_INTEGRITY :: u16 where "STUN_ATTR_MESSAGE_INTEGRITY \<equiv> 0x0008"
abbreviation STUN_ATTR_ERROR_CODE :: u16 where "STUN_ATTR_ERROR_CODE \<equiv> 0x0009"
abbreviation STUN_ATTR_XOR_MAPPED_ADDRESS :: u16 where "STUN_ATTR_XOR_MAPPED_ADDRESS \<equiv> 0x0020"
abbreviation STUN_ATTR_PRIORITY :: u16 where "STUN_ATTR_PRIORITY \<equiv> 0x0024"
abbreviation STUN_ATTR_USE_CANDIDATE :: u16 where "STUN_ATTR_USE_CANDIDATE \<equiv> 0x0025"
abbreviation STUN_ATTR_FINGERPRINT :: u16 where "STUN_ATTR_FINGERPRINT \<equiv> 0x8028"
abbreviation STUN_ATTR_ICE_CONTROLLING :: u16 where "STUN_ATTR_ICE_CONTROLLING \<equiv> 0x802A"

abbreviation STUN_ERROR_BAD_REQUEST :: int where "STUN_ERROR_BAD_REQUEST \<equiv> 400"
abbreviation STUN_ERROR_UNAUTHORIZED :: int where "STUN_ERROR_UNAUTHORIZED \<equiv> 401"
abbreviation STUN_ERROR_UNKNOWN_ATTRIBUTE :: int where "STUN_ERROR_UNKNOWN_ATTRIBUTE \<equiv> 420"
abbreviation STUN_ERROR_SERVER_ERROR :: int where "STUN_ERROR_SERVER_ERROR \<equiv> 500"
abbreviation STUN_ERROR_GLOBAL_FALL :: int where "STUN_ERROR_GLOBAL_FALL \<equiv> 600"

section \<open>Attributes\<close>

text \<open>
  One constructor per concrete attribute class: the type, the \<^verbatim>\<open>_length\<close> member where the class does
  not fix it, and the value.  Each class has its own \<^verbatim>\<open>read\<close> and \<^verbatim>\<open>write\<close>.
\<close>

datatype stun_attr =
    ByteStringAttr u16 u16 string
  | UInt32Attr u16 u32
  | UInt64Attr u16 u64
  | AddressAttr u16 socket_address
  | XorAddressAttr u16 socket_address
  | ErrorCodeAttr u16 u16 u8 u8 string

datatype stun_value_type = STUN_VALUE_UNKNOWN | STUN_VALUE_UINT32 | STUN_VALUE_BYTE_STRING

datatype stun_address_family = STUN_ADDRESS_UNDEF | STUN_ADDRESS_IPV4 | STUN_ADDRESS_IPV6

definition address_family :: "socket_address \<Rightarrow> stun_address_family" where
  "address_family a = (case addr_family a of
     AF_INET \<Rightarrow> STUN_ADDRESS_IPV4 | AF_INET6 \<Rightarrow> STUN_ADDRESS_IPV6 | AF_UNSPEC \<Rightarrow> STUN_ADDRESS_UNDEF)"

primrec family_code :: "stun_address_family \<Rightarrow> u8" where
  "family_code STUN_ADDRESS_UNDEF = 0"
| "family_code STUN_ADDRESS_IPV4 = 1"
| "family_code STUN_ADDRESS_IPV6 = 2"

text \<open>The \<^verbatim>\<open>_length\<close> that \<^verbatim>\<open>set_address\<close> stores.\<close>

definition address_length :: "socket_address \<Rightarrow> u16" where
  "address_length a = (case address_family a of
     STUN_ADDRESS_IPV4 \<Rightarrow> 8 | STUN_ADDRESS_IPV6 \<Rightarrow> 20 | STUN_ADDRESS_UNDEF \<Rightarrow> 0)"

primrec attr_type :: "stun_attr \<Rightarrow> u16" where
  "attr_type (ByteStringAttr t l bs) = t"
| "attr_type (UInt32Attr t v) = t"
| "attr_type (UInt64Attr t v) = t"
| "attr_type (AddressAttr t a) = t"
| "attr_type (XorAddressAttr t a) = t"
| "attr_type (ErrorCodeAttr t l c n r) = t"

primrec attr_length :: "stun_attr \<Rightarrow> u16" where
  "attr_length (ByteStringAttr t l bs) = l"
| "attr_length (UInt32Attr t v) = 4"
| "attr_length (UInt64Attr t v) = 8"
| "attr_length (AddressAttr t a) = address_length a"
| "attr_length (XorAddressAttr t a) = address_length a"
| "attr_length (ErrorCodeAttr t l c n r) = l"

text \<open>\<^verbatim>\<open>StunByteStringAttribute(type, str)\<close>: \<^verbatim>\<open>copy_bytes\<close> sets the bytes and the length.\<close>

definition byte_string_attr :: "u16 \<Rightarrow> string \<Rightarrow> stun_attr" where
  "byte_string_attr t s = ByteStringAttr t (word_of_nat (length s)) s"

definition copy_bytes :: "string \<Rightarrow> stun_attr \<Rightarrow> stun_attr" where
  "copy_bytes s a = (case a of ByteStringAttr t l bs \<Rightarrow> ByteStringAttr t (word_of_nat (length s)) s
     | _ \<Rightarrow> a)"

definition set_value :: "u32 \<Rightarrow> stun_attr \<Rightarrow> stun_attr" where
  "set_value v a = (case a of UInt32Attr t b \<Rightarrow> UInt32Attr t v | _ \<Rightarrow> a)"

text \<open>\<^verbatim>\<open>create_error_code\<close> with \<^verbatim>\<open>MIN_SIZE\<close> 4, \<^verbatim>\<open>set_code\<close>, \<^verbatim>\<open>set_reason\<close>, \<^verbatim>\<open>code\<close>.\<close>

definition create_error_code :: stun_attr where
  "create_error_code = ErrorCodeAttr STUN_ATTR_ERROR_CODE 4 0 0 []"

definition set_code :: "nat \<Rightarrow> stun_attr \<Rightarrow> stun_attr" where
  "set_code code a = (case a of ErrorCodeAttr t l c n r \<Rightarrow>
       ErrorCodeAttr t l (word_of_nat (code div 100)) (word_of_nat (code mod 100)) r
     | _ \<Rightarrow> a)"

definition set_reason :: "string \<Rightarrow> stun_attr \<Rightarrow> stun_attr" where
  "set_reason reason a = (case a of ErrorCodeAttr t l c n r \<Rightarrow>
       ErrorCodeAttr t (word_of_nat (4 + length reason)) c n reason
     | _ \<Rightarrow> a)"

fun error_code :: "stun_attr \<Rightarrow> int option" where
  "error_code (ErrorCodeAttr t l c n r) = Some (uint c * 100 + uint n)"
| "error_code _ = None"

subsection \<open>Writing an attribute\<close>

definition write_padding :: "rtcbase \<Rightarrow> u16 \<Rightarrow> string \<Rightarrow> string" where
  "write_padding rt len buf =
     (let remain = unat len mod 4 in
      if remain > 0 then WriteBytes rt (replicate (4 - remain) (CHR 0x00)) buf else buf)"

definition address_write :: "rtcbase \<Rightarrow> socket_address \<Rightarrow> string \<Rightarrow> bool \<times> string" where
  "address_write rt a buf =
     (if address_family a = STUN_ADDRESS_UNDEF then (False, buf)
      else
        let buf = WriteUInt8 rt 0 buf;
            buf = WriteUInt8 rt (family_code (address_family a)) buf;
            buf = WriteUInt16 rt (sport a) buf
        in case ipaddr a of
             IPv4 v4 \<Rightarrow> (True, WriteBytes rt (mem32 v4) buf)
           | IPv6 v6 \<Rightarrow> (True, WriteBytes rt v6 buf)
           | IPUnspec \<Rightarrow> (False, buf))"

definition get_xored_ip :: "rtcbase \<Rightarrow> socket_address \<Rightarrow> ip_address" where
  "get_xored_ip rt a = (case ipaddr a of
     IPv4 v4 \<Rightarrow> IPv4 (v4 XOR HostToNetwork32 rt k_stun_magic_cookie)
   | IPv6 _ \<Rightarrow> IPUnspec
   | IPUnspec \<Rightarrow> IPUnspec)"

definition xor_address_write :: "rtcbase \<Rightarrow> socket_address \<Rightarrow> string \<Rightarrow> bool \<times> string" where
  "xor_address_write rt a buf =
     (if address_family a = STUN_ADDRESS_UNDEF then (False, buf)
      else if ip_family (get_xored_ip rt a) = AF_UNSPEC then (False, buf)
      else
        let buf = WriteUInt8 rt 0 buf;
            buf = WriteUInt8 rt (family_code (address_family a)) buf;
            buf = WriteUInt16 rt (sport a XOR ucast (drop_bit 16 k_stun_magic_cookie)) buf
        in case get_xored_ip rt a of
             IPv4 v4 \<Rightarrow> (True, WriteBytes rt (mem32 v4) buf)
           | IPv6 v6 \<Rightarrow> (True, WriteBytes rt v6 buf)
           | IPUnspec \<Rightarrow> (False, buf))"

text \<open>The virtual \<^verbatim>\<open>write\<close>: success and the buffer.\<close>

primrec attr_write :: "rtcbase \<Rightarrow> stun_attr \<Rightarrow> string \<Rightarrow> bool \<times> string" where
  "attr_write rt (ByteStringAttr t l bs) buf =
     (True, write_padding rt l (WriteBytes rt (take (unat l) bs) buf))"
| "attr_write rt (UInt32Attr t v) buf = (True, WriteUInt32 rt v buf)"
| "attr_write rt (UInt64Attr t v) buf = (True, WriteUInt64 rt v buf)"
| "attr_write rt (AddressAttr t a) buf = address_write rt a buf"
| "attr_write rt (XorAddressAttr t a) buf = xor_address_write rt a buf"
| "attr_write rt (ErrorCodeAttr t l c n r) buf =
     (True, write_padding rt l (WriteBytes rt r
        (WriteUInt32 rt (push_bit 8 (ucast c) OR ucast n) buf)))"

subsection \<open>Creating and reading an attribute\<close>

definition get_attrribute_value_type :: "u16 \<Rightarrow> stun_value_type" where
  "get_attrribute_value_type t =
     (if t = STUN_ATTR_USERNAME then STUN_VALUE_BYTE_STRING
      else if t = STUN_ATTR_MESSAGE_INTEGRITY then STUN_VALUE_BYTE_STRING
      else if t = STUN_ATTR_PRIORITY then STUN_VALUE_UINT32
      else STUN_VALUE_UNKNOWN)"

text \<open>\<^verbatim>\<open>StunAttribute::create\<close>: a fresh attribute object, \<open>None\<close> for \<^verbatim>\<open>nullptr\<close>.\<close>

definition stun_attr_create :: "stun_value_type \<Rightarrow> u16 \<Rightarrow> u16 \<Rightarrow> stun_attr option" where
  "stun_attr_create vt t len = (case vt of
     STUN_VALUE_BYTE_STRING \<Rightarrow> Some (ByteStringAttr t len [])
   | STUN_VALUE_UINT32 \<Rightarrow> Some (UInt32Attr t 0)
   | STUN_VALUE_UNKNOWN \<Rightarrow> None)"

definition create_attribute :: "u16 \<Rightarrow> u16 \<Rightarrow> stun_attr option" where
  "create_attribute t len =
     (let vt = get_attrribute_value_type t in
      if vt \<noteq> STUN_VALUE_UNKNOWN then stun_attr_create vt t len else None)"

text \<open>The result of \<^verbatim>\<open>Consume\<close> is ignored: on failure nothing is consumed.\<close>

definition consume_padding :: "rtcbase \<Rightarrow> u16 \<Rightarrow> string \<Rightarrow> string" where
  "consume_padding rt len s =
     (let remain = unat len mod 4 in
      if remain > 0 then (case Consume rt (4 - remain) s of None \<Rightarrow> s | Some s' \<Rightarrow> s') else s)"

text \<open>The virtual \<^verbatim>\<open>read\<close>: \<open>None\<close> when it returns false.\<close>

primrec attr_read :: "rtcbase \<Rightarrow> stun_attr \<Rightarrow> string \<Rightarrow> (stun_attr \<times> string) option" where
  "attr_read rt (ByteStringAttr t l bs) s =
     do { (b, s') \<leftarrow> ReadBytes rt (unat l) s; Some (ByteStringAttr t l b, consume_padding rt l s') }"
| "attr_read rt (UInt32Attr t v) s = do { (w, s') \<leftarrow> ReadUInt32 rt s; Some (UInt32Attr t w, s') }"
| "attr_read rt (UInt64Attr t v) s = do { (w, s') \<leftarrow> ReadUInt64 rt s; Some (UInt64Attr t w, s') }"
| "attr_read rt (AddressAttr t a) s = Some (AddressAttr t a, s)"
| "attr_read rt (XorAddressAttr t a) s = Some (XorAddressAttr t a, s)"
| "attr_read rt (ErrorCodeAttr t l c n r) s = None"

section \<open>Messages\<close>

datatype integrity_status = k_not_set | k_no_integrity | k_integrity_ok | k_integrity_bad

record stun_message =
  m_type :: u16
  m_length :: u16
  m_transaction_id :: string
  m_attrs :: "stun_attr list"
  m_integrity :: integrity_status
  m_password :: string
  m_buffer :: string

definition EMPTY_TRANSACTION_ID :: string where
  "EMPTY_TRANSACTION_ID = ''000000000000''"

definition stun_message_new :: stun_message where
  "stun_message_new = \<lparr>m_type = 0, m_length = 0, m_transaction_id = EMPTY_TRANSACTION_ID,
     m_attrs = [], m_integrity = k_not_set, m_password = [], m_buffer = []\<rparr>"

definition get_attribute :: "stun_message \<Rightarrow> u16 \<Rightarrow> stun_attr option" where
  "get_attribute m t = find (\<lambda>a. attr_type a = t) (m_attrs m)"

text \<open>
  \<^verbatim>\<open>get_error_code_value\<close>: the attribute found is cast to the error-code class without a check;
  the outer option is the fault of a wrong cast.
\<close>

definition get_error_code_value :: "stun_message \<Rightarrow> int option" where
  "get_error_code_value m = (case get_attribute m STUN_ATTR_ERROR_CODE of
     None \<Rightarrow> Some STUN_ERROR_GLOBAL_FALL
   | Some a \<Rightarrow> error_code a)"

definition padded :: "nat \<Rightarrow> nat" where
  "padded n = (if n mod 4 \<noteq> 0 then n + (4 - n mod 4) else n)"

definition add_attribute :: "stun_attr \<Rightarrow> stun_message \<Rightarrow> stun_message" where
  "add_attribute a m =
     m\<lparr>m_length := m_length m
          + word_of_nat (padded (unat (attr_length a)) + k_stun_attribute_header_size),
       m_attrs := m_attrs m @ [a]\<rparr>"

subsection \<open>Writing\<close>

primrec write_attrs :: "rtcbase \<Rightarrow> stun_attr list \<Rightarrow> string \<Rightarrow> bool \<times> string" where
  "write_attrs rt [] buf = (True, buf)"
| "write_attrs rt (a # as) buf =
     (let buf = WriteUInt16 rt (attr_type a) buf;
          buf = WriteUInt16 rt (attr_length a) buf;
          (ok, buf) = attr_write rt a buf
      in if ok then write_attrs rt as buf else (False, buf))"

definition stun_write :: "rtcbase \<Rightarrow> stun_message \<Rightarrow> string \<Rightarrow> bool \<times> string" where
  "stun_write rt m buf =
     (let buf = WriteUInt16 rt (m_type m) buf;
          buf = WriteUInt16 rt (m_length m) buf;
          buf = WriteUInt32 rt k_stun_magic_cookie buf;
          buf = WriteBytes rt (m_transaction_id m) buf
      in write_attrs rt (m_attrs m) buf)"

text \<open>
  \<^verbatim>\<open>_add_message_integrity_of_type\<close>: a placeholder attribute is added, the message is written, and
  the digest of what precedes the attribute is stored into it through the kept pointer.
\<close>

definition update_last :: "('a \<Rightarrow> 'a) \<Rightarrow> 'a list \<Rightarrow> 'a list" where
  "update_last f xs = (if xs = [] then [] else butlast xs @ [f (last xs)])"

definition add_message_integrity_of_type ::
    "rtcbase \<Rightarrow> u16 \<Rightarrow> nat \<Rightarrow> string \<Rightarrow> stun_message \<Rightarrow> bool \<times> stun_message" where
  "add_message_integrity_of_type rt ty attr_size key m =
     (let mi = byte_string_attr ty (replicate attr_size (CHR ''0''));
          m1 = add_attribute mi m;
          (ok, buf) = stun_write rt m1 []
      in if \<not> ok then (False, m1)
         else let msg_len = length buf - k_stun_attribute_header_size - unat (attr_length mi);
                  (ret, hmac) = ComputeHmac rt key (take msg_len buf)
              in if ret \<noteq> k_stun_message_integrity_size then (False, m1)
                 else (True, m1\<lparr>m_attrs := update_last (copy_bytes hmac) (m_attrs m1),
                               m_password := key, m_integrity := k_integrity_ok\<rparr>))"

definition add_message_integrity :: "rtcbase \<Rightarrow> string \<Rightarrow> stun_message \<Rightarrow> bool \<times> stun_message" where
  "add_message_integrity rt password m =
     add_message_integrity_of_type rt STUN_ATTR_MESSAGE_INTEGRITY k_stun_message_integrity_size
       password m"

definition add_fingerprint :: "rtcbase \<Rightarrow> stun_message \<Rightarrow> bool \<times> stun_message" where
  "add_fingerprint rt m =
     (let fp = UInt32Attr STUN_ATTR_FINGERPRINT 0;
          m1 = add_attribute fp m;
          (ok, buf) = stun_write rt m1 []
      in if \<not> ok then (False, m1)
         else let msg_len = length buf - k_stun_attribute_header_size - unat (attr_length fp);
                  ret = ComputeCrc32 rt (take msg_len buf)
              in (True, m1\<lparr>m_attrs :=
                    update_last (set_value (ret XOR STUN_FINGERPRINT_XOR_VALUE)) (m_attrs m1)\<rparr>))"

subsection \<open>Reading\<close>

text \<open>The length of a skipped attribute with its padding, in \<^verbatim>\<open>uint16_t\<close> arithmetic.\<close>

definition pad_u16 :: "u16 \<Rightarrow> u16" where
  "pad_u16 l = (if unat l mod 4 \<noteq> 0 then l + word_of_nat (4 - unat l mod 4) else l)"

text \<open>
  The attribute loop of \<^verbatim>\<open>StunMessage::read\<close>.  Whether it ends depends on the reader of
  \<^verbatim>\<open>rtc_base\<close>, so it is a partial function: \<open>None\<close> is not returning.  The result is the value
  returned and the attributes pushed so far.
\<close>

partial_function (option) read_attrs ::
    "rtcbase \<Rightarrow> stun_attr list \<Rightarrow> string \<Rightarrow> (bool \<times> stun_attr list) option" where
  "read_attrs rt attrs s =
     (if length s > 0 then
        (case ReadUInt16 rt s of
           None \<Rightarrow> Some (False, attrs)
         | Some (ty, s1) \<Rightarrow>
           (case ReadUInt16 rt s1 of
              None \<Rightarrow> Some (False, attrs)
            | Some (len, s2) \<Rightarrow>
              (case create_attribute ty len of
                 None \<Rightarrow>
                   (case Consume rt (unat (pad_u16 len)) s2 of
                         None \<Rightarrow> Some (False, attrs)
                       | Some s3 \<Rightarrow> read_attrs rt attrs s3)
               | Some a \<Rightarrow>
                   (case attr_read rt a s2 of
                      None \<Rightarrow> Some (False, attrs)
                    | Some (a', s3) \<Rightarrow> read_attrs rt (attrs @ [a']) s3))))
      else Some (True, attrs))"

definition stun_read :: "rtcbase \<Rightarrow> stun_message \<Rightarrow> string \<Rightarrow> (bool \<times> stun_message) option" where
  "stun_read rt m s =
     (let m = m\<lparr>m_buffer := s\<rparr> in
      case ReadUInt16 rt s of
        None \<Rightarrow> Some (False, m)
      | Some (ty, s1) \<Rightarrow>
        (let m = m\<lparr>m_type := ty\<rparr> in
         if ty AND 0x0800 \<noteq> 0 then Some (False, m)
         else case ReadUInt16 rt s1 of
           None \<Rightarrow> Some (False, m)
         | Some (len, s2) \<Rightarrow>
           (let m = m\<lparr>m_length := len\<rparr> in
            case ReadBytes rt 4 s2 of
              None \<Rightarrow> Some (False, m)
            | Some (magic_cookie, s3) \<Rightarrow>
              (case ReadBytes rt 12 s3 of
                 None \<Rightarrow> Some (False, m)
               | Some (tid, s4) \<Rightarrow>
                 (let tid = (if NetworkToHost32 rt (load32 magic_cookie) \<noteq> k_stun_magic_cookie
                             then magic_cookie @ tid else tid);
                      m = m\<lparr>m_transaction_id := tid\<rparr>
                  in if length s4 \<noteq> unat len then Some (False, m)
                     else do { (ok, attrs) \<leftarrow> read_attrs rt [] s4;
                               Some (ok, m\<lparr>m_attrs := attrs\<rparr>) })))))"

subsection \<open>Validating\<close>

definition validate_fingerprint :: "rtcbase \<Rightarrow> string \<Rightarrow> bool" where
  "validate_fingerprint rt data =
     (let len = length data; fp_size = k_stun_attribute_header_size + 4 in
      if len mod 4 \<noteq> 0 \<or> len < k_stun_header_size + fp_size then False
      else if GetBE32 rt (drop 4 data) \<noteq> k_stun_magic_cookie then False
      else
        let fp = drop (len - fp_size) data in
        if GetBE16 rt fp \<noteq> STUN_ATTR_FINGERPRINT \<or> GetBE16 rt (drop 2 fp) \<noteq> 4 then False
        else GetBE32 rt (drop k_stun_attribute_header_size fp) XOR STUN_FINGERPRINT_XOR_VALUE
             = ComputeCrc32 rt (take (len - fp_size) data))"

text \<open>The search for the attribute: \<open>None\<close> when it is not found.\<close>

function find_attr_pos :: "rtcbase \<Rightarrow> string \<Rightarrow> u16 \<Rightarrow> nat \<Rightarrow> nat option" where
  "find_attr_pos rt data ty pos =
     (if pos + k_stun_attribute_header_size \<le> length data then
        let attr_type = GetBE16 rt (drop pos data);
            attr_length = unat (GetBE16 rt (drop (pos + 2) data))
        in if attr_type = ty then Some pos
           else find_attr_pos rt data ty
                  (pos + (k_stun_attribute_header_size + attr_length)
                   + (if attr_length mod 4 \<noteq> 0 then 4 - attr_length mod 4 else 0))
      else None)"
  by pat_completeness auto
termination
  by (relation "measure (\<lambda>(rt, data, ty, pos). length data + 1 - pos)") auto

declare find_attr_pos.simps [simp del]

text \<open>\<open>None\<close>: \<^verbatim>\<open>memcmp\<close> reads past the end of the received bytes.\<close>

definition validate_message_integrity_of_type ::
    "rtcbase \<Rightarrow> u16 \<Rightarrow> nat \<Rightarrow> string \<Rightarrow> string \<Rightarrow> bool option" where
  "validate_message_integrity_of_type rt ty mi_attr_size data password =
     (let size = length data in
      if size mod 4 \<noteq> 0 \<or> size < k_stun_header_size then Some False
      else if unat (GetBE16 rt (drop 2 data)) + k_stun_header_size \<noteq> size then Some False
      else case find_attr_pos rt data ty k_stun_header_size of
        None \<Rightarrow> Some False
      | Some mi_pos \<Rightarrow>
          (let temp = take mi_pos data;
               temp =
                 (if size > mi_pos + k_stun_attribute_header_size + mi_attr_size then
                    (let extra_pos = mi_pos + k_stun_attribute_header_size + mi_attr_size;
                         extra_size = size - extra_pos;
                         adjust_new_len = size - extra_size - k_stun_header_size
                     in take 2 temp @ SetBE16 rt (word_of_nat adjust_new_len) (drop 2 temp))
                  else temp);
               (ret, hmac) = ComputeHmac rt password temp
           in if ret \<noteq> k_stun_message_integrity_size then Some False
              else let p = mi_pos + k_stun_attribute_header_size in
                   if p + mi_attr_size \<le> size
                   then Some (take mi_attr_size (drop p data) = take mi_attr_size hmac)
                   else None))"

definition validate_message_integrity ::
    "rtcbase \<Rightarrow> string \<Rightarrow> stun_message \<Rightarrow> (integrity_status \<times> stun_message) option" where
  "validate_message_integrity rt password m =
     (let m = m\<lparr>m_password := password\<rparr> in
      if get_attribute m STUN_ATTR_MESSAGE_INTEGRITY \<noteq> None then
        do { ok \<leftarrow> validate_message_integrity_of_type rt STUN_ATTR_MESSAGE_INTEGRITY
                    k_stun_message_integrity_size (m_buffer m) password;
             (let st = (if ok then k_integrity_ok else k_integrity_bad)
              in Some (st, m\<lparr>m_integrity := st\<rparr>)) }
      else Some (k_no_integrity, m\<lparr>m_integrity := k_no_integrity\<rparr>))"

definition integrity_ok :: "stun_message \<Rightarrow> bool" where
  "integrity_ok m \<longleftrightarrow> m_integrity m = k_integrity_ok"

subsection \<open>Message types\<close>

text \<open>The \<^verbatim>\<open>int\<close> arguments and results as their 32-bit patterns; \<open>-1\<close> is the error.\<close>

definition is_stun_request_type :: "u32 \<Rightarrow> bool" where
  "is_stun_request_type req_type \<longleftrightarrow> req_type AND 0x0110 = 0"

definition get_stun_success_response :: "u32 \<Rightarrow> u32" where
  "get_stun_success_response req_type =
     (if is_stun_request_type req_type then req_type OR 0x100 else -1)"

definition get_stun_error_response :: "u32 \<Rightarrow> u32" where
  "get_stun_error_response req_type =
     (if is_stun_request_type req_type then req_type OR 0x110 else -1)"


definition stun_method_to_string :: "int \<Rightarrow> string" where
  "stun_method_to_string ty =
     (if ty = uint STUN_BINDING_REQUEST then ''BINDING REQUEST''
      else if ty = uint STUN_BINDING_RESPONSE then ''BINDING RESPONSE''
      else if ty = uint STUN_BINDING_ERROR_RESPONSE then ''BINDING ERROR_RESPONSE''
      else ''Unknown<'' @ dec_int ty @ ''>'')"

end
