(* ===== verification/Stun_Wire.thy ===== *)
theory Stun_Wire
  imports Stun
begin

text \<open>
  The wire format that the writer of \<open>Stun\<close> produces, as a specification (\<open>attr_enc\<close>,
  \<open>stun_header\<close>), the reader as its inverse, and the properties of messages on the wire: length
  bookkeeping, fingerprint, message integrity, and what the reader accepts.
\<close>

unbundle bit_operations_syntax

section \<open>Sizes\<close>

lemma unat_u16 [simp]: "n < 65536 \<Longrightarrow> unat (word_of_nat n :: u16) = n"
  by (simp add: unat_of_nat take_bit_nat_eq_self)

lemma padded_mod4 [simp]: "padded n mod 4 = 0"
  by (simp add: padded_def) presburger

lemma padded_ge: "n \<le> padded n"
  unfolding padded_def by presburger

lemma padded_lt: "padded n < n + 4"
  unfolding padded_def by presburger

lemma padded_mult4 [simp]: "n mod 4 = 0 \<Longrightarrow> padded n = n"
  by (simp add: padded_def)

definition attr_size :: "stun_attr \<Rightarrow> nat" where
  "attr_size a = 4 + padded (unat (attr_length a))"

abbreviation attrs_size :: "stun_attr list \<Rightarrow> nat" where
  "attrs_size as \<equiv> sum_list (map attr_size as)"

lemma attrs_size_mod4 [simp]: "attrs_size as mod 4 = 0"
proof (induction as)
  case (Cons a as)
  have "attr_size a mod 4 = 0" by (simp add: attr_size_def mod_add_eq [symmetric])
  then show ?case using Cons by (simp add: mod_add_eq [symmetric])
qed simp

section \<open>The encoding\<close>

definition pad_bytes :: "nat \<Rightarrow> string" where
  "pad_bytes n = replicate (padded n - n) (CHR 0x00)"

primrec attr_body :: "rtcbase \<Rightarrow> stun_attr \<Rightarrow> string" where
  "attr_body rt (ByteStringAttr t l bs) = take (unat l) bs @ pad_bytes (unat l)"
| "attr_body rt (UInt32Attr t v) = be_chars 4 (unat v)"
| "attr_body rt (UInt64Attr t v) = be_chars 8 (unat v)"
| "attr_body rt (AddressAttr t a) = snd (address_write rt a [])"
| "attr_body rt (XorAddressAttr t a) = snd (xor_address_write rt a [])"
| "attr_body rt (ErrorCodeAttr t l c n r) =
     be_chars 4 (unat (push_bit 8 (ucast c) OR ucast n :: u32)) @ r @ pad_bytes (unat l)"

text \<open>Attributes as the constructors and setters of the code build them, with a writable value.\<close>

fun attr_wf :: "stun_attr \<Rightarrow> bool" where
  "attr_wf (ByteStringAttr t l bs) \<longleftrightarrow> length bs = unat l"
| "attr_wf (UInt32Attr t v) \<longleftrightarrow> True"
| "attr_wf (UInt64Attr t v) \<longleftrightarrow> True"
| "attr_wf (AddressAttr t a) \<longleftrightarrow> addr_family a = AF_INET"
| "attr_wf (XorAddressAttr t a) \<longleftrightarrow> addr_family a = AF_INET"
| "attr_wf (ErrorCodeAttr t l c n r) \<longleftrightarrow> unat l = 4 + length r"

definition attr_enc :: "rtcbase \<Rightarrow> stun_attr \<Rightarrow> string" where
  "attr_enc rt a =
     be_chars 2 (unat (attr_type a)) @ be_chars 2 (unat (attr_length a)) @ attr_body rt a"

abbreviation attrs_enc :: "rtcbase \<Rightarrow> stun_attr list \<Rightarrow> string" where
  "attrs_enc rt as \<equiv> concat (map (attr_enc rt) as)"

definition stun_header :: "u16 \<Rightarrow> u16 \<Rightarrow> string \<Rightarrow> string" where
  "stun_header ty len tid =
     be_chars 2 (unat ty) @ be_chars 2 (unat len) @ be_chars 4 (unat k_stun_magic_cookie) @ tid"

lemma length_stun_header [simp]: "length (stun_header ty len tid) = 8 + length tid"
  by (simp add: stun_header_def)

lemma write_padding_eq:
  "byte_buffer_ok rt \<Longrightarrow> write_padding rt l buf = buf @ pad_bytes (unat l)"
  by (simp add: write_padding_def pad_bytes_def padded_def grtc_simps Let_def)

lemma address_write_eq:
  "byte_buffer_ok rt \<Longrightarrow> addr_family a = AF_INET \<Longrightarrow>
     address_write rt a buf = (True, buf @ snd (address_write rt a [])) \<and>
     length (snd (address_write rt a [])) = 8"
  by (cases "ipaddr a") (simp_all add: address_write_def address_family_def grtc_simps)

lemma xor_address_write_eq:
  "byte_buffer_ok rt \<Longrightarrow> addr_family a = AF_INET \<Longrightarrow>
     xor_address_write rt a buf = (True, buf @ snd (xor_address_write rt a [])) \<and>
     length (snd (xor_address_write rt a [])) = 8"
  by (cases "ipaddr a") (simp_all add: xor_address_write_def address_family_def get_xored_ip_def grtc_simps)

lemma attr_write_eq:
  "byte_buffer_ok rt \<Longrightarrow> attr_wf a \<Longrightarrow> attr_write rt a buf = (True, buf @ attr_body rt a)"
  by (cases a) (simp_all add: write_padding_eq address_write_eq [of rt _ buf]
      xor_address_write_eq [of rt _ buf] grtc_simps)

lemma length_attr_body:
  "byte_buffer_ok rt \<Longrightarrow> attr_wf a \<Longrightarrow> length (attr_body rt a) = padded (unat (attr_length a))"
proof (cases a)
  case (AddressAttr t ad)
  assume "byte_buffer_ok rt" "attr_wf a"
  then show ?thesis using AddressAttr address_write_eq [of rt ad "[]"]
    by (cases "ipaddr ad") (simp_all add: address_length_def address_family_def)
next
  case (XorAddressAttr t ad)
  assume "byte_buffer_ok rt" "attr_wf a"
  then show ?thesis using XorAddressAttr xor_address_write_eq [of rt ad "[]"]
    by (cases "ipaddr ad") (simp_all add: address_length_def address_family_def)
next
  case (ErrorCodeAttr t l c n r)
  assume "attr_wf a"
  then show ?thesis using ErrorCodeAttr padded_ge [of "4 + length r"] by (simp add: pad_bytes_def)
qed (use padded_ge in \<open>auto simp: pad_bytes_def\<close>)

lemma length_attr_enc [simp]:
  "byte_buffer_ok rt \<Longrightarrow> attr_wf a \<Longrightarrow> length (attr_enc rt a) = attr_size a"
  by (simp add: attr_enc_def length_attr_body attr_size_def)

lemma length_attrs_enc [simp]:
  "byte_buffer_ok rt \<Longrightarrow> \<forall>a \<in> set as. attr_wf a \<Longrightarrow> length (attrs_enc rt as) = attrs_size as"
  by (induction as) simp_all

lemma write_attrs_eq:
  "byte_buffer_ok rt \<Longrightarrow> \<forall>a \<in> set as. attr_wf a \<Longrightarrow>
     write_attrs rt as buf = (True, buf @ attrs_enc rt as)"
  by (induction as arbitrary: buf) (simp_all add: attr_write_eq attr_enc_def grtc_simps)

lemma stun_write_eq:
  "byte_buffer_ok rt \<Longrightarrow> \<forall>a \<in> set (m_attrs m). attr_wf a \<Longrightarrow>
     stun_write rt m buf =
       (True, buf @ stun_header (m_type m) (m_length m) (m_transaction_id m) @ attrs_enc rt (m_attrs m))"
  by (simp add: stun_write_def write_attrs_eq stun_header_def grtc_simps)

section \<open>The length field\<close>

text \<open>\<open>_length\<close> counts the bytes after the header, as long as they fit 16 bits.\<close>

definition msg_wf :: "stun_message \<Rightarrow> bool" where
  "msg_wf m \<longleftrightarrow> length (m_transaction_id m) = 12 \<and> (\<forall>a \<in> set (m_attrs m). attr_wf a) \<and>
     unat (m_length m) = attrs_size (m_attrs m)"

lemma unat_add_u16: "unat a + n < 65536 \<Longrightarrow> unat (a + word_of_nat n :: u16) = unat a + n"
  by (simp add: unat_word_ariths unat_of_nat take_bit_nat_eq_self)

lemma add_attribute_wf:
  "msg_wf m \<Longrightarrow> attr_wf a \<Longrightarrow> attrs_size (m_attrs m) + attr_size a < 65536 \<Longrightarrow>
     msg_wf (add_attribute a m)"
  using unat_add_u16 [of "m_length m" "padded (unat (attr_length a)) + 4"]
  by (simp add: msg_wf_def add_attribute_def attr_size_def)

lemma msg_wf_new [simp]: "msg_wf stun_message_new"
  by (simp add: msg_wf_def stun_message_new_def EMPTY_TRANSACTION_ID_def)

lemma attr_wf_byte_string: "length s < 65536 \<Longrightarrow> attr_wf (byte_string_attr t s)"
  by (simp add: byte_string_attr_def)

section \<open>What the two signing operations add\<close>

definition mi_input :: "rtcbase \<Rightarrow> stun_message \<Rightarrow> string" where
  "mi_input rt m = stun_header (m_type m) (m_length m + 24) (m_transaction_id m)
     @ attrs_enc rt (m_attrs m)"

definition fp_input :: "rtcbase \<Rightarrow> stun_message \<Rightarrow> string" where
  "fp_input rt m = stun_header (m_type m) (m_length m + 8) (m_transaction_id m)
     @ attrs_enc rt (m_attrs m)"

definition mi_attr :: "string \<Rightarrow> stun_attr" where
  "mi_attr h = ByteStringAttr STUN_ATTR_MESSAGE_INTEGRITY 20 h"

definition fp_attr :: "rtcbase \<Rightarrow> string \<Rightarrow> stun_attr" where
  "fp_attr rt d = UInt32Attr STUN_ATTR_FINGERPRINT (ComputeCrc32 rt d XOR STUN_FINGERPRINT_XOR_VALUE)"

lemma update_last_append [simp]: "update_last f (xs @ [x]) = xs @ [f x]"
  by (simp add: update_last_def)

lemma mi_placeholder:
  "byte_string_attr STUN_ATTR_MESSAGE_INTEGRITY (replicate 20 c) = mi_attr (replicate 20 c)"
  by (simp add: byte_string_attr_def mi_attr_def)

lemma mi_attr_wf [simp]: "length h = 20 \<Longrightarrow> attr_wf (mi_attr h)"
  "attr_type (mi_attr h) = STUN_ATTR_MESSAGE_INTEGRITY" "attr_length (mi_attr h) = 20"
  "attr_size (mi_attr h) = 24" "length h = 20 \<Longrightarrow> copy_bytes h (mi_attr h') = mi_attr h"
  by (simp_all add: mi_attr_def attr_size_def copy_bytes_def)

lemma fp_attr_simps [simp]: "attr_wf (fp_attr rt d)"
  "attr_type (fp_attr rt d) = STUN_ATTR_FINGERPRINT" "attr_length (fp_attr rt d) = 4"
  "attr_size (fp_attr rt d) = 8"
  by (simp_all add: fp_attr_def attr_size_def)

lemma add_message_integrity_eq:
  assumes "byte_buffer_ok rt" "hmac_ok rt" "\<forall>a \<in> set (m_attrs m). attr_wf a"
  shows "add_message_integrity rt pwd m =
    (True, m\<lparr>m_length := m_length m + 24,
             m_attrs := m_attrs m @ [mi_attr (snd (ComputeHmac rt pwd (mi_input rt m)))],
             m_integrity := k_integrity_ok, m_password := pwd\<rparr>)"
proof -
  let ?m1 = "add_attribute (mi_attr (replicate 20 (CHR ''0''))) m"
  have m1: "?m1 = m\<lparr>m_length := m_length m + 24, m_attrs := m_attrs m @ [mi_attr (replicate 20 (CHR ''0''))]\<rparr>"
    by (simp add: add_attribute_def)
  let ?buf = "mi_input rt m @ attr_enc rt (mi_attr (replicate 20 (CHR ''0'')))"
  have w: "stun_write rt ?m1 [] = (True, ?buf)"
    using assms by (simp add: stun_write_eq m1 mi_input_def)
  have "take (length ?buf - 4 - 20) ?buf = mi_input rt m"
    using assms by simp
  moreover obtain h where "ComputeHmac rt pwd (mi_input rt m) = (20, h)" "length h = 20"
    using hmac_simps [OF assms(2), of pwd "mi_input rt m"]
    by (cases "ComputeHmac rt pwd (mi_input rt m)") simp
  ultimately show ?thesis
    using w m1
    by (simp add: add_message_integrity_def add_message_integrity_of_type_def mi_placeholder Let_def)
qed

lemma add_fingerprint_eq:
  assumes "byte_buffer_ok rt" "\<forall>a \<in> set (m_attrs m). attr_wf a"
  shows "add_fingerprint rt m =
    (True, m\<lparr>m_length := m_length m + 8, m_attrs := m_attrs m @ [fp_attr rt (fp_input rt m)]\<rparr>)"
proof -
  let ?fp = "UInt32Attr STUN_ATTR_FINGERPRINT 0"
  let ?m1 = "add_attribute ?fp m"
  have m1: "?m1 = m\<lparr>m_length := m_length m + 8, m_attrs := m_attrs m @ [?fp]\<rparr>"
    by (simp add: add_attribute_def)
  let ?buf = "fp_input rt m @ attr_enc rt ?fp"
  have w: "stun_write rt ?m1 [] = (True, ?buf)"
    using assms by (simp add: stun_write_eq m1 fp_input_def)
  have "take (length ?buf - 4 - 4) ?buf = fp_input rt m"
    using assms by (simp add: attr_size_def)
  then show ?thesis
    using w m1 by (simp add: add_fingerprint_def Let_def fp_attr_def set_value_def)
qed

text \<open>A message signed by both, as bytes.\<close>

definition signed_bytes :: "rtcbase \<Rightarrow> string \<Rightarrow> stun_message \<Rightarrow> string" where
  "signed_bytes rt pwd m =
     (let h = snd (ComputeHmac rt pwd (mi_input rt m));
          pre = stun_header (m_type m) (m_length m + 32) (m_transaction_id m)
                @ attrs_enc rt (m_attrs m) @ attr_enc rt (mi_attr h)
      in pre @ attr_enc rt (fp_attr rt pre))"

lemma signed_write:
  assumes "byte_buffer_ok rt" "hmac_ok rt" "\<forall>a \<in> set (m_attrs m). attr_wf a"
    and "add_message_integrity rt pwd m = (ok1, m1)" "add_fingerprint rt m1 = (ok2, m2)"
  shows "ok1 \<and> ok2 \<and> stun_write rt m2 [] = (True, signed_bytes rt pwd m) \<and>
    m_integrity m2 = k_integrity_ok"
proof -
  have m1: "ok1" "m1 = m\<lparr>m_length := m_length m + 24,
      m_attrs := m_attrs m @ [mi_attr (snd (ComputeHmac rt pwd (mi_input rt m)))],
      m_integrity := k_integrity_ok, m_password := pwd\<rparr>"
    using add_message_integrity_eq [OF assms(1,2,3), of pwd] assms(4) by simp_all
  have wf1: "\<forall>a \<in> set (m_attrs m1). attr_wf a"
    using assms(2,3) by (auto simp: m1(2) hmac_simps)
  from add_fingerprint_eq [OF assms(1) wf1] assms(5)
  have m2: "ok2" "m2 = m1\<lparr>m_length := m_length m1 + 8,
      m_attrs := m_attrs m1 @ [fp_attr rt (fp_input rt m1)]\<rparr>" by simp_all
  have "\<forall>a \<in> set (m_attrs m2). attr_wf a" using wf1 by (auto simp: m2(2))
  from stun_write_eq [OF assms(1) this, of "[]"] m1 m2 show ?thesis
    by (simp add: signed_bytes_def fp_input_def Let_def add.assoc)
qed

section \<open>The fingerprint check accepts\<close>

lemma be_nat_take_be_chars [simp]:
  "be_nat (take 2 (be_chars 2 (unat (w16 :: u16)) @ s)) = unat w16"
  "be_nat (take 4 (be_chars 4 (unat (w32 :: u32)) @ s)) = unat w32"
  by simp_all

lemma xor_cancel: "(a XOR b) XOR b = (a :: 'a::len word)"
  by (rule bit_eqI) (auto simp: bit_xor_iff)

lemma fp_accept:
  assumes "byte_order_ok rt" "length tid = 12" "length body mod 4 = 0"
    and "pre = stun_header ty len tid @ body"
  shows "validate_fingerprint rt (pre @ attr_enc rt (fp_attr rt pre))"
proof -
  let ?fp = "attr_enc rt (fp_attr rt pre)"
  have fp: "?fp = be_chars 2 (unat STUN_ATTR_FINGERPRINT) @ be_chars 2 (unat (4 :: u16))
      @ be_chars 4 (unat (ComputeCrc32 rt pre XOR STUN_FINGERPRINT_XOR_VALUE))"
    by (simp add: attr_enc_def fp_attr_def)
  have lfp: "length ?fp = 8" by (simp add: fp)
  have len: "length (pre @ ?fp) = length pre + 8" "length pre = 20 + length body"
    using lfp assms(2,4) by simp_all
  have d: "drop (length (pre @ ?fp) - (4 + 4)) (pre @ ?fp) = ?fp"
    "take (length (pre @ ?fp) - (4 + 4)) (pre @ ?fp) = pre" using lfp by simp_all
  have c: "drop 4 (pre @ ?fp) = be_chars 4 (unat k_stun_magic_cookie) @ tid @ body @ ?fp"
    by (simp add: assms(4) stun_header_def)
  have m: "length (pre @ ?fp) mod 4 = 0"
    using len assms(3) by presburger
  have "GetBE32 rt (drop 4 (pre @ ?fp)) = k_stun_magic_cookie"
    using byte_order_simps(2) [OF assms(1), of "drop 4 (pre @ ?fp)"] unfolding c by simp
  moreover have "GetBE16 rt ?fp = STUN_ATTR_FINGERPRINT"
    "GetBE16 rt (drop 2 ?fp) = 4"
    "GetBE32 rt (drop 4 ?fp) = ComputeCrc32 rt pre XOR STUN_FINGERPRINT_XOR_VALUE"
    using assms(1) by (simp_all add: fp byte_order_simps)
  ultimately show ?thesis
    using m len unfolding validate_fingerprint_def Let_def d
    by (simp add: xor_cancel)
qed

section \<open>The reader inverts the writer\<close>

definition known_attr :: "stun_attr \<Rightarrow> bool" where
  "known_attr a \<longleftrightarrow> get_attrribute_value_type (attr_type a) \<noteq> STUN_VALUE_UNKNOWN"

text \<open>The class of an attribute is the one the reader creates for its type.\<close>

fun attr_typed :: "stun_attr \<Rightarrow> bool" where
  "attr_typed (ByteStringAttr t l bs) \<longleftrightarrow> get_attrribute_value_type t \<noteq> STUN_VALUE_UINT32"
| "attr_typed (UInt32Attr t v) \<longleftrightarrow> get_attrribute_value_type t \<noteq> STUN_VALUE_BYTE_STRING"
| "attr_typed a \<longleftrightarrow> get_attrribute_value_type (attr_type a) = STUN_VALUE_UNKNOWN"

lemma unat_pad_u16: "padded (unat l) < 65536 \<Longrightarrow> unat (pad_u16 l) = padded (unat l)"
  using unat_add_u16 [of l "4 - unat l mod 4"] unfolding pad_u16_def padded_def by presburger

lemma create_attribute_known:
  "create_attribute t l =
     (case get_attrribute_value_type t of STUN_VALUE_UNKNOWN \<Rightarrow> None
      | STUN_VALUE_UINT32 \<Rightarrow> Some (UInt32Attr t 0)
      | STUN_VALUE_BYTE_STRING \<Rightarrow> Some (ByteStringAttr t l []))"
  by (simp add: create_attribute_def stun_attr_create_def split: stun_value_type.split)

lemma read_attrs_head:
  assumes "byte_buffer_ok rt"
  shows "read_attrs rt acc (be_chars 2 (unat ty) @ be_chars 2 (unat len) @ s) =
    (case create_attribute ty len of
       None \<Rightarrow>
         (case Consume rt (unat (pad_u16 len)) s of
               None \<Rightarrow> Some (False, acc)
             | Some s3 \<Rightarrow> read_attrs rt acc s3)
     | Some a \<Rightarrow>
         (case attr_read rt a s of
            None \<Rightarrow> Some (False, acc)
          | Some (a', s3) \<Rightarrow> read_attrs rt (acc @ [a']) s3))"
  using assms by (subst read_attrs.simps) (simp add: grtc_simps)

lemma consume_padding_enc:
  "byte_buffer_ok rt \<Longrightarrow> consume_padding rt l (pad_bytes (unat l) @ s) = s"
  by (simp add: consume_padding_def pad_bytes_def padded_def Let_def grtc_simps)

lemma read_attrs_enc1:
  assumes rt: "byte_buffer_ok rt" and wf: "attr_wf a" "attr_typed a" "padded (unat (attr_length a)) < 65536"
  shows "read_attrs rt acc (attr_enc rt a @ s) =
    read_attrs rt (if known_attr a then acc @ [a] else acc) s"
proof (cases "get_attrribute_value_type (attr_type a)")
  case STUN_VALUE_UNKNOWN
  have "length (attr_body rt a @ s) = padded (unat (attr_length a)) + length s"
    using length_attr_body [OF rt wf(1)] by simp
  moreover have "drop (padded (unat (attr_length a))) (attr_body rt a @ s) = s"
    using length_attr_body [OF rt wf(1)] by simp
  ultimately show ?thesis
    using STUN_VALUE_UNKNOWN rt wf(3)
    by (simp add: attr_enc_def read_attrs_head create_attribute_known known_attr_def Let_def
        unat_pad_u16 grtc_simps del: drop_append)
next
  case STUN_VALUE_UINT32
  with wf(2) obtain v where "a = UInt32Attr (attr_type a) v" by (cases a) auto
  then show ?thesis
    using STUN_VALUE_UINT32 rt read_attrs_head [OF rt, of acc "attr_type a" 4 "be_chars 4 (unat v) @ s"]
    by (cases a) (simp_all add: attr_enc_def create_attribute_known known_attr_def grtc_simps)
next
  case STUN_VALUE_BYTE_STRING
  with wf(2) obtain l bs where a: "a = ByteStringAttr (attr_type a) l bs" by (cases a) auto
  obtain t where a': "a = ByteStringAttr t l bs" using a by blast
  show ?thesis
    using STUN_VALUE_BYTE_STRING rt wf(1) consume_padding_enc [OF rt, of l s]
    by (simp add: a' attr_enc_def read_attrs_head create_attribute_known known_attr_def grtc_simps)
qed

lemma read_attrs_enc:
  "byte_buffer_ok rt \<Longrightarrow> \<forall>a \<in> set as. attr_wf a \<and> attr_typed a \<and> padded (unat (attr_length a)) < 65536 \<Longrightarrow>
   read_attrs rt acc (attrs_enc rt as @ s) = read_attrs rt (acc @ filter known_attr as) s"
  by (induction as arbitrary: acc) (simp_all add: read_attrs_enc1)

lemma read_attrs_Nil [simp]: "read_attrs rt acc [] = Some (True, acc)"
  by (simp add: read_attrs.simps)

lemma attr_size_le: "a \<in> set as \<Longrightarrow> attr_size a \<le> attrs_size as"
  by (simp add: member_le_sum_list)

lemma stun_read_enc:
  assumes "byte_buffer_ok rt" "byte_order_ok rt" "length tid = 12" "ty AND 0x0800 = 0"
    and "\<forall>a \<in> set as. attr_wf a \<and> attr_typed a" "unat len = attrs_size as"
    and "s = stun_header ty len tid @ attrs_enc rt as"
  shows "stun_read rt m0 s = Some (True, m0\<lparr>m_buffer := s, m_type := ty, m_length := len,
    m_transaction_id := tid, m_attrs := filter known_attr as\<rparr>)"
proof -
  have len: "length (attrs_enc rt as) = unat len" using assms(1,5,6) by simp
  have small: "padded (unat (attr_length a)) < 65536" if "a \<in> set as" for a
    using attr_size_le [OF that] assms(6) unsigned_less [of len, where 'a = nat]
    by (simp add: attr_size_def)
  have "read_attrs rt [] (attrs_enc rt as) = Some (True, filter known_attr as)"
    using read_attrs_enc [OF assms(1), of as "[]" "[]"] assms(5) small by simp
  moreover have "NetworkToHost32 rt (load32 (be_chars 4 554869826)) = k_stun_magic_cookie"
    using assms(2) by (simp add: byte_order_simps)
  ultimately show ?thesis
    using assms(1,3,4) len
    by (simp add: stun_read_def assms(7) stun_header_def grtc_simps Let_def)
qed

section \<open>The integrity check\<close>

lemma attr_enc_head: "attr_enc rt a @ s =
    be_chars 2 (unat (attr_type a)) @ be_chars 2 (unat (attr_length a)) @ attr_body rt a @ s"
  by (simp add: attr_enc_def)

lemma get_attr_head:
  assumes "byte_order_ok rt"
  shows "GetBE16 rt (attr_enc rt a @ s) = attr_type a"
    and "GetBE16 rt (drop 2 (attr_enc rt a @ s)) = attr_length a"
  using assms by (simp_all add: attr_enc_head byte_order_simps)

lemma find_attr_pos_hit:
  assumes "byte_order_ok rt" "byte_buffer_ok rt" "attr_wf a"
  shows "find_attr_pos rt (pre @ attr_enc rt a @ s) (attr_type a) (length pre) = Some (length pre)"
  using get_attr_head(1) [OF assms(1), of a s] length_attr_enc [OF assms(2,3)]
  by (subst find_attr_pos.simps) (simp add: attr_size_def)

lemma find_attr_pos_miss:
  assumes "byte_order_ok rt" "byte_buffer_ok rt" "attr_wf a" "attr_type a \<noteq> ty"
  shows "find_attr_pos rt (pre @ attr_enc rt a @ s) ty (length pre) =
    find_attr_pos rt (pre @ attr_enc rt a @ s) ty (length (pre @ attr_enc rt a))"
proof -
  have l: "length (attr_enc rt a) = 4 + padded (unat (attr_length a))"
    using length_attr_enc [OF assms(2,3)] by (simp add: attr_size_def)
  have g: "GetBE16 rt (drop (length pre + 2) (pre @ attr_enc rt a @ s)) = attr_length a"
    using get_attr_head(2) [OF assms(1), of a s] by simp
  show ?thesis
    using get_attr_head(1) [OF assms(1), of a s] g l assms(4)
    by (subst find_attr_pos.simps) (simp add: padded_def add.assoc add.commute Let_def)
qed

lemma find_attr_pos_enc:
  assumes "byte_order_ok rt" "byte_buffer_ok rt" "attr_wf a"
    and "\<forall>b \<in> set as. attr_wf b \<and> attr_type b \<noteq> attr_type a"
  shows "find_attr_pos rt (pre @ attrs_enc rt as @ attr_enc rt a @ s) (attr_type a) (length pre) =
    Some (length pre + attrs_size as)"
  using assms(4)
proof (induction as arbitrary: pre)
  case Nil
  then show ?case using find_attr_pos_hit [OF assms(1-3)] by simp
next
  case (Cons b as)
  let ?r = "attrs_enc rt as @ attr_enc rt a @ s"
  have "find_attr_pos rt (pre @ attr_enc rt b @ ?r) (attr_type a) (length pre) =
      find_attr_pos rt ((pre @ attr_enc rt b) @ ?r) (attr_type a) (length (pre @ attr_enc rt b))"
    using find_attr_pos_miss [OF assms(1,2), of b "attr_type a" pre ?r] Cons.prems by simp
  also have "\<dots> = Some (length (pre @ attr_enc rt b) + attrs_size as)"
    by (rule Cons.IH) (use Cons.prems in auto)
  finally show ?case using Cons.prems assms(2) by simp
qed

text \<open>
  The check recomputes the digest over the bytes before the attribute, with the length field set to
  what it was when the attribute was added, and compares it with the bytes of the attribute.
\<close>

lemma mi_check_eq:
  assumes rt: "byte_buffer_ok rt" "byte_order_ok rt" "hmac_ok rt"
    and m: "msg_wf m" "\<forall>a \<in> set (m_attrs m). attr_type a \<noteq> STUN_ATTR_MESSAGE_INTEGRITY"
    and size: "attrs_size (m_attrs m) + 32 < 65536"
  shows "validate_message_integrity_of_type rt STUN_ATTR_MESSAGE_INTEGRITY 20
      (signed_bytes rt pwd m) key =
    Some (snd (ComputeHmac rt pwd (mi_input rt m)) = snd (ComputeHmac rt key (mi_input rt m)))"
proof -
  define h where "h = snd (ComputeHmac rt pwd (mi_input rt m))"
  define E where "E = attrs_enc rt (m_attrs m)"
  define H where "H = stun_header (m_type m) (m_length m + 32) (m_transaction_id m)"
  define F where "F = attr_enc rt (fp_attr rt (H @ E @ attr_enc rt (mi_attr h)))"
  define D where "D = H @ E @ attr_enc rt (mi_attr h) @ F"
  have D: "signed_bytes rt pwd m = D"
    by (simp add: signed_bytes_def D_def F_def E_def H_def h_def Let_def)
  have h: "length h = 20" using rt(3) by (simp add: h_def hmac_simps)
  have tid: "length (m_transaction_id m) = 12" and wfs: "\<forall>a \<in> set (m_attrs m). attr_wf a"
    and ml: "unat (m_length m) = length E"
    using m(1) rt(1) by (simp_all add: msg_wf_def E_def)
  have lens: "length H = 20" "length (attr_enc rt (mi_attr h)) = 24" "length F = 8"
    "length D = length E + 52" "length E = attrs_size (m_attrs m)"
    using tid rt(1) h wfs by (simp_all add: H_def F_def D_def E_def)
  have l2: "GetBE16 rt (drop 2 D) = m_length m + 32"
    using byte_order_simps(1) [OF rt(2), of "drop 2 D"] by (simp add: D_def H_def stun_header_def)
  have ul: "unat (m_length m + 32) = length E + 32"
    using unat_add_u16 [of "m_length m" 32] size ml lens by simp
  have pos: "find_attr_pos rt D STUN_ATTR_MESSAGE_INTEGRITY 20 = Some (20 + length E)"
    using find_attr_pos_enc [OF rt(2,1), of "mi_attr h" "m_attrs m" H F] h m(2) wfs lens(1,5)
    by (simp add: D_def E_def)
  have pre: "take (20 + length E) D = H @ E" by (simp add: D_def lens)
  have n: "word_of_nat (length D - (length D - (20 + length E + 4 + 20)) - 20) = m_length m + 24"
    using lens(4) by (simp flip: ml)
  have adj: "take 2 (H @ E) @ SetBE16 rt (m_length m + 24) (drop 2 (H @ E)) = mi_input rt m"
    by (simp add: H_def stun_header_def mi_input_def E_def byte_order_simps(3) [OF rt(2)])
  have mi: "take 20 (drop (20 + length E + 4) D) = h"
    by (simp add: D_def lens attr_enc_head mi_attr_def h)
  have m4: "length D mod 4 = 0" using lens attrs_size_mod4 [of "m_attrs m"] by presburger
  obtain h' where h': "ComputeHmac rt key (mi_input rt m) = (20, h')" "length h' = 20"
    using hmac_simps [OF rt(3), of key "mi_input rt m"]
    by (cases "ComputeHmac rt key (mi_input rt m)") simp
  show ?thesis
    unfolding D h_def [symmetric] validate_message_integrity_of_type_def Let_def l2 ul pos
      option.case pre n adj h' prod.case mi
    using m4 h h' lens(4) by simp
qed

end
