(* ===== verification/Stun_Properties.thy ===== *)
theory Stun_Properties
  imports Stun_Wire
begin

text \<open>
  The contract of the STUN layer: what one side signs and writes, the other side accepts, reads back
  and authenticates; the length field is exact; the reader returns on every input, and what it
  returns is restricted to the three attribute types it knows.
\<close>

unbundle bit_operations_syntax

section \<open>Signed messages\<close>

lemma signed_bytes_alt:
  "signed_bytes rt pwd m =
     stun_header (m_type m) (m_length m + 32) (m_transaction_id m)
     @ attrs_enc rt (m_attrs m @ [mi_attr (snd (ComputeHmac rt pwd (mi_input rt m))),
         fp_attr rt (stun_header (m_type m) (m_length m + 32) (m_transaction_id m)
           @ attrs_enc rt (m_attrs m) @ attr_enc rt (mi_attr (snd (ComputeHmac rt pwd (mi_input rt m)))))])"
  by (simp add: signed_bytes_def Let_def)

text \<open>What the messages handed to the signing operations look like.\<close>

definition signable :: "stun_message \<Rightarrow> bool" where
  "signable m \<longleftrightarrow> msg_wf m \<and> (\<forall>a \<in> set (m_attrs m). attr_typed a) \<and>
     (\<forall>a \<in> set (m_attrs m). attr_type a \<noteq> STUN_ATTR_MESSAGE_INTEGRITY) \<and>
     m_type m AND 0x0800 = 0 \<and> attrs_size (m_attrs m) + 32 < 65536"

lemma signed_fingerprint:
  assumes "byte_buffer_ok rt" "byte_order_ok rt" "hmac_ok rt" "msg_wf m"
  shows "validate_fingerprint rt (signed_bytes rt pwd m)"
proof -
  define h where "h = snd (ComputeHmac rt pwd (mi_input rt m))"
  define b where "b = attrs_enc rt (m_attrs m) @ attr_enc rt (mi_attr h)"
  have "length h = 20" using assms(3) by (simp add: h_def hmac_simps)
  then have "length b = attrs_size (m_attrs m) + 24"
    using assms(1,4) by (simp add: b_def msg_wf_def)
  then have "length b mod 4 = 0" by (simp add: mod_add_eq [symmetric])
  from fp_accept [OF assms(2) _ this refl, of "m_transaction_id m"] assms(4) show ?thesis
    by (simp add: signed_bytes_def Let_def msg_wf_def b_def h_def)
qed

lemma mi_fp_typed [simp]: "attr_typed (mi_attr h)" "attr_typed (fp_attr rt d)"
  "known_attr (mi_attr h)" "\<not> known_attr (fp_attr rt d)"
  by (simp_all add: mi_attr_def fp_attr_def get_attrribute_value_type_def known_attr_def)

lemma signed_read:
  assumes "byte_buffer_ok rt" "byte_order_ok rt" "hmac_ok rt" "signable m"
  shows "stun_read rt m0 (signed_bytes rt pwd m) = Some (True, m0\<lparr>m_buffer := signed_bytes rt pwd m,
    m_type := m_type m, m_length := m_length m + 32, m_transaction_id := m_transaction_id m,
    m_attrs := filter known_attr (m_attrs m) @ [mi_attr (snd (ComputeHmac rt pwd (mi_input rt m)))]\<rparr>)"
proof -
  have m: "length (m_transaction_id m) = 12" "\<forall>a \<in> set (m_attrs m). attr_wf a \<and> attr_typed a"
    "m_type m AND 0x0800 = 0" "attrs_size (m_attrs m) + 32 < 65536"
    "unat (m_length m) = attrs_size (m_attrs m)"
    using assms(4) by (auto simp: signable_def msg_wf_def)
  have "unat (m_length m + 32) = attrs_size (m_attrs m) + 32"
    using unat_add_u16 [of "m_length m" 32] m(4,5) by simp
  moreover have "length (snd (ComputeHmac rt pwd (mi_input rt m))) = 20"
    using assms(3) by (simp add: hmac_simps)
  ultimately show ?thesis
    using m(2) by (subst stun_read_enc [OF assms(1,2) m(1,3) _ _ signed_bytes_alt]) auto
qed

lemma signed_integrity:
  assumes "byte_buffer_ok rt" "byte_order_ok rt" "hmac_ok rt" "signable m"
    and "m_buffer m' = signed_bytes rt pwd m" "mi_attr h \<in> set (m_attrs m')"
  shows "\<exists>m''. validate_message_integrity rt key m' =
    Some (if snd (ComputeHmac rt pwd (mi_input rt m)) = snd (ComputeHmac rt key (mi_input rt m))
          then k_integrity_ok else k_integrity_bad, m'')"
proof -
  have "get_attribute m' STUN_ATTR_MESSAGE_INTEGRITY \<noteq> None"
    using assms(6) by (auto simp: get_attribute_def find_None_iff)
  then show ?thesis
    using mi_check_eq [OF assms(1-3), of m pwd key] assms(4,5)
    by (auto simp: validate_message_integrity_def get_attribute_def signable_def)
qed

text \<open>
  C3: Authentication of STUN messages.  A message built with the setters, signed with
  \<^verbatim>\<open>add_message_integrity(pwd)\<close> and \<^verbatim>\<open>add_fingerprint()\<close> and written is accepted by
  \<^verbatim>\<open>validate_fingerprint\<close>, is read back with the same type, transaction id and known attributes, and
  \<^verbatim>\<open>validate_message_integrity(key)\<close> then gives \<^verbatim>\<open>k_integrity_ok\<close> exactly for the keys with the same
  digest of the signed bytes (in particular for \<open>pwd\<close>), \<^verbatim>\<open>k_integrity_bad\<close> for all others.\<close>

theorem signed_message_accepted:
  assumes "byte_buffer_ok rt" "byte_order_ok rt" "hmac_ok rt" "signable m"
    and "add_message_integrity rt pwd m = (ok1, m1)" "add_fingerprint rt m1 = (ok2, m2)"
    and "stun_write rt m2 [] = (ok3, bs)"
  shows "ok1 \<and> ok2 \<and> ok3 \<and> validate_fingerprint rt bs \<and>
    (\<exists>m' h. stun_read rt stun_message_new bs = Some (True, m') \<and> m_type m' = m_type m \<and>
       m_transaction_id m' = m_transaction_id m \<and>
       m_attrs m' = filter known_attr (m_attrs m)
         @ [ByteStringAttr STUN_ATTR_MESSAGE_INTEGRITY 20 h] \<and>
       (\<forall>key. \<exists>m''. validate_message_integrity rt key m' =
          Some (if snd (ComputeHmac rt key (mi_input rt m)) = snd (ComputeHmac rt pwd (mi_input rt m))
                then k_integrity_ok else k_integrity_bad, m'')))"
proof -
  have "\<forall>a \<in> set (m_attrs m). attr_wf a" using assms(4) by (simp add: signable_def msg_wf_def)
  from signed_write [OF assms(1,3) this assms(5,6)] assms(7)
  have ok: "ok1" "ok2" "ok3" "bs = signed_bytes rt pwd m" by simp_all
  let ?h = "snd (ComputeHmac rt pwd (mi_input rt m))"
  let ?m' = "stun_message_new\<lparr>m_buffer := bs, m_type := m_type m, m_length := m_length m + 32,
     m_transaction_id := m_transaction_id m, m_attrs := filter known_attr (m_attrs m) @ [mi_attr ?h]\<rparr>"
  have rd: "stun_read rt stun_message_new bs = Some (True, ?m')"
    using signed_read [OF assms(1-4), of stun_message_new pwd] ok(4) by simp
  have "\<exists>m''. validate_message_integrity rt key ?m' =
      Some (if ?h = snd (ComputeHmac rt key (mi_input rt m)) then k_integrity_ok
            else k_integrity_bad, m'')" for key
    by (rule signed_integrity [OF assms(1-4), where h = ?h]) (simp_all add: ok(4))
  then have "\<forall>key. \<exists>m''. validate_message_integrity rt key ?m' =
      Some (if snd (ComputeHmac rt key (mi_input rt m)) = ?h then k_integrity_ok
            else k_integrity_bad, m'')"
    by (simp add: eq_commute)
  with rd ok(1-3) signed_fingerprint [OF assms(1-3), of m pwd] assms(4) show ?thesis
    by (intro conjI exI [of _ ?m'] exI [of _ ?h]) (simp_all add: ok(4) mi_attr_def signable_def)
qed

definition sample_request :: stun_message where
  "sample_request = add_attribute (UInt32Attr STUN_ATTR_PRIORITY 2130706431)
     (add_attribute (UInt64Attr STUN_ATTR_ICE_CONTROLLING 0)
       (add_attribute (byte_string_attr STUN_ATTR_USERNAME ''ab:cd'')
         (stun_message_new\<lparr>m_type := STUN_BINDING_REQUEST\<rparr>)))"

lemma sample_request_signable: "signable sample_request"
  by (simp add: signable_def sample_request_def msg_wf_def add_attribute_def stun_message_new_def
      byte_string_attr_def EMPTY_TRANSACTION_ID_def attr_size_def padded_def get_attrribute_value_type_def)

theorem signed_message_accepted_witness:
  "\<exists>m'. stun_read ref_rtc stun_message_new (snd (stun_write ref_rtc (snd (add_fingerprint ref_rtc
       (snd (add_message_integrity ref_rtc ''secret'' sample_request)))) [])) = Some (True, m') \<and>
     map attr_type (m_attrs m') =
       [STUN_ATTR_USERNAME, STUN_ATTR_PRIORITY, STUN_ATTR_MESSAGE_INTEGRITY] \<and>
     map_option fst (validate_message_integrity ref_rtc ''secret'' m') = Some k_integrity_ok"
proof -
  have f: "filter known_attr (m_attrs sample_request) =
      [byte_string_attr STUN_ATTR_USERNAME ''ab:cd'', UInt32Attr STUN_ATTR_PRIORITY 2130706431]"
    by (simp add: sample_request_def add_attribute_def stun_message_new_def byte_string_attr_def
        known_attr_def get_attrribute_value_type_def)
  from signed_message_accepted [OF ref_rtc_ok(1-3) sample_request_signable prod.collapse [symmetric]
      prod.collapse [symmetric] prod.collapse [symmetric], of "''secret''"]
  obtain m' h where "stun_read ref_rtc stun_message_new (snd (stun_write ref_rtc (snd (add_fingerprint ref_rtc
       (snd (add_message_integrity ref_rtc ''secret'' sample_request)))) [])) = Some (True, m')"
    "m_attrs m' = filter known_attr (m_attrs sample_request)
         @ [ByteStringAttr STUN_ATTR_MESSAGE_INTEGRITY 20 h]"
    "\<forall>key. \<exists>m''. validate_message_integrity ref_rtc key m' =
          Some (if snd (ComputeHmac ref_rtc key (mi_input ref_rtc sample_request))
                  = snd (ComputeHmac ref_rtc ''secret'' (mi_input ref_rtc sample_request))
                then k_integrity_ok else k_integrity_bad, m'')"
    by blast
  moreover from this(3) [rule_format, of "''secret''"]
  have "map_option fst (validate_message_integrity ref_rtc ''secret'' m') = Some k_integrity_ok"
    by auto
  ultimately show ?thesis by (simp add: f byte_string_attr_def)
qed

section \<open>The length field\<close>

lemma fold_add_attribute_wf:
  "msg_wf m \<Longrightarrow> \<forall>a \<in> set as. attr_wf a \<Longrightarrow> attrs_size (m_attrs m) + attrs_size as < 65536 \<Longrightarrow>
     msg_wf (fold add_attribute as m) \<and> m_attrs (fold add_attribute as m) = m_attrs m @ as"
proof (induction as arbitrary: m)
  case (Cons a as)
  have "msg_wf (add_attribute a m)" by (rule add_attribute_wf) (use Cons.prems in auto)
  moreover have "m_attrs (add_attribute a m) = m_attrs m @ [a]" by (simp add: add_attribute_def)
  ultimately show ?case
    using Cons.IH [of "add_attribute a m"] Cons.prems by simp
qed simp

text \<open>
  The length bookkeeping of \<^verbatim>\<open>add_attribute\<close> is exact: a message to which any attributes are added
  one after the other is written as a 20-byte header whose length field (bytes 2 and 3) is the number
  of bytes that follow, a multiple of 4.\<close>

theorem written_length_exact:
  assumes "byte_buffer_ok rt" "\<forall>a \<in> set as. attr_wf a" "attrs_size as < 65536"
    and "m = fold add_attribute as (stun_message_new\<lparr>m_type := ty\<rparr>)"
  shows "\<exists>bs. stun_write rt m [] = (True, bs) \<and> length bs = 20 + attrs_size as \<and>
    be_nat (take 2 (drop 2 bs)) = length bs - 20 \<and> length bs mod 4 = 0"
proof -
  have "msg_wf (stun_message_new\<lparr>m_type := ty\<rparr>)" "m_attrs (stun_message_new\<lparr>m_type := ty\<rparr>) = []"
    by (simp_all add: msg_wf_def stun_message_new_def EMPTY_TRANSACTION_ID_def)
  then have m: "msg_wf m" "m_attrs m = as"
    using fold_add_attribute_wf [of "stun_message_new\<lparr>m_type := ty\<rparr>" as] assms(2-4) by simp_all
  then have "unat (m_length m) = attrs_size as" "length (m_transaction_id m) = 12"
    by (simp_all add: msg_wf_def)
  moreover have "(20 + attrs_size as) mod 4 = 0" using attrs_size_mod4 [of as] by presburger
  moreover have "stun_write rt m [] =
      (True, stun_header (m_type m) (m_length m) (m_transaction_id m) @ attrs_enc rt as)"
    using stun_write_eq [OF assms(1), of m "[]"] m assms(2) by simp
  ultimately show ?thesis
    using assms(1-3) by (simp add: stun_header_def)
qed

theorem written_length_exact_witness:
  "\<exists>bs. stun_write ref_rtc (fold add_attribute [byte_string_attr STUN_ATTR_USERNAME ''abcde'']
      (stun_message_new\<lparr>m_type := 1\<rparr>)) [] = (True, bs) \<and> length bs = 32"
  using written_length_exact [OF ref_rtc_ok(1), of "[byte_string_attr STUN_ATTR_USERNAME ''abcde'']", OF _ _ refl, of 1]
  by (auto simp: byte_string_attr_def attr_size_def padded_def)

section \<open>What the reader returns\<close>

text \<open>The attributes a message read from the network can carry.\<close>

fun received_attr :: "stun_attr \<Rightarrow> bool" where
  "received_attr (ByteStringAttr t l bs) \<longleftrightarrow>
     t \<in> {STUN_ATTR_USERNAME, STUN_ATTR_MESSAGE_INTEGRITY} \<and> length bs = unat l"
| "received_attr (UInt32Attr t v) \<longleftrightarrow> t = STUN_ATTR_PRIORITY"
| "received_attr _ \<longleftrightarrow> False"

lemma value_type_cases:
  "get_attrribute_value_type t = STUN_VALUE_BYTE_STRING \<longleftrightarrow>
     t \<in> {STUN_ATTR_USERNAME, STUN_ATTR_MESSAGE_INTEGRITY}"
  "get_attrribute_value_type t = STUN_VALUE_UINT32 \<longleftrightarrow> t = STUN_ATTR_PRIORITY"
  by (auto simp: get_attrribute_value_type_def)

lemma consume_padding_shorter: "byte_buffer_ok rt \<Longrightarrow> length (consume_padding rt l s) \<le> length s"
  by (auto simp: consume_padding_def Let_def grtc_simps)

lemma attr_read_received:
  assumes "byte_buffer_ok rt" "create_attribute ty len = Some a" "attr_read rt a s = Some (a', s')"
  shows "received_attr a' \<and> length s' \<le> length s"
proof (cases "get_attrribute_value_type ty")
  case STUN_VALUE_BYTE_STRING
  then have "a = ByteStringAttr ty len []" using assms(2) by (simp add: create_attribute_known)
  moreover have "ty \<in> {STUN_ATTR_USERNAME, STUN_ATTR_MESSAGE_INTEGRITY}"
    using STUN_VALUE_BYTE_STRING by (simp only: value_type_cases)
  moreover have "length (consume_padding rt len (drop (unat len) s)) \<le> length s"
    using consume_padding_shorter [OF assms(1), of len "drop (unat len) s"] by simp
  ultimately show ?thesis
    using assms(1,3) by (auto simp: grtc_simps split: if_splits)
next
  case STUN_VALUE_UINT32
  then have "a = UInt32Attr ty 0" using assms(2) by (simp add: create_attribute_known)
  moreover have "ty = STUN_ATTR_PRIORITY"
    using STUN_VALUE_UINT32 by (simp only: value_type_cases)
  ultimately show ?thesis using assms(1,3) by (auto simp: grtc_simps split: if_splits)
qed (use assms in \<open>simp add: create_attribute_known\<close>)

lemma read_attrs_returns:
  assumes "byte_buffer_ok rt"
  shows "\<exists>ok as. read_attrs rt acc s = Some (ok, acc @ as) \<and> (\<forall>a \<in> set as. received_attr a)"
proof (induction s arbitrary: acc rule: length_induct)
  case (1 s)
  show ?case
  proof (cases "4 \<le> length s")
    case False
    then show ?thesis using assms
      by (subst read_attrs.simps) (auto simp: grtc_simps simp del: length_greater_0_conv)
  next
    case True
    define ty len s2 where "ty = (word_of_nat (be_nat (take 2 s)) :: u16)"
      and "len = (word_of_nat (be_nat (take 2 (drop 2 s))) :: u16)" and "s2 = drop 4 s"
    have step: "read_attrs rt acc s = (case create_attribute ty len of
         None \<Rightarrow> (case Consume rt (unat (pad_u16 len)) s2 of
             None \<Rightarrow> Some (False, acc) | Some s3 \<Rightarrow> read_attrs rt acc s3)
       | Some a \<Rightarrow> (case attr_read rt a s2 of
             None \<Rightarrow> Some (False, acc) | Some (a', s3) \<Rightarrow> read_attrs rt (acc @ [a']) s3))"
    proof -
      have "ReadUInt16 rt s = Some (ty, drop 2 s)" "ReadUInt16 rt (drop 2 s) = Some (len, s2)" "0 < length s"
        using assms True by (auto simp: grtc_simps ty_def len_def s2_def)
      then show ?thesis by (subst read_attrs.simps) (simp only: option.case prod.case if_True)
    qed
    have sh: "length s3 < length s" if "length s3 \<le> length s2" for s3 :: string
      using that True by (simp add: s2_def)
    show ?thesis
    proof (cases "create_attribute ty len")
      case None
      then show ?thesis
        using step 1 sh [of "drop (unat (pad_u16 len)) s2"] assms by (auto simp: grtc_simps)
    next
      case (Some a)
      show ?thesis
      proof (cases "attr_read rt a s2")
        case None then show ?thesis using step Some by auto
      next
        case (Some p)
        then obtain a' s3 where p: "attr_read rt a s2 = Some (a', s3)" by (cases p) auto
        from attr_read_received [OF assms \<open>create_attribute ty len = Some a\<close> p]
        have "received_attr a'" "length s3 < length s" using sh by auto
        then obtain ok as where "read_attrs rt (acc @ [a']) s3 = Some (ok, acc @ a' # as)"
          "\<forall>b \<in> set as. received_attr b"
          using 1 [rule_format, of s3 "acc @ [a']"] by auto
        with step \<open>create_attribute ty len = Some a\<close> p
          attr_read_received [OF assms \<open>create_attribute ty len = Some a\<close> p] show ?thesis
          by (intro exI [of _ ok] exI [of _ "a' # as"]) simp
      qed
    qed
  qed
qed

lemma stun_read_cases:
  assumes "byte_buffer_ok rt" "m_attrs m0 = []"
  shows "\<exists>ok m. stun_read rt m0 bs = Some (ok, m) \<and> m_buffer m = bs \<and>
    (\<forall>a \<in> set (m_attrs m). received_attr a) \<and> get_error_code_value m = Some 600 \<and>
    (ok \<longrightarrow> length bs = 20 + unat (m_length m))"
proof -
  have no_code: "get_error_code_value m = Some 600" if r: "\<forall>a \<in> set (m_attrs m). received_attr a" for m
  proof -
    have "\<not> received_attr a" if "attr_type a = STUN_ATTR_ERROR_CODE" for a
      using that by (cases a) auto
    then have "get_attribute m STUN_ATTR_ERROR_CODE = None"
      using r by (auto simp: get_attribute_def find_None_iff)
    then show ?thesis by (simp add: get_error_code_value_def)
  qed
  obtain ok as where r: "read_attrs rt [] (drop 20 bs) = Some (ok, as)" "\<forall>a \<in> set as. received_attr a"
    using read_attrs_returns [OF assms(1), of "[]" "drop 20 bs"] by auto
  show ?thesis
    using assms r no_code by (auto simp: stun_read_def Let_def grtc_simps split: if_splits)
qed

lemma read_code:
  assumes "byte_buffer_ok rt" "stun_read rt stun_message_new bs = Some (ok, m)"
  shows "get_error_code_value m = Some 600"
  using stun_read_cases [OF assms(1), of stun_message_new bs] assms(2)
  by (auto simp: stun_message_new_def)

text \<open>
  C38: \<^verbatim>\<open>StunMessage::read\<close> returns on every byte sequence, whatever its length fields claim, and a
  message it has read carries only well-formed USERNAME, MESSAGE-INTEGRITY and PRIORITY attributes.
  ERROR-CODE is never among them, so \<^verbatim>\<open>get_error_code_value\<close> of a received message is always 600:
  the code a peer sends in an error response is never seen.\<close>

theorem stun_read_total:
  assumes "byte_buffer_ok rt" "m_attrs m0 = []"
  shows "\<exists>ok m. stun_read rt m0 bs = Some (ok, m) \<and> m_buffer m = bs \<and>
    (\<forall>a \<in> set (m_attrs m). received_attr a) \<and> get_error_code_value m = Some 600 \<and>
    (ok \<longrightarrow> length bs = 20 + unat (m_length m))"
  by (rule stun_read_cases [OF assms])

theorem stun_read_total_witness:
  "\<exists>ok m. stun_read ref_rtc stun_message_new (replicate 24 (CHR 0x00)) = Some (ok, m) \<and>
     get_error_code_value m = Some 600"
  using stun_read_total [OF ref_rtc_ok(1), of stun_message_new "replicate 24 (CHR 0x00)"]
  by (auto simp: stun_message_new_def)

end
