(* ===== verification/Candidate.thy ===== *)
theory Candidate
  imports Rtc_Base
begin

text \<open>
  \<^verbatim>\<open>src/ice/candidate.h\<close>, \<^verbatim>\<open>candidate.cpp\<close>, \<^verbatim>\<open>ice_def.h\<close> and \<^verbatim>\<open>ice_credentials.h\<close>: ICE candidates
  and their priority.
\<close>

unbundle bit_operations_syntax

datatype ice_component = RTP | RTCP

primrec component_id :: "ice_component \<Rightarrow> u32" where
  "component_id RTP = 1"
| "component_id RTCP = 2"

abbreviation ICE_TYPE_PREFERENCE_RELAY_UDP :: u32 where "ICE_TYPE_PREFERENCE_RELAY_UDP \<equiv> 2"
abbreviation ICE_TYPE_PREFERENCE_SRFLX :: u32 where "ICE_TYPE_PREFERENCE_SRFLX \<equiv> 100"
abbreviation ICE_TYPE_PREFERENCE_PRFLX :: u32 where "ICE_TYPE_PREFERENCE_PRFLX \<equiv> 110"
abbreviation ICE_TYPE_PREFERENCE_HOST :: u32 where "ICE_TYPE_PREFERENCE_HOST \<equiv> 126"
abbreviation LOCAL_PORT_TYPE :: string where "LOCAL_PORT_TYPE \<equiv> ''host''"
abbreviation PRFLX_PORT_TYPE :: string where "PRFLX_PORT_TYPE \<equiv> ''prflx''"

record ice_parameters =
  ice_ufrag :: string
  ice_pwd :: string

text \<open>\<^verbatim>\<open>create_random_ice_credentials\<close> with the two random strings drawn.\<close>

definition create_random_ice_credentials :: "(nat \<Rightarrow> string) \<Rightarrow> (nat \<Rightarrow> string) \<Rightarrow> ice_parameters" where
  "create_random_ice_credentials rand1 rand2 = \<lparr>ice_ufrag = rand1 4, ice_pwd = rand2 24\<rparr>"

record candidate =
  c_component :: ice_component
  c_protocol :: string
  c_address :: socket_address
  c_port :: int
  c_priority :: u32
  c_username :: string
  c_password :: string
  c_type :: string
  c_foundation :: string

text \<open>The \<^verbatim>\<open>int\<close> arithmetic as 32-bit patterns.\<close>

definition get_priority :: "rtcbase \<Rightarrow> ip_address \<Rightarrow> ice_component \<Rightarrow> u32 \<Rightarrow> u32 \<Rightarrow> u32 \<Rightarrow> u32" where
  "get_priority rt ip component type_preference network_adapter_preference relay_preference =
     (let addr_ref = word_of_int (IPAddressPrecedence rt ip);
          local_pref = (push_bit 8 network_adapter_preference OR addr_ref) + relay_preference
      in push_bit 24 type_preference OR push_bit 8 local_pref OR (256 - component_id component))"

section \<open>The priority formula of RFC 5245\<close>

lemma bit_small: "unat (b :: u32) < 2 ^ n \<Longrightarrow> bit b i \<Longrightarrow> i < n"
proof (rule ccontr)
  assume small: "unat b < 2 ^ n" and "bit b i" "\<not> i < n"
  then have "(2 :: nat) ^ n \<le> 2 ^ i" by simp
  with small have "unat b < 2 ^ i" by linarith
  then have "unat b div 2 ^ i = 0" by (rule div_less)
  moreover have "bit (unat b) i" using \<open>bit b i\<close> by (simp add: bit_unsigned_iff bit_imp_le_length)
  ultimately show False by (simp add: bit_iff_odd)
qed

lemma push_or_plus: "unat (b :: u32) < 2 ^ n \<Longrightarrow> push_bit n a OR b = push_bit n a + b"
  by (rule disjunctive_add_eq_or [symmetric], rule bit_eqI)
     (use bit_small [of b n] in \<open>fastforce simp: bit_and_iff bit_push_bit_iff\<close>)

lemma unat_push_bit:
  "unat (w :: u32) * 2 ^ n < 2 ^ 32 \<Longrightarrow> unat (push_bit n w) = unat w * 2 ^ n"
  by (subst unsigned_push_bit_eq) (simp add: push_bit_eq_mult take_bit_nat_eq_self)

lemma unat_add_u32: "unat a + unat b < 2 ^ 32 \<Longrightarrow> unat (a + b :: u32) = unat a + unat b"
  by (simp add: unat_word_ariths)

text \<open>
  The priority of a candidate is the one of RFC 5245: type preference, local preference and
  component do not overlap, so \<open>2^24 * type + 2^8 * local + (256 - component)\<close> holds exactly, for every
  type preference that fits 8 bits and local preference that fits 16.\<close>

theorem get_priority_rfc:
  assumes "unat tp < 256"
    and "lp = (push_bit 8 nap OR word_of_int (IPAddressPrecedence rt ip)) + relay"
    and "unat lp < 65536"
  shows "unat (get_priority rt ip cmp tp nap relay) =
    2 ^ 24 * unat tp + 2 ^ 8 * unat lp + (256 - unat (component_id cmp))"
proof -
  let ?c = "256 - component_id cmp"
  have c: "unat ?c = 256 - unat (component_id cmp)" "unat ?c < 256" by (cases cmp; simp)+
  have l: "unat (push_bit 8 lp) = unat lp * 256" using assms(3) by (subst unat_push_bit) simp_all
  have t: "unat (push_bit 24 tp) = unat tp * 2 ^ 24" using assms(1) by (subst unat_push_bit) simp_all
  have "push_bit 8 lp OR ?c = push_bit 8 lp + ?c" using c(2) by (intro push_or_plus) simp
  moreover have lc: "unat (push_bit 8 lp + ?c) = unat lp * 256 + unat ?c"
    using l c(2) assms(3) by (subst unat_add_u32) simp_all
  moreover have "push_bit 24 tp OR (push_bit 8 lp + ?c) = push_bit 24 tp + (push_bit 8 lp + ?c)"
    using lc c(2) assms(3) by (intro push_or_plus) simp
  ultimately have "get_priority rt ip cmp tp nap relay = push_bit 24 tp + (push_bit 8 lp + ?c)"
    by (simp add: get_priority_def assms(2) [symmetric] Let_def or.assoc)
  moreover have "unat (push_bit 24 tp + (push_bit 8 lp + ?c)) = unat tp * 2 ^ 24 + (unat lp * 256 + unat ?c)"
    using t lc c(2) assms(1,3) by (subst unat_add_u32) simp_all
  ultimately show ?thesis using c(1) by simp
qed

theorem get_priority_rfc_witness:
  "unat (get_priority ref_rtc (IPv4 0) RTP ICE_TYPE_PREFERENCE_HOST 0 0) =
     2 ^ 24 * 126 + 2 ^ 8 * 30 + 255"
  using get_priority_rfc [of ICE_TYPE_PREFERENCE_HOST 30 0 ref_rtc "IPv4 0" 0 RTP]
  by (simp add: ref_rtc_def)


section \<open>Text form\<close>

text \<open>\<open>addr_text\<close> is \<^verbatim>\<open>SocketAddress::ToString\<close>.\<close>

definition candidate_to_string :: "(socket_address \<Rightarrow> string) \<Rightarrow> candidate \<Rightarrow> string" where
  "candidate_to_string addr_text c =
     ''Cand['' @ c_foundation c @ '':'' @ dec_digits (unat (component_id (c_component c))) @ '':'' @ c_protocol c @
     '':'' @ dec_digits (unat (c_priority c)) @ '':'' @ addr_text (c_address c) @ '':'' @ c_type c @ '':'' @
     c_username c @ '':'' @ c_password c @ '']''"

end
