(* ===== verification/Udp_Port.thy ===== *)
theory Udp_Port
  imports Stun_Properties Candidate Base_Socket
begin

text \<open>
  \<^verbatim>\<open>src/ice/udp_port.h\<close> and \<^verbatim>\<open>udp_port.cpp\<close>: one local UDP port of a channel.  It authenticates STUN
  packets, answers bad ones with an error response, and maps remote addresses to connections (by
  address of the object).  The socket below it is modelled in \<open>Async_Udp_Socket\<close>; here a packet
  handed to it is an element of the output list.
\<close>

unbundle bit_operations_syntax

type_synonym packet = "string \<times> socket_address"

record udp_port =
  up_transport_name :: string
  up_component :: ice_component
  up_params :: ice_parameters
  up_socket :: int
  up_async :: bool
  up_local_addr :: socket_address
  up_candidates :: "candidate list"
  up_connections :: "socket_address \<Rightarrow> nat option"

definition udp_port_new :: "string \<Rightarrow> ice_component \<Rightarrow> ice_parameters \<Rightarrow> udp_port" where
  "udp_port_new transport_name component ice_params =
     \<lparr>up_transport_name = transport_name, up_component = component, up_params = ice_params,
      up_socket = -1, up_async = False, up_local_addr = \<lparr>ipaddr = IPUnspec, sport = 0\<rparr>,
      up_candidates = [], up_connections = Map.empty\<rparr>"

definition compute_foundation ::
    "rtcbase \<Rightarrow> string \<Rightarrow> string \<Rightarrow> string \<Rightarrow> socket_address \<Rightarrow> string" where
  "compute_foundation rt type protocol relay_protocol base =
     dec_digits (unat (ComputeCrc32 rt (type @ HostAsURIString rt (ipaddr base) @ protocol @ relay_protocol)))"

text \<open>\<^verbatim>\<open>send_to\<close>: -1 without a socket; otherwise the packet goes to the socket.\<close>

definition port_send_to :: "udp_port \<Rightarrow> string \<Rightarrow> socket_address \<Rightarrow> packet list" where
  "port_send_to p buf addr = (if up_async p then [(buf, addr)] else [])"

abbreviation STUN_ERROR_REASON_BAD_REQUEST :: string where
  "STUN_ERROR_REASON_BAD_REQUEST \<equiv> ''Bad request''"
abbreviation STUN_ERROR_REASON_UNAUTHORIZED :: string where
  "STUN_ERROR_REASON_UNAUTHORIZED \<equiv> ''Unauthorized''"
abbreviation STUN_ERROR_REASON_SERVER_ERROR :: string where
  "STUN_ERROR_REASON_SERVER_ERROR \<equiv> ''Server error''"

definition error_response :: "string \<Rightarrow> nat \<Rightarrow> string \<Rightarrow> stun_message" where
  "error_response tid err_code reason =
     add_attribute (set_reason reason (set_code err_code create_error_code))
       (stun_message_new\<lparr>m_type := STUN_BINDING_ERROR_RESPONSE, m_transaction_id := tid\<rparr>)"

definition send_binding_error_response ::
    "rtcbase \<Rightarrow> udp_port \<Rightarrow> string \<Rightarrow> socket_address \<Rightarrow> nat \<Rightarrow> string \<Rightarrow> packet list" where
  "send_binding_error_response rt p tid addr err_code reason =
     (if \<not> up_async p then []
      else
        let response = error_response tid err_code reason;
            response = (if err_code \<noteq> 400 \<and> err_code \<noteq> 401
                        then snd (add_message_integrity rt (ice_pwd (up_params p)) response)
                        else response);
            response = snd (add_fingerprint rt response);
            (ok, buf) = stun_write rt response []
        in if ok then port_send_to p buf addr else [])"

definition attr_string :: "stun_attr \<Rightarrow> string" where
  "attr_string a = (case a of ByteStringAttr t l bs \<Rightarrow> take (unat l) bs | _ \<Rightarrow> [])"

definition parse_stun_username :: "rtcbase \<Rightarrow> stun_message \<Rightarrow> (string \<times> string) option" where
  "parse_stun_username rt m =
     (case get_attribute m STUN_ATTR_USERNAME of
        None \<Rightarrow> None
      | Some a \<Rightarrow>
          (case rtc_split rt (attr_string a) (CHR '':'') of
             [local_ufrag, remote_ufrag] \<Rightarrow> Some (local_ufrag, remote_ufrag)
           | _ \<Rightarrow> None))"

text \<open>
  \<^verbatim>\<open>get_stun_message\<close>: the result, the message and the remote user name handed out, and the error
  responses sent.\<close>

definition get_stun_message ::
    "rtcbase \<Rightarrow> udp_port \<Rightarrow> string \<Rightarrow> socket_address
      \<Rightarrow> (bool \<times> stun_message option \<times> string \<times> packet list) option" where
  "get_stun_message rt p data addr =
     (if \<not> validate_fingerprint rt data then Some (False, None, [], [])
      else do {
        (ok, m) \<leftarrow> stun_read rt stun_message_new data;
        (let reject = (\<lambda>code reason.
               Some (True, None, [], send_binding_error_response rt p (m_transaction_id m) addr code reason))
         in if \<not> ok then Some (False, None, [], [])
            else if m_type m = STUN_BINDING_REQUEST then
              (if get_attribute m STUN_ATTR_USERNAME = None \<or>
                  get_attribute m STUN_ATTR_MESSAGE_INTEGRITY = None
               then reject 400 STUN_ERROR_REASON_BAD_REQUEST
               else case parse_stun_username rt m of
                 None \<Rightarrow> reject 401 STUN_ERROR_REASON_UNAUTHORIZED
               | Some (local_ufrag, remote_ufrag) \<Rightarrow>
                   if local_ufrag \<noteq> ice_ufrag (up_params p)
                   then reject 401 STUN_ERROR_REASON_UNAUTHORIZED
                   else do {
                     (st, m) \<leftarrow> validate_message_integrity rt (ice_pwd (up_params p)) m;
                     (if st \<noteq> k_integrity_ok then reject 401 STUN_ERROR_REASON_UNAUTHORIZED
                      else Some (True, Some m, remote_ufrag, [])) })
            else Some (True, Some m, [], [])) })"

definition create_stun_username :: "udp_port \<Rightarrow> string \<Rightarrow> string" where
  "create_stun_username p remote_username = remote_username @ '':'' @ ice_ufrag (up_params p)"

text \<open>\<^verbatim>\<open>create_connection\<close> with the address \<open>conn\<close> of the new object; an old entry is replaced.\<close>

definition port_create_connection :: "candidate \<Rightarrow> nat \<Rightarrow> udp_port \<Rightarrow> udp_port" where
  "port_create_connection remote_candidate conn p =
     p\<lparr>up_connections := (up_connections p)(c_address remote_candidate \<mapsto> conn)\<rparr>"

definition port_get_connection :: "udp_port \<Rightarrow> socket_address \<Rightarrow> nat option" where
  "port_get_connection p addr = up_connections p addr"

text \<open>
  \<^verbatim>\<open>create_ice_candidate\<close>.  \<open>garbage\<close> is the port left in the uninitialised \<^verbatim>\<open>sockaddr_in\<close>;
  \<open>name\<close> is what \<^verbatim>\<open>getsockname\<close> reports for the port bound.\<close>

definition create_ice_candidate ::
    "rtcbase \<Rightarrow> sys_result \<Rightarrow> sys_result \<Rightarrow> (int \<Rightarrow> sys_result) \<Rightarrow> (int \<Rightarrow> int) \<Rightarrow> int
      \<Rightarrow> (int \<Rightarrow> (u32 \<times> u16) option) \<Rightarrow> ip_address \<Rightarrow> int \<Rightarrow> int \<Rightarrow> udp_port
      \<Rightarrow> int \<times> candidate option \<times> udp_port" where
  "create_ice_candidate rt socket_res getfl setfl bind_res garbage name ip min_port max_port p =
     (let p = p\<lparr>up_socket := create_udp_socket socket_res\<rparr> in
      if up_socket p < 0 then (-1, None, p)
      else if sock_setnonblock getfl setfl \<noteq> 0 then (-1, None, p)
      else
        let (ret, bound) = sock_bind bind_res garbage min_port max_port in
        if ret \<noteq> 0 then (-1, None, p)
        else case sock_get_address (\<lambda>a. []) (name bound) of
          None \<Rightarrow> (-1, None, p)
        | Some (_, port) \<Rightarrow>
            let addr = \<lparr>ipaddr = ip, sport = word_of_int port\<rparr>;
                c = \<lparr>c_component = up_component p, c_protocol = ''udp'', c_address = addr, c_port = port,
                     c_priority = get_priority rt ip (up_component p) ICE_TYPE_PREFERENCE_HOST 0 0,
                     c_username = ice_ufrag (up_params p), c_password = ice_pwd (up_params p),
                     c_type = LOCAL_PORT_TYPE,
                     c_foundation = compute_foundation rt LOCAL_PORT_TYPE ''udp'' [] addr\<rparr>
            in (0, Some c, p\<lparr>up_local_addr := addr, up_async := True,
                             up_candidates := up_candidates p @ [c]\<rparr>))"

section \<open>Authentication\<close>

lemma stun_read_buffer: "stun_read rt m0 s = Some (ok, m) \<Longrightarrow> m_buffer m = s"
  by (auto simp: stun_read_def Let_def split: option.splits prod.splits if_splits Option.bind_splits)

lemma find_filter: "(\<And>x. P x \<Longrightarrow> Q x) \<Longrightarrow> find P (filter Q xs) = find P xs"
  by (induction xs) auto

lemma attr_string_byte_string [simp]: "length s < 65536 \<Longrightarrow> attr_string (byte_string_attr t s) = s"
  by (simp add: attr_string_def byte_string_attr_def)

lemma parse_username_fields:
  assumes "split_ok rt" "get_attribute m STUN_ATTR_USERNAME = Some (byte_string_attr STUN_ATTR_USERNAME (l @ '':'' @ r))"
    and "CHR '':'' \<notin> set l" "CHR '':'' \<notin> set r" "length l + length r + 1 < 65536"
  shows "parse_stun_username rt m = Some (l, r)"
proof -
  have "attr_string (byte_string_attr STUN_ATTR_USERNAME (l @ '':'' @ r)) = l @ '':'' @ r"
    using assms(5) by simp
  then show ?thesis using assms(1-4) by (simp add: parse_stun_username_def split_simps fields_of_append)
qed

text \<open>What the port does with a signed request addressed to it.\<close>

lemma get_stun_message_signed:
  assumes rt: "byte_buffer_ok rt" "byte_order_ok rt" "hmac_ok rt" "split_ok rt"
    and m: "signable m" "m_type m = STUN_BINDING_REQUEST"
    and user: "get_attribute m STUN_ATTR_USERNAME =
        Some (byte_string_attr STUN_ATTR_USERNAME (ice_ufrag (up_params p) @ '':'' @ r))"
      "CHR '':'' \<notin> set (ice_ufrag (up_params p))" "CHR '':'' \<notin> set r"
      "length (ice_ufrag (up_params p)) + length r + 1 < 65536"
  shows "\<exists>m'. get_stun_message rt p (signed_bytes rt pwd m) addr =
      (if snd (ComputeHmac rt pwd (mi_input rt m)) =
          snd (ComputeHmac rt (ice_pwd (up_params p)) (mi_input rt m))
       then Some (True, Some m', r, [])
       else Some (True, None, [], send_binding_error_response rt p (m_transaction_id m) addr 401
              STUN_ERROR_REASON_UNAUTHORIZED)) \<and>
    m_type m' = m_type m \<and> m_transaction_id m' = m_transaction_id m \<and>
    (\<exists>h. m_attrs m' = filter known_attr (m_attrs m) @ [mi_attr h])"
proof -
  let ?h = "snd (ComputeHmac rt pwd (mi_input rt m))"
  define m1 where "m1 = stun_message_new\<lparr>m_buffer := signed_bytes rt pwd m, m_type := m_type m,
    m_length := m_length m + 32, m_transaction_id := m_transaction_id m,
    m_attrs := filter known_attr (m_attrs m) @ [mi_attr ?h]\<rparr>"
  have rd: "stun_read rt stun_message_new (signed_bytes rt pwd m) = Some (True, m1)"
    using signed_read [OF rt(1-3) m(1)] by (simp add: m1_def)
  have fp: "validate_fingerprint rt (signed_bytes rt pwd m)"
    using signed_fingerprint [OF rt(1-3)] m(1) by (simp add: signable_def)
  have k: "known_attr a" if "attr_type a = STUN_ATTR_USERNAME" for a
    using that by (simp add: known_attr_def get_attrribute_value_type_def)
  have "get_attribute m1 STUN_ATTR_USERNAME = get_attribute m STUN_ATTR_USERNAME"
    using user(1) k by (simp add: get_attribute_def m1_def find_append find_filter)
  then have u: "get_attribute m1 STUN_ATTR_USERNAME \<noteq> None"
    "parse_stun_username rt m1 = Some (ice_ufrag (up_params p), r)"
    using user parse_username_fields [OF rt(4) _ user(2-4), of m1] by auto
  have mi: "get_attribute m1 STUN_ATTR_MESSAGE_INTEGRITY \<noteq> None"
    by (auto simp: get_attribute_def m1_def find_None_iff)
  have vm: "validate_message_integrity rt (ice_pwd (up_params p)) m1 =
     (let st = (if ?h = snd (ComputeHmac rt (ice_pwd (up_params p)) (mi_input rt m))
                then k_integrity_ok else k_integrity_bad)
      in Some (st, m1\<lparr>m_password := ice_pwd (up_params p), m_integrity := st\<rparr>))"
    using mi mi_check_eq [OF rt(1-3), of m pwd "ice_pwd (up_params p)"] m(1)
    by (simp add: validate_message_integrity_def get_attribute_def Let_def signable_def m1_def)
  have m1: "m_type m1 = m_type m" "m_transaction_id m1 = m_transaction_id m"
    "m_attrs m1 = filter known_attr (m_attrs m) @ [mi_attr ?h]" by (simp_all add: m1_def)
  show ?thesis
    using u mi m(2) m1
    by (intro exI [of _ "m1\<lparr>m_password := ice_pwd (up_params p), m_integrity := k_integrity_ok\<rparr>"])
      (auto simp: get_stun_message_def fp rd vm Let_def)
qed

text \<open>A signed message that is not a request is handed out as it is, and verifies under its key.\<close>

lemma get_stun_message_signed_other:
  assumes rt: "byte_buffer_ok rt" "byte_order_ok rt" "hmac_ok rt"
    and m: "signable m" "m_type m \<noteq> STUN_BINDING_REQUEST"
  shows "\<exists>m' m''. (\<forall>p addr. get_stun_message rt p (signed_bytes rt pwd m) addr = Some (True, Some m', [], [])) \<and>
    m_type m' = m_type m \<and> m_transaction_id m' = m_transaction_id m \<and>
    validate_message_integrity rt pwd m' = Some (k_integrity_ok, m'')"
proof -
  define m' where "m' = stun_message_new\<lparr>m_buffer := signed_bytes rt pwd m, m_type := m_type m,
    m_length := m_length m + 32, m_transaction_id := m_transaction_id m,
    m_attrs := filter known_attr (m_attrs m) @ [mi_attr (snd (ComputeHmac rt pwd (mi_input rt m)))]\<rparr>"
  have m': "m_type m' = m_type m" "m_transaction_id m' = m_transaction_id m" by (simp_all add: m'_def)
  have "stun_read rt stun_message_new (signed_bytes rt pwd m) = Some (True, m')"
    using signed_read [OF rt m(1)] by (simp add: m'_def)
  moreover have "validate_fingerprint rt (signed_bytes rt pwd m)"
    using signed_fingerprint [OF rt] m(1) by (simp add: signable_def)
  ultimately have "get_stun_message rt p (signed_bytes rt pwd m) addr = Some (True, Some m', [], [])" for p addr
    using m(2) m'(1) by (simp add: get_stun_message_def)
  moreover obtain m'' where "validate_message_integrity rt pwd m' = Some (k_integrity_ok, m'')"
    using signed_integrity [OF rt m(1), of m' pwd "snd (ComputeHmac rt pwd (mi_input rt m))" pwd]
    by (auto simp: m'_def)
  ultimately show ?thesis using m' by blast
qed

text \<open>
  C7: A binding request reaches the ICE layer only when it is authentic: the fingerprint is right, the
  user name is \<open>local:remote\<close> with this port's user fragment, and the digest in the packet is the one
  computed with this port's password.  A request that is not handed out is answered at most with one
  error response, sent to where it came from.\<close>

theorem get_stun_message_authentic:
  assumes "get_stun_message rt p data addr = Some (ret, out, user, pkts)"
  shows "(case out of
     Some m \<Rightarrow> ret \<and> pkts = [] \<and> validate_fingerprint rt data \<and>
       (m_type m = STUN_BINDING_REQUEST \<longrightarrow>
          parse_stun_username rt m = Some (ice_ufrag (up_params p), user) \<and> integrity_ok m \<and>
          validate_message_integrity_of_type rt STUN_ATTR_MESSAGE_INTEGRITY 20 data
            (ice_pwd (up_params p)) = Some True)
   | None \<Rightarrow> length pkts \<le> 1 \<and> (\<forall>pkt \<in> set pkts. snd pkt = addr) \<and> (\<not> ret \<longrightarrow> pkts = []))"
proof -
  have err: "length (send_binding_error_response rt p t addr c r) \<le> 1 \<and>
      (\<forall>pkt \<in> set (send_binding_error_response rt p t addr c r). snd pkt = addr)" for t c r
    by (auto simp: send_binding_error_response_def port_send_to_def Let_def split: prod.splits)
  have user: "parse_stun_username rt (m\<lparr>m_password := pw, m_integrity := st\<rparr>) = parse_stun_username rt m"
    for m pw st by (simp add: parse_stun_username_def get_attribute_def)
  show ?thesis
    using assms err
    by (auto simp: get_stun_message_def validate_message_integrity_def integrity_ok_def Let_def user
        dest: stun_read_buffer split: if_splits option.splits prod.splits Option.bind_splits)
qed

definition sample_port :: udp_port where
  "sample_port = (udp_port_new ''audio'' RTP \<lparr>ice_ufrag = ''ab'', ice_pwd = ''secret''\<rparr>)\<lparr>up_async := True\<rparr>"

definition sample_peer :: udp_port where
  "sample_peer = (udp_port_new ''audio'' RTP \<lparr>ice_ufrag = ''cd'', ice_pwd = ''other''\<rparr>)\<lparr>up_async := True\<rparr>"

definition sample_candidate :: candidate where
  "sample_candidate = \<lparr>c_component = RTP, c_protocol = ''udp'', c_address = \<lparr>ipaddr = IPv4 7, sport = 9\<rparr>,
     c_port = 9, c_priority = 100, c_username = ''cd'', c_password = ''other'', c_type = ''prflx'',
     c_foundation = []\<rparr>"

lemma sample_port_accepts:
  "\<exists>m'. get_stun_message ref_rtc sample_port (signed_bytes ref_rtc ''secret'' sample_request) addr =
     Some (True, Some m', ''cd'', []) \<and> m_type m' = STUN_BINDING_REQUEST"
proof -
  have u: "get_attribute sample_request STUN_ATTR_USERNAME =
      Some (byte_string_attr STUN_ATTR_USERNAME (ice_ufrag (up_params sample_port) @ '':'' @ ''cd''))"
    "m_type sample_request = STUN_BINDING_REQUEST"
    by (simp_all add: sample_request_def add_attribute_def stun_message_new_def byte_string_attr_def
        get_attribute_def sample_port_def udp_port_new_def)
  show ?thesis
    using get_stun_message_signed [OF ref_rtc_ok sample_request_signable u(2) u(1), of "''secret''" addr] u(2)
    by (auto simp: sample_port_def udp_port_new_def)
qed

theorem get_stun_message_authentic_witness:
  "validate_message_integrity_of_type ref_rtc STUN_ATTR_MESSAGE_INTEGRITY 20
     (signed_bytes ref_rtc ''secret'' sample_request) ''secret'' = Some True"
proof -
  obtain m' where g: "get_stun_message ref_rtc sample_port (signed_bytes ref_rtc ''secret'' sample_request)
      \<lparr>ipaddr = IPv4 7, sport = 9\<rparr> = Some (True, Some m', ''cd'', [])" "m_type m' = STUN_BINDING_REQUEST"
    using sample_port_accepts by blast
  show ?thesis
    using get_stun_message_authentic [OF g(1)] g(2) by (simp add: sample_port_def udp_port_new_def)
qed

section \<open>A packet that makes the check read past its end\<close>

text \<open>
  A binding request whose MESSAGE-INTEGRITY attribute claims no bytes: the reader accepts it, and
  \<^verbatim>\<open>memcmp\<close> compares 20 bytes of which only the fingerprint is there.\<close>

definition short_mi_message :: "string \<Rightarrow> stun_message" where
  "short_mi_message user = add_attribute (ByteStringAttr STUN_ATTR_MESSAGE_INTEGRITY 0 [])
     (add_attribute (byte_string_attr STUN_ATTR_USERNAME user)
       (stun_message_new\<lparr>m_type := STUN_BINDING_REQUEST\<rparr>))"

definition short_mi_packet :: "rtcbase \<Rightarrow> string \<Rightarrow> string" where
  "short_mi_packet rt user = snd (stun_write rt (snd (add_fingerprint rt (short_mi_message user))) [])"

lemma short_mi_message_simps:
  assumes "length user < 65000"
  shows "msg_wf (short_mi_message user)" "m_type (short_mi_message user) = STUN_BINDING_REQUEST"
    and "m_attrs (short_mi_message user) =
      [byte_string_attr STUN_ATTR_USERNAME user, ByteStringAttr STUN_ATTR_MESSAGE_INTEGRITY 0 []]"
    and "unat (m_length (short_mi_message user)) = padded (length user) + 8"
proof -
  have p: "padded (length user) < 65004" using padded_lt [of "length user"] assms by simp
  have "msg_wf (fold add_attribute [byte_string_attr STUN_ATTR_USERNAME user,
      ByteStringAttr STUN_ATTR_MESSAGE_INTEGRITY 0 []] (stun_message_new\<lparr>m_type := STUN_BINDING_REQUEST\<rparr>)) \<and>
    m_attrs (fold add_attribute [byte_string_attr STUN_ATTR_USERNAME user,
      ByteStringAttr STUN_ATTR_MESSAGE_INTEGRITY 0 []] (stun_message_new\<lparr>m_type := STUN_BINDING_REQUEST\<rparr>)) =
    m_attrs (stun_message_new\<lparr>m_type := STUN_BINDING_REQUEST\<rparr>) @ [byte_string_attr STUN_ATTR_USERNAME user,
      ByteStringAttr STUN_ATTR_MESSAGE_INTEGRITY 0 []]"
    by (rule fold_add_attribute_wf)
      (use assms p in \<open>auto simp: msg_wf_def stun_message_new_def EMPTY_TRANSACTION_ID_def
         byte_string_attr_def attr_size_def\<close>)
  then show wf: "msg_wf (short_mi_message user)" and as: "m_attrs (short_mi_message user) =
      [byte_string_attr STUN_ATTR_USERNAME user, ByteStringAttr STUN_ATTR_MESSAGE_INTEGRITY 0 []]"
    by (simp_all add: short_mi_message_def stun_message_new_def)
  show "m_type (short_mi_message user) = STUN_BINDING_REQUEST"
    by (simp add: short_mi_message_def add_attribute_def)
  show "unat (m_length (short_mi_message user)) = padded (length user) + 8"
    using wf as assms by (simp add: msg_wf_def attr_size_def byte_string_attr_def)
qed

lemma short_mi_packet_eq:
  assumes "byte_buffer_ok rt" "length user < 65000"
  defines "m \<equiv> short_mi_message user"
  shows "short_mi_packet rt user = stun_header STUN_BINDING_REQUEST (m_length m + 8) (m_transaction_id m)
    @ attrs_enc rt (m_attrs m @ [fp_attr rt (fp_input rt m)])"
proof -
  note s = short_mi_message_simps [OF assms(2)]
  have wf: "\<forall>a \<in> set (m_attrs m). attr_wf a" using s(1) by (simp add: msg_wf_def m_def)
  have "\<forall>a \<in> set (m_attrs m @ [fp_attr rt (fp_input rt m)]). attr_wf a" using wf by auto
  then show ?thesis
    using add_fingerprint_eq [OF assms(1) wf] s(2)
      stun_write_eq [OF assms(1), of "snd (add_fingerprint rt m)" "[]"]
    by (simp add: short_mi_packet_def m_def)
qed

text \<open>
  \<^verbatim>\<open>_validate_message_integrity_of_type\<close> compares 20 bytes without checking that the attribute has
  them: a binding request with the right user name and an empty MESSAGE-INTEGRITY attribute, sent by
  anyone who knows this port's user fragment, passes the fingerprint check and the reader, and makes
  \<^verbatim>\<open>get_stun_message\<close> read past the end of the packet, whatever the password.\<close>

theorem short_integrity_overread:
  assumes rt: "byte_buffer_ok rt" "byte_order_ok rt" "hmac_ok rt" "split_ok rt"
    and user: "CHR '':'' \<notin> set (ice_ufrag (up_params p))" "CHR '':'' \<notin> set r"
      "length (ice_ufrag (up_params p)) + length r + 1 < 65000"
  shows "get_stun_message rt p (short_mi_packet rt (ice_ufrag (up_params p) @ '':'' @ r)) addr = None"
proof -
  define u where "u = ice_ufrag (up_params p) @ '':'' @ r"
  have lu: "length u < 65000" using user(3) by (simp add: u_def)
  define m where "m = short_mi_message u"
  note s = short_mi_message_simps [OF lu, folded m_def]
  let ?fp = "fp_attr rt (fp_input rt m)" and ?mi = "ByteStringAttr STUN_ATTR_MESSAGE_INTEGRITY 0 []"
  let ?H = "stun_header STUN_BINDING_REQUEST (m_length m + 8) (m_transaction_id m)"
  define d where "d = short_mi_packet rt u"
  have d: "d = ?H @ attrs_enc rt (m_attrs m @ [?fp])"
    using short_mi_packet_eq [OF rt(1) lu] by (simp add: d_def m_def)
  have wf: "\<forall>a \<in> set (m_attrs m). attr_wf a" "length (m_transaction_id m) = 12"
    using s(1) by (simp_all add: msg_wf_def)
  have asz: "attrs_size (m_attrs m) = padded (length u) + 8"
    using lu by (simp add: s(3) attr_size_def byte_string_attr_def)
  have ml: "unat (m_length m + 8) = padded (length u) + 16"
    using unat_add_u16 [of "m_length m" 8] s(4) padded_lt [of "length u"] lu by simp
  have len: "length d = padded (length u) + 36" using rt(1) wf asz by (simp add: d)
  then have len4: "length d mod 4 = 0" using padded_mod4 [of "length u"] by presburger
  have "?H @ attrs_enc rt (m_attrs m) = fp_input rt m" by (simp add: fp_input_def s(2))
  then have fp: "validate_fingerprint rt d"
    using fp_accept [OF rt(2) wf(2), of "attrs_enc rt (m_attrs m)" "fp_input rt m"] rt(1) wf
    by (simp add: d fp_input_def s(2))
  define m1 where "m1 = stun_message_new\<lparr>m_buffer := d, m_type := STUN_BINDING_REQUEST,
      m_length := m_length m + 8, m_transaction_id := m_transaction_id m, m_attrs := m_attrs m\<rparr>"
  have kn: "filter known_attr (m_attrs m @ [?fp]) = m_attrs m"
    by (simp add: s(3) known_attr_def get_attrribute_value_type_def byte_string_attr_def fp_attr_def)
  have typed: "\<forall>a \<in> set (m_attrs m @ [?fp]). attr_wf a \<and> attr_typed a"
    using wf(1) by (auto simp: s(3) byte_string_attr_def get_attrribute_value_type_def)
  have rd: "stun_read rt stun_message_new d = Some (True, m1)"
    using stun_read_enc [OF rt(1,2) wf(2) _ typed _ d, of stun_message_new] ml asz kn
    by (simp add: m1_def)
  have un: "parse_stun_username rt m1 = Some (ice_ufrag (up_params p), r)"
    by (rule parse_username_fields [OF rt(4)])
      (use user in \<open>simp_all add: get_attribute_def m1_def s(3) byte_string_attr_def u_def\<close>)
  have dd: "d = ?H @ attrs_enc rt [byte_string_attr STUN_ATTR_USERNAME u] @ attr_enc rt ?mi @ attr_enc rt ?fp"
    by (simp add: d s(3))
  have pos: "find_attr_pos rt d STUN_ATTR_MESSAGE_INTEGRITY 20 = Some (24 + padded (length u))"
    unfolding dd
    using find_attr_pos_enc [OF rt(2,1), of ?mi "[byte_string_attr STUN_ATTR_USERNAME u]" ?H "attr_enc rt ?fp"]
      wf(2) lu by (simp add: attr_size_def byte_string_attr_def)
  have l2: "GetBE16 rt (drop 2 d) = m_length m + 8"
    using byte_order_simps(1) [OF rt(2), of "drop 2 d"] by (simp add: d stun_header_def)
  have hm: "fst (ComputeHmac rt k x) = 20" for k x using rt(3) by (simp add: hmac_simps)
  have "validate_message_integrity_of_type rt STUN_ATTR_MESSAGE_INTEGRITY 20 d key = None" for key
    unfolding validate_message_integrity_of_type_def Let_def l2 ml pos option.case
    using len len4 hm by (simp add: split_beta)
  then have "validate_message_integrity rt key m1 = None" for key
    by (simp add: validate_message_integrity_def get_attribute_def m1_def s(3) byte_string_attr_def)
  then show ?thesis
    unfolding u_def [symmetric] d_def [symmetric]
    using un by (simp add: get_stun_message_def fp rd get_attribute_def)
      (simp add: m1_def s(3) byte_string_attr_def)
qed

theorem short_integrity_overread_witness:
  "get_stun_message ref_rtc sample_port (short_mi_packet ref_rtc ''ab:x'') \<lparr>ipaddr = IPv4 7, sport = 9\<rparr> = None"
  using short_integrity_overread [OF ref_rtc_ok, of sample_port "''x''"]
  by (simp add: sample_port_def udp_port_new_def)


section \<open>Text form\<close>

text \<open>\<open>self\<close> is the printed address of the object.\<close>

definition port_to_string :: "(socket_address \<Rightarrow> string) \<Rightarrow> string \<Rightarrow> udp_port \<Rightarrow> string" where
  "port_to_string addr_text self p =
     ''Port['' @ self @ '':'' @ up_transport_name p @ '':'' @ dec_digits (unat (component_id (up_component p))) @
     '':'' @ ice_ufrag (up_params p) @ '':'' @ ice_pwd (up_params p) @ '':'' @ addr_text (up_local_addr p) @ '']''"

end
