(* ===== verification/Registry.thy ===== *)
theory Registry
  imports Prelude "HOL-Library.AList"
begin

text \<open>
  The contract of the keyed stores of the code (\<^verbatim>\<open>std::map\<close>/\<^verbatim>\<open>std::unordered_map\<close> from an identifier to
  an object): pending STUN requests, connections by remote address, peer connections by user and
  stream.  Clients rely on a lookup after an insertion or an erasure; a history of operations is
  reduced to the last operation on the key.
\<close>

datatype ('k, 'v) reg_op = Put 'k 'v | Del 'k

primrec reg_key :: "('k, 'v) reg_op \<Rightarrow> 'k" where
  "reg_key (Put k v) = k"
| "reg_key (Del k) = k"

primrec reg_value :: "('k, 'v) reg_op \<Rightarrow> 'v option" where
  "reg_value (Put k v) = Some v"
| "reg_value (Del k) = None"

locale registry =
  fixes reg_inv :: "'s \<Rightarrow> bool"
    and reg_get :: "'s \<Rightarrow> 'k \<Rightarrow> 'v option"
    and reg_put :: "'k \<Rightarrow> 'v \<Rightarrow> 's \<Rightarrow> 's"
    and reg_del :: "'k \<Rightarrow> 's \<Rightarrow> 's"
  assumes inv_put: "reg_inv s \<Longrightarrow> reg_inv (reg_put k v s)"
    and inv_del: "reg_inv s \<Longrightarrow> reg_inv (reg_del k s)"
    and get_put: "reg_inv s \<Longrightarrow> reg_get (reg_put k v s) k' = (if k = k' then Some v else reg_get s k')"
    and get_del: "reg_inv s \<Longrightarrow> reg_get (reg_del k s) k' = (if k = k' then None else reg_get s k')"
begin

definition apply_op :: "('k, 'v) reg_op \<Rightarrow> 's \<Rightarrow> 's" where
  "apply_op p = (case p of Put k v \<Rightarrow> reg_put k v | Del k \<Rightarrow> reg_del k)"

lemma get_put_same [simp]: "reg_inv s \<Longrightarrow> reg_get (reg_put k v s) k = Some v"
  by (simp add: get_put)

lemma get_del_same [simp]: "reg_inv s \<Longrightarrow> reg_get (reg_del k s) k = None"
  by (simp add: get_del)

lemma get_apply:
  "reg_inv s \<Longrightarrow>
     reg_get (apply_op p s) k = (if reg_key p = k then reg_value p else reg_get s k) \<and>
     reg_inv (apply_op p s)"
  by (cases p) (simp_all add: apply_op_def get_put get_del inv_put inv_del)

lemma inv_history: "reg_inv s \<Longrightarrow> reg_inv (fold apply_op ps s)"
  by (induction ps arbitrary: s) (simp_all add: get_apply)

text \<open>Only the last operation on a key matters.\<close>

lemma get_history:
  "reg_inv s \<Longrightarrow> reg_get (fold apply_op ps s) k =
     (let qs = filter (\<lambda>p. reg_key p = k) ps in
      if qs = [] then reg_get s k else reg_value (last qs))"
proof (induction ps rule: rev_induct)
  case (snoc p ps)
  then show ?case
    using get_apply [OF inv_history [OF snoc.prems, of ps], of p k]
    by (simp add: Let_def)
qed simp

end

text \<open>The two representations of the models.\<close>

abbreviation distinct_keys :: "('k \<times> 'v) list \<Rightarrow> bool" where
  "distinct_keys kvs \<equiv> distinct (map fst kvs)"

interpretation alist_reg: registry distinct_keys map_of AList.update AList.delete
proof
  fix k k' :: 'a and v :: 'b and s :: "('a \<times> 'b) list"
  assume "distinct_keys s"
  then show "distinct_keys (AList.update k v s)" by (rule distinct_update)
  show "distinct_keys (AList.delete k s)"
    using \<open>distinct_keys s\<close> by (rule distinct_delete)
  show "map_of (AList.update k v s) k' = (if k = k' then Some v else map_of s k')"
    by (simp add: update_conv)
  show "map_of (AList.delete k s) k' = (if k = k' then None else map_of s k')"
    by (simp add: delete_conv)
qed

interpretation map_reg: registry "\<lambda>m. True" "\<lambda>m. m" "\<lambda>k v m. m(k \<mapsto> v)" "\<lambda>k m. m(k := None)"
  by unfold_locales simp_all

end
