(* ===== verification/Stun_Request.thy ===== *)
theory Stun_Request
  imports Stun Registry
begin

text \<open>
  \<^verbatim>\<open>src/ice/stun_request.h\<close> and \<^verbatim>\<open>stun_request.cpp\<close>: outstanding STUN requests.  A manager owns
  heap-allocated requests (\<open>rm_heap\<close>, by address) and finds them by transaction id (\<open>rm_map\<close>).
  \<^verbatim>\<open>delete\<close> of a request that is not alive is a fault (\<open>None\<close>).  The virtual methods \<^verbatim>\<open>prepare\<close>,
  \<^verbatim>\<open>on_request_response\<close> and \<^verbatim>\<open>on_request_error_response\<close> are arguments; the callbacks may change, or
  destroy, whatever holds the manager.
\<close>

record stun_request =
  rq_msg :: stun_message
  rq_managed :: bool
  rq_ts :: int

record request_manager =
  rm_map :: "(string \<times> nat) list"
  rm_heap :: "nat \<Rightarrow> stun_request option"
  rm_next :: nat

definition request_manager_new :: request_manager where
  "request_manager_new = \<lparr>rm_map = [], rm_heap = Map.empty, rm_next = 0\<rparr>"

definition request_id :: "stun_request \<Rightarrow> string" where
  "request_id rq = m_transaction_id (rq_msg rq)"

definition request_type :: "stun_request \<Rightarrow> u32" where
  "request_type rq = ucast (m_type (rq_msg rq))"

text \<open>\<^verbatim>\<open>new StunRequest(msg)\<close> with the random transaction id \<open>tid\<close>.\<close>

definition request_new :: "string \<Rightarrow> stun_message \<Rightarrow> request_manager \<Rightarrow> nat \<times> request_manager" where
  "request_new tid msg rm =
     (let r = rm_next rm
      in (r, rm\<lparr>rm_heap := (rm_heap rm)(r \<mapsto>
             \<lparr>rq_msg = msg\<lparr>m_transaction_id := tid\<rparr>, rq_managed = False, rq_ts = 0\<rparr>),
           rm_next := Suc r\<rparr>))"

definition request_elapsed :: "int \<Rightarrow> stun_request \<Rightarrow> int" where
  "request_elapsed now rq = to_int32 (now - rq_ts rq)"

text \<open>\<^verbatim>\<open>StunRequest::construct\<close> and \<^verbatim>\<open>StunRequest::send\<close>: the second takes the time and gives the packet
  handed to \<^verbatim>\<open>signal_send_packet\<close>, if the message can be written.\<close>

definition request_construct :: "(stun_message \<Rightarrow> stun_message) \<Rightarrow> stun_request \<Rightarrow> stun_request" where
  "request_construct prepare rq = rq\<lparr>rq_msg := prepare (rq_msg rq)\<rparr>"

definition request_send :: "rtcbase \<Rightarrow> int \<Rightarrow> stun_request \<Rightarrow> string option \<times> stun_request" where
  "request_send rt now rq =
     (let rq = rq\<lparr>rq_ts := now\<rparr>;
          (ok, buf) = stun_write rt (rq_msg rq) []
      in (if ok then Some buf else None, rq))"

definition manager_send ::
    "rtcbase \<Rightarrow> (stun_message \<Rightarrow> stun_message) \<Rightarrow> int \<Rightarrow> nat \<Rightarrow> request_manager
      \<Rightarrow> (string option \<times> request_manager) option" where
  "manager_send rt prepare now r rm =
     do { rq \<leftarrow> rm_heap rm r;
          (let rq = request_construct prepare (rq\<lparr>rq_managed := True\<rparr>);
               mp = AList.update (request_id rq) r (rm_map rm);
               (pkt, rq) = request_send rt now rq
           in Some (pkt, rm\<lparr>rm_map := mp, rm_heap := (rm_heap rm)(r \<mapsto> rq)\<rparr>)) }"

definition manager_remove :: "stun_request \<Rightarrow> request_manager \<Rightarrow> request_manager" where
  "manager_remove rq rm =
     (case map_of (rm_map rm) (request_id rq) of
        None \<Rightarrow> rm
      | Some _ \<Rightarrow> rm\<lparr>rm_map := AList.delete (request_id rq) (rm_map rm)\<rparr>)"

text \<open>\<^verbatim>\<open>delete request\<close>.\<close>

definition request_delete :: "nat \<Rightarrow> request_manager \<Rightarrow> request_manager option" where
  "request_delete r rm =
     do { rq \<leftarrow> rm_heap rm r;
          (let rm = (if rq_managed rq then manager_remove rq rm else rm)
           in Some (rm\<lparr>rm_heap := (rm_heap rm)(r := None)\<rparr>)) }"

lemma length_alist_delete: "length (AList.delete k kvs) \<le> length kvs"
  by (simp add: AList.delete_eq)

lemma request_delete_map:
  "request_delete r rm = Some rm' \<Longrightarrow> length (rm_map rm') \<le> length (rm_map rm)"
  by (auto simp: request_delete_def manager_remove_def Let_def length_alist_delete
      split: Option.bind_splits if_splits option.splits)

function manager_destroy :: "request_manager \<Rightarrow> request_manager option" where
  "manager_destroy rm = (case rm_map rm of
      [] \<Rightarrow> Some rm
    | kr # rest \<Rightarrow>
        do { rm \<leftarrow> request_delete (snd kr) (rm\<lparr>rm_map := rest\<rparr>); manager_destroy rm })"
  by pat_completeness auto
termination
proof (relation "measure (\<lambda>rm. length (rm_map rm))")
  fix rm rm' :: request_manager and kr :: "string \<times> nat" and rest
  assume "rm_map rm = kr # rest" "request_delete (snd kr) (rm\<lparr>rm_map := rest\<rparr>) = Some rm'"
  then show "(rm', rm) \<in> measure (\<lambda>rm. length (rm_map rm))"
    using request_delete_map by fastforce
qed simp

declare manager_destroy.simps [simp del]

text \<open>
  \<^verbatim>\<open>check_response\<close>.  \<open>get\<close> and \<open>put\<close> reach the manager inside the state \<open>'w\<close> of the callbacks
  (\<open>get w = None\<close>: it has been destroyed).
\<close>

definition finish_request ::
    "('w \<Rightarrow> request_manager option) \<Rightarrow> (request_manager \<Rightarrow> 'w \<Rightarrow> 'w) \<Rightarrow> nat \<Rightarrow> bool \<Rightarrow> 'w
      \<Rightarrow> (bool \<times> 'w) option" where
  "finish_request get put r b w =
     do { rm \<leftarrow> get w; rm \<leftarrow> request_delete r rm; Some (b, put rm w) }"

definition check_response ::
    "('w \<Rightarrow> request_manager option) \<Rightarrow> (request_manager \<Rightarrow> 'w \<Rightarrow> 'w)
      \<Rightarrow> (nat \<Rightarrow> stun_message \<Rightarrow> 'w \<Rightarrow> 'w option) \<Rightarrow> (nat \<Rightarrow> stun_message \<Rightarrow> 'w \<Rightarrow> 'w option)
      \<Rightarrow> stun_message \<Rightarrow> 'w \<Rightarrow> (bool \<times> 'w) option" where
  "check_response get put on_request_response on_request_error_response msg w =
     do { rm \<leftarrow> get w;
          (case map_of (rm_map rm) (m_transaction_id msg) of
             None \<Rightarrow> Some (False, w)
           | Some r \<Rightarrow>
               do { rq \<leftarrow> rm_heap rm r;
                    if ucast (m_type msg) = get_stun_success_response (request_type rq)
                    then do { w \<leftarrow> on_request_response r msg w; finish_request get put r True w }
                    else if ucast (m_type msg) = get_stun_error_response (request_type rq)
                    then do { w \<leftarrow> on_request_error_response r msg w; finish_request get put r True w }
                    else finish_request get put r False w }) }"

lemma check_response_cases:
  assumes "check_response get put on_ok on_err msg w = Some (b, w')"
  shows "w' = w \<or> (\<exists>r b0 w1. finish_request get put r b0 w1 = Some (b, w') \<and>
    (w1 = w \<or> on_ok r msg w = Some w1 \<or> on_err r msg w = Some w1))"
proof -
  obtain rm where rm: "get w = Some rm" using assms by (cases "get w") (auto simp: check_response_def)
  show ?thesis
  proof (cases "map_of (rm_map rm) (m_transaction_id msg)")
    case None
    then show ?thesis using assms rm by (simp add: check_response_def)
  next
    case (Some r)
    then obtain rq where rq: "rm_heap rm r = Some rq"
      using assms rm by (cases "rm_heap rm r") (auto simp: check_response_def)
    show ?thesis
      using assms rm Some rq unfolding check_response_def
      by (cases "on_ok r msg w"; cases "on_err r msg w") (auto split: if_splits)
  qed
qed

section \<open>The invariant\<close>

text \<open>The map holds exactly the live requests, each under its own transaction id.\<close>

definition manager_inv :: "request_manager \<Rightarrow> bool" where
  "manager_inv rm \<longleftrightarrow> distinct_keys (rm_map rm) \<and>
     (\<forall>k r. map_of (rm_map rm) k = Some r \<longleftrightarrow>
        (\<exists>rq. rm_heap rm r = Some rq \<and> request_id rq = k)) \<and>
     (\<forall>r rq. rm_heap rm r = Some rq \<longrightarrow> rq_managed rq \<and> r < rm_next rm)"

lemma manager_inv_new [simp]: "manager_inv request_manager_new"
  by (simp add: manager_inv_def request_manager_new_def)

lemma manager_invD:
  assumes "manager_inv rm"
  shows "distinct_keys (rm_map rm)"
    and "map_of (rm_map rm) k = Some r \<longleftrightarrow> (\<exists>rq. rm_heap rm r = Some rq \<and> request_id rq = k)"
    and "rm_heap rm r = Some rq \<Longrightarrow> rq_managed rq"
    and "rm_heap rm r = Some rq \<Longrightarrow> r < rm_next rm"
  using assms unfolding manager_inv_def by blast+

lemma manager_invI:
  assumes "distinct_keys (rm_map rm)"
    and "\<And>k r. map_of (rm_map rm) k = Some r \<longleftrightarrow> (\<exists>rq. rm_heap rm r = Some rq \<and> request_id rq = k)"
    and "\<And>r rq. rm_heap rm r = Some rq \<Longrightarrow> rq_managed rq \<and> r < rm_next rm"
  shows "manager_inv rm"
  using assms unfolding manager_inv_def by blast

text \<open>What deleting a pending request leaves.\<close>

lemma request_delete_pending:
  assumes inv: "manager_inv rm" and k: "map_of (rm_map rm) k = Some r"
  shows "\<exists>rm'. request_delete r rm = Some rm' \<and> manager_inv rm' \<and>
    map_of (rm_map rm') k = None \<and> rm_heap rm' r = None \<and>
    (\<forall>k'. k' \<noteq> k \<longrightarrow> map_of (rm_map rm') k' = map_of (rm_map rm) k')"
proof -
  note d = manager_invD(1) [OF inv]
  obtain rq where rq: "rm_heap rm r = Some rq" "request_id rq = k" "rq_managed rq"
    using manager_invD(2,3) [OF inv] k by metis
  let ?rm' = "rm\<lparr>rm_map := AList.delete k (rm_map rm), rm_heap := (rm_heap rm)(r := None)\<rparr>"
  have "request_delete r rm = Some ?rm'"
    using rq k by (simp add: request_delete_def manager_remove_def)
  moreover have "manager_inv ?rm'"
  proof (rule manager_invI)
    fix k' r'
    have "r' = r \<longleftrightarrow> k' = k" if "rm_heap rm r' = Some q" "request_id q = k'" for q
      using that rq k manager_invD(2) [OF inv] by (metis option.inject)
    then show "map_of (rm_map ?rm') k' = Some r' \<longleftrightarrow>
        (\<exists>rq. rm_heap ?rm' r' = Some rq \<and> request_id rq = k')"
      using manager_invD(2) [OF inv, of k' r'] by (auto simp: alist_reg.get_del [OF d] simp del: map_of_eq_Some_iff)
  next
    fix r' q assume "rm_heap ?rm' r' = Some q"
    then show "rq_managed q \<and> r' < rm_next ?rm'"
      using manager_invD(3,4) [OF inv, of r' q] by (auto split: if_splits)
  qed (simp add: alist_reg.inv_del [OF d])
  ultimately show ?thesis using alist_reg.get_del [OF d] by (intro exI [of _ ?rm']) auto
qed

lemma manager_send_inv:
  assumes inv: "manager_inv rm" and new: "request_new tid msg rm = (r, rm1)"
    and fresh: "map_of (rm_map rm) tid = None"
    and keep: "\<And>m. m_transaction_id (prepare m) = m_transaction_id m"
  shows "\<exists>pkt rm2. manager_send rt prepare now r rm1 = Some (pkt, rm2) \<and> manager_inv rm2 \<and>
    map_of (rm_map rm2) tid = Some r \<and>
    (\<forall>k. k \<noteq> tid \<longrightarrow> map_of (rm_map rm2) k = map_of (rm_map rm) k)"
proof -
  note d = manager_invD(1) [OF inv]
  define rq where "rq = \<lparr>rq_msg = prepare (msg\<lparr>m_transaction_id := tid\<rparr>), rq_managed = True, rq_ts = now\<rparr>"
  have id: "request_id rq = tid" and m: "rq_managed rq" by (simp_all add: rq_def request_id_def keep)
  have r: "r = rm_next rm" and rm1: "rm1 = rm\<lparr>rm_heap := (rm_heap rm)(r \<mapsto>
      \<lparr>rq_msg = msg\<lparr>m_transaction_id := tid\<rparr>, rq_managed = False, rq_ts = 0\<rparr>), rm_next := Suc r\<rparr>"
    using new by (auto simp: request_new_def Let_def)
  let ?rm2 = "rm\<lparr>rm_map := AList.update tid r (rm_map rm), rm_heap := (rm_heap rm)(r \<mapsto> rq),
      rm_next := Suc r\<rparr>"
  obtain pkt where "manager_send rt prepare now r rm1 = Some (pkt, ?rm2)"
    by (cases "stun_write rt (prepare (msg\<lparr>m_transaction_id := tid\<rparr>)) []")
      (simp add: manager_send_def request_send_def request_construct_def rm1 Let_def request_id_def keep rq_def)
  moreover have "manager_inv ?rm2"
  proof (rule manager_invI)
    fix k' r'
    have "rm_heap rm r = None" using manager_invD(4) [OF inv, of r] by (cases "rm_heap rm r") (auto simp: r)
    moreover have "\<not> (\<exists>q. rm_heap rm r' = Some q \<and> request_id q = tid)"
      using manager_invD(2) [OF inv, of tid r'] fresh by auto
    ultimately show "map_of (rm_map ?rm2) k' = Some r' \<longleftrightarrow>
        (\<exists>rq. rm_heap ?rm2 r' = Some rq \<and> request_id rq = k')"
      using manager_invD(2) [OF inv, of k' r'] id
      by (auto simp: alist_reg.get_put [OF d] simp del: map_of_eq_Some_iff)
  next
    fix r' q assume "rm_heap ?rm2 r' = Some q"
    then show "rq_managed q \<and> r' < rm_next ?rm2"
      using manager_invD(3,4) [OF inv, of r' q] m by (auto simp: r split: if_splits)
  qed (simp add: alist_reg.inv_put [OF d])
  ultimately show ?thesis using alist_reg.get_put [OF d] by (intro exI [of _ pkt] exI [of _ ?rm2]) simp
qed

section \<open>Properties\<close>

lemma finish_request_pending:
  assumes "get w = Some rm" "manager_inv rm" "map_of (rm_map rm) k = Some r"
    and "\<And>rm w. get (put rm w) = Some rm"
  shows "\<exists>w' rm'. finish_request get put r b w = Some (b, w') \<and> get w' = Some rm' \<and> manager_inv rm' \<and>
    map_of (rm_map rm') k = None \<and> rm_heap rm' r = None \<and>
    (\<forall>k'. k' \<noteq> k \<longrightarrow> map_of (rm_map rm') k' = map_of (rm_map rm) k')"
  using request_delete_pending [OF assms(2,3)] assms(1,4) by (auto simp: finish_request_def)


definition sample_pending :: request_manager where
  "sample_pending = \<lparr>rm_map = [(''abcdefghijkl'', 0)],
     rm_heap = [0 \<mapsto> \<lparr>rq_msg = stun_message_new\<lparr>m_type := STUN_BINDING_REQUEST,
       m_transaction_id := ''abcdefghijkl''\<rparr>, rq_managed = True, rq_ts = 5\<rparr>], rm_next = 1\<rparr>"

lemma sample_pending_inv: "manager_inv sample_pending"
  by (rule manager_invI) (auto simp: sample_pending_def request_id_def split: if_splits)


lemma manager_destroy_Cons:
  assumes "manager_inv rm" "rm_map rm = (k, r) # rest"
  shows "\<exists>rm1. request_delete r (rm\<lparr>rm_map := rest\<rparr>) = Some rm1 \<and> manager_inv rm1 \<and> rm_map rm1 = rest"
proof -
  have k: "map_of (rm_map rm) k = Some r" by (simp add: assms(2))
  obtain rq where rq: "rm_heap rm r = Some rq" "request_id rq = k" "rq_managed rq"
    using manager_invD(2,3) [OF assms(1)] k by metis
  have nk: "k \<notin> fst ` set rest" using manager_invD(1) [OF assms(1)] by (simp add: assms(2))
  have del: "AList.delete k (rm_map rm) = rest"
    using nk by (simp add: assms(2))
  from request_delete_pending [OF assms(1) k] rq k del
  have "manager_inv (rm\<lparr>rm_map := rest, rm_heap := (rm_heap rm)(r := None)\<rparr>)"
    by (auto simp: request_delete_def manager_remove_def)
  moreover have "map_of rest k = None" using nk by (simp add: map_of_eq_None_iff)
  ultimately show ?thesis
    using rq by (simp add: request_delete_def manager_remove_def)
qed

text \<open>
  Destroying the manager returns, frees every pending request exactly once (a double \<^verbatim>\<open>delete\<close>
  would be a fault) and leaks none.\<close>

theorem manager_destroy_frees_all:
  assumes "manager_inv rm"
  shows "\<exists>rm'. manager_destroy rm = Some rm' \<and> rm_map rm' = [] \<and> rm_heap rm' = Map.empty"
  using assms
proof (induction "rm_map rm" arbitrary: rm)
  case Nil
  then have "rm_heap rm r = None" for r
    using manager_invD(2) [OF Nil.prems] by (cases "rm_heap rm r") (metis map_of.simps(1) option.distinct(1))+
  then show ?case using Nil(1) by (subst manager_destroy.simps) (auto simp: fun_eq_iff)
next
  case (Cons kr rest)
  obtain k r where kr: "kr = (k, r)" by (cases kr)
  obtain rm1 where rm1: "request_delete r (rm\<lparr>rm_map := rest\<rparr>) = Some rm1" "manager_inv rm1" "rm_map rm1 = rest"
    using manager_destroy_Cons [OF Cons.prems] Cons.hyps(2) kr by metis
  have "manager_destroy rm = manager_destroy rm1"
    using Cons.hyps(2) kr rm1(1) by (subst manager_destroy.simps) (simp flip: Cons.hyps(2))
  then show ?case using Cons.hyps(1) rm1 by metis
qed

theorem manager_destroy_frees_all_witness:
  "\<exists>rm'. manager_destroy sample_pending = Some rm' \<and> rm_heap rm' = Map.empty"
  using manager_destroy_frees_all [OF sample_pending_inv] by blast

end
