(* ===== verification/Ice_Connection.thy ===== *)
theory Ice_Connection
  imports Udp_Port Stun_Request
begin

text \<open>
  \<^verbatim>\<open>src/ice/ice_connection.h\<close> and \<^verbatim>\<open>ice_connection.cpp\<close>: one candidate pair.  The operations that
  can emit \<^verbatim>\<open>singal_state_change\<close> return whether they do; the channel (\<open>Ice_Channel\<close>) runs its slot at
  that point.  Times are milliseconds read from \<^verbatim>\<open>rtc::TimeMillis\<close>.
\<close>

unbundle bit_operations_syntax

section \<open>State\<close>

datatype write_state =
    STATE_WRITABLE | STATE_WRITE_UNRELIABLE | STATE_WRITE_INIT | STATE_WRITE_TIMEOUT

primrec ws_code :: "write_state \<Rightarrow> nat" where
  "ws_code STATE_WRITABLE = 0"
| "ws_code STATE_WRITE_UNRELIABLE = 1"
| "ws_code STATE_WRITE_INIT = 2"
| "ws_code STATE_WRITE_TIMEOUT = 3"

datatype pair_state = WAITING | IN_PROGRESS | SUCCEEDED | FAILED

record sent_ping =
  sp_id :: string
  sent_time :: int

record ice_connection =
  ic_port :: nat
  ic_remote :: candidate
  ic_write_state :: write_state
  ic_receiving :: bool
  ic_last_ping_sent :: int
  ic_num_pings_sent :: int
  ic_pings :: "sent_ping list"
  ic_requests :: request_manager
  ic_last_ping_response_received :: int
  ic_last_ping_received :: int
  ic_last_data_received :: int
  ic_rtt :: int
  ic_rtt_samples :: int
  ic_selected :: bool
  ic_state :: pair_state

definition ice_connection_new :: "nat \<Rightarrow> candidate \<Rightarrow> ice_connection" where
  "ice_connection_new port remote_candidate =
     \<lparr>ic_port = port, ic_remote = remote_candidate, ic_write_state = STATE_WRITE_INIT,
      ic_receiving = False, ic_last_ping_sent = 0, ic_num_pings_sent = 0, ic_pings = [],
      ic_requests = request_manager_new, ic_last_ping_response_received = 0,
      ic_last_ping_received = 0, ic_last_data_received = 0, ic_rtt = 3000, ic_rtt_samples = 0,
      ic_selected = False, ic_state = WAITING\<rparr>"

abbreviation RTT_RATIO :: int where "RTT_RATIO \<equiv> 3"
abbreviation MIN_RTT :: int where "MIN_RTT \<equiv> 100"
abbreviation MAX_RTT :: int where "MAX_RTT \<equiv> 60000"
abbreviation WEAK_CONNECTION_RECEIVE_TIMEOUT :: int where "WEAK_CONNECTION_RECEIVE_TIMEOUT \<equiv> 2500"
abbreviation CONNECTION_WRITE_CONNECT_FAILS :: nat where "CONNECTION_WRITE_CONNECT_FAILS \<equiv> 5"
abbreviation CONNECTION_WRITE_CONNECT_TIMEOUT :: int where "CONNECTION_WRITE_CONNECT_TIMEOUT \<equiv> 5000"
abbreviation CONNECTION_WRITE_TIMEOUT :: int where "CONNECTION_WRITE_TIMEOUT \<equiv> 15000"

definition writable :: "ice_connection \<Rightarrow> bool" where
  "writable c \<longleftrightarrow> ic_write_state c = STATE_WRITABLE"

definition weak :: "ice_connection \<Rightarrow> bool" where
  "weak c \<longleftrightarrow> \<not> (writable c \<and> ic_receiving c)"

definition active :: "ice_connection \<Rightarrow> bool" where
  "active c \<longleftrightarrow> ic_write_state c \<noteq> STATE_WRITE_TIMEOUT"

definition last_received :: "ice_connection \<Rightarrow> int" where
  "last_received c = max (max (ic_last_ping_received c) (ic_last_ping_response_received c))
     (ic_last_data_received c)"

definition set_state :: "pair_state \<Rightarrow> ice_connection \<Rightarrow> ice_connection" where
  "set_state st c = c\<lparr>ic_state := st\<rparr>"

definition set_write_state :: "write_state \<Rightarrow> ice_connection \<Rightarrow> ice_connection \<times> bool" where
  "set_write_state st c = (c\<lparr>ic_write_state := st\<rparr>, ic_write_state c \<noteq> st)"

definition update_receiving :: "int \<Rightarrow> ice_connection \<Rightarrow> ice_connection \<times> bool" where
  "update_receiving now_ts c =
     (let receiving =
            (if ic_last_ping_sent c < ic_last_ping_response_received c then True
             else last_received c > 0 \<and> now_ts < last_received c + WEAK_CONNECTION_RECEIVE_TIMEOUT)
      in if ic_receiving c = receiving then (c, False)
         else (c\<lparr>ic_receiving := receiving\<rparr>, True))"

section \<open>Timeouts\<close>

definition miss_response :: "int \<Rightarrow> ice_connection \<Rightarrow> bool" where
  "miss_response now_ms c = (case ic_pings c of
      [] \<Rightarrow> False
    | p # _ \<Rightarrow> to_int32 (now_ms - sent_time p) > to_int32 (2 * ic_rtt c))"

definition stable :: "int \<Rightarrow> ice_connection \<Rightarrow> bool" where
  "stable now c \<longleftrightarrow> ic_rtt_samples c > RTT_RATIO + 1 \<and> \<not> miss_response now c"

definition too_many_ping_fails :: "nat \<Rightarrow> int \<Rightarrow> int \<Rightarrow> ice_connection \<Rightarrow> bool" where
  "too_many_ping_fails max_pings rtt now_ms c =
     (if length (ic_pings c) < max_pings then False
      else let expected_response_time = to_int32 (sent_time (ic_pings c ! (max_pings - 1)) + rtt)
           in now_ms > expected_response_time)"

definition too_long_without_response :: "int \<Rightarrow> int \<Rightarrow> ice_connection \<Rightarrow> bool" where
  "too_long_without_response min_time now c = (case ic_pings c of
      [] \<Rightarrow> False
    | p # _ \<Rightarrow> now > sent_time p + min_time)"

text \<open>The bound that \<^verbatim>\<open>update_state\<close> derives from the round trip time.\<close>

definition clamp_rtt :: "ice_connection \<Rightarrow> int" where
  "clamp_rtt c = (let rtt = to_int32 (2 * ic_rtt c) in if rtt < MIN_RTT then MIN_RTT else MAX_RTT)"

text \<open>\<^verbatim>\<open>update_state\<close> as its three steps; each may signal.\<close>

definition update_unreliable :: "int \<Rightarrow> int \<Rightarrow> ice_connection \<Rightarrow> ice_connection \<times> bool" where
  "update_unreliable rtt now_ms c =
     (if ic_write_state c = STATE_WRITABLE \<and>
         too_many_ping_fails CONNECTION_WRITE_CONNECT_FAILS rtt now_ms c \<and>
         too_long_without_response CONNECTION_WRITE_CONNECT_TIMEOUT now_ms c
      then set_write_state STATE_WRITE_UNRELIABLE c else (c, False))"

definition update_timeout :: "int \<Rightarrow> ice_connection \<Rightarrow> ice_connection \<times> bool" where
  "update_timeout now_ms c =
     (if (ic_write_state c = STATE_WRITE_UNRELIABLE \<or> ic_write_state c = STATE_WRITE_INIT) \<and>
         too_long_without_response CONNECTION_WRITE_TIMEOUT now_ms c
      then set_write_state STATE_WRITE_TIMEOUT c else (c, False))"

type_synonym conn_op = "ice_connection \<Rightarrow> ice_connection \<times> bool"

definition update_state_ops :: "ice_connection \<Rightarrow> int \<Rightarrow> conn_op list" where
  "update_state_ops c now_ms =
     [update_unreliable (clamp_rtt c) now_ms, update_timeout now_ms, update_receiving now_ms]"

section \<open>Pings and their responses\<close>

definition record_response :: "rtcbase \<Rightarrow> int \<Rightarrow> int \<Rightarrow> ice_connection \<Rightarrow> ice_connection" where
  "record_response rt rtt now c =
     c\<lparr>ic_rtt := (if ic_rtt_samples c > 0 then GetNextMovingAverage rt (ic_rtt c) rtt RTT_RATIO else rtt),
       ic_rtt_samples := ic_rtt_samples c + 1,
       ic_last_ping_response_received := now,
       ic_pings := []\<rparr>"

definition received_ping_response_ops :: "rtcbase \<Rightarrow> int \<Rightarrow> int \<Rightarrow> conn_op list" where
  "received_ping_response_ops rt rtt now =
     [\<lambda>c. (record_response rt rtt now c, False), update_receiving now,
      set_write_state STATE_WRITABLE, \<lambda>c. (set_state SUCCEEDED c, False)]"

text \<open>\<^verbatim>\<open>ConnectionRequest::prepare\<close> for a connection of port \<open>p\<close> with local candidate priority \<open>prio\<close>.\<close>

definition connection_request_prepare ::
    "rtcbase \<Rightarrow> udp_port \<Rightarrow> u32 \<Rightarrow> candidate \<Rightarrow> stun_message \<Rightarrow> stun_message" where
  "connection_request_prepare rt p prio remote msg =
     (let msg = msg\<lparr>m_type := STUN_BINDING_REQUEST\<rparr>;
          username = create_stun_username p (c_username remote);
          msg = add_attribute (byte_string_attr STUN_ATTR_USERNAME username) msg;
          msg = add_attribute (UInt64Attr STUN_ATTR_ICE_CONTROLLING 0) msg;
          msg = add_attribute (ByteStringAttr STUN_ATTR_USE_CANDIDATE 0 []) msg;
          prflx_priority = push_bit 24 ICE_TYPE_PREFERENCE_PRFLX OR (prio AND 0x00FFFFFF);
          msg = add_attribute (UInt32Attr STUN_ATTR_PRIORITY prflx_priority) msg;
          msg = snd (add_message_integrity rt (c_password remote) msg)
      in snd (add_fingerprint rt msg))"

definition local_candidate :: "udp_port \<Rightarrow> candidate option" where
  "local_candidate p = at_index (up_candidates p) 0"

text \<open>
  \<^verbatim>\<open>ping\<close>: the request with the random id \<open>tid\<close> is created, recorded and sent at time \<open>send_ts\<close>;
  the packets go to the remote candidate's address.\<close>

definition conn_ping ::
    "rtcbase \<Rightarrow> udp_port \<Rightarrow> string \<Rightarrow> int \<Rightarrow> int \<Rightarrow> ice_connection
      \<Rightarrow> (ice_connection \<times> packet list) option" where
  "conn_ping rt p tid now_ms send_ts c =
     (let c = c\<lparr>ic_last_ping_sent := now_ms\<rparr>;
          (r, rm) = request_new tid stun_message_new (ic_requests c);
          c = c\<lparr>ic_pings := ic_pings c @ [\<lparr>sp_id = tid, sent_time = now_ms\<rparr>]\<rparr>
      in do {
        lc \<leftarrow> local_candidate p;
        (pkt, rm) \<leftarrow> manager_send rt (connection_request_prepare rt p (c_priority lc) (ic_remote c))
                       send_ts r rm;
        (let c = set_state IN_PROGRESS (c\<lparr>ic_requests := rm\<rparr>);
             c = c\<lparr>ic_num_pings_sent := ic_num_pings_sent c + 1\<rparr>
         in Some (c, case pkt of None \<Rightarrow> []
                     | Some buf \<Rightarrow> port_send_to p buf (c_address (ic_remote c)))) })"

section \<open>Requests of the peer\<close>

definition send_stun_binding_response ::
    "rtcbase \<Rightarrow> udp_port \<Rightarrow> candidate \<Rightarrow> stun_message \<Rightarrow> packet list" where
  "send_stun_binding_response rt p remote m =
     (if get_attribute m STUN_ATTR_USERNAME = None then []
      else
        let response = stun_message_new\<lparr>m_type := STUN_BINDING_RESPONSE,
              m_transaction_id := m_transaction_id m\<rparr>;
            response = add_attribute (XorAddressAttr STUN_ATTR_XOR_MAPPED_ADDRESS (c_address remote)) response;
            response = snd (add_message_integrity rt (ice_pwd (up_params p)) response);
            response = snd (add_fingerprint rt response);
            (ok, buf) = stun_write rt response []
        in if ok then port_send_to p buf (c_address remote) else [])"

definition handle_stun_binding_request ::
    "rtcbase \<Rightarrow> udp_port \<Rightarrow> ice_connection \<Rightarrow> stun_message \<Rightarrow> packet list" where
  "handle_stun_binding_request rt p c m = send_stun_binding_response rt p (ic_remote c) m"

definition maybe_set_remote_ice_params :: "ice_parameters \<Rightarrow> ice_connection \<Rightarrow> ice_connection" where
  "maybe_set_remote_ice_params params c =
     (if c_username (ic_remote c) = ice_ufrag params \<and> c_password (ic_remote c) = []
      then c\<lparr>ic_remote := (ic_remote c)\<lparr>c_password := ice_pwd params\<rparr>\<rparr> else c)"

text \<open>\<^verbatim>\<open>priority\<close>: \<open>2 * max\<close> is computed in 32 bits before it is widened.\<close>

definition conn_priority :: "u32 \<Rightarrow> u32 \<Rightarrow> u64" where
  "conn_priority g d =
     push_bit 32 (ucast (min g d)) + ucast (2 * max g d) + (if g > d then 1 else 0)"


section \<open>Text forms\<close>

text \<open>The closing bracket is missing in the code as well.\<close>

definition conn_to_string ::
    "(socket_address \<Rightarrow> string) \<Rightarrow> string \<Rightarrow> udp_port \<Rightarrow> ice_connection \<Rightarrow> string" where
  "conn_to_string addr_text self p c =
     ''Conn['' @ self @ '':'' @ up_transport_name p @ '':'' @ dec_digits (unat (component_id (up_component p))) @
     '':'' @ addr_text (up_local_addr p) @ ''->'' @ addr_text (c_address (ic_remote c))"

text \<open>The first \<open>limit\<close> pings; \<open>None\<close> would be an index outside the vector.\<close>

fun print_first_pings :: "(string \<Rightarrow> string) \<Rightarrow> sent_ping list \<Rightarrow> nat \<Rightarrow> string option" where
  "print_first_pings hex pings 0 = Some []"
| "print_first_pings hex pings (Suc n) =
     do { s \<leftarrow> print_first_pings hex pings n; p \<leftarrow> at_index pings n; Some (s @ hex (sp_id p) @ '' '') }"

definition print_pings_since_last_response ::
    "(string \<Rightarrow> string) \<Rightarrow> nat \<Rightarrow> ice_connection \<Rightarrow> string option" where
  "print_pings_since_last_response hex limit c =
     (let n = length (ic_pings c) in
      if n > limit then
        do { s \<leftarrow> print_first_pings hex (ic_pings c) limit;
             Some (s @ ''... '' @ dec_digits (n - limit) @ '' more'') }
      else Some (concat (map (\<lambda>p. hex (sp_id p) @ '' '') (ic_pings c))))"

lemma print_first_pings_take:
  "n \<le> length pings \<Longrightarrow>
     print_first_pings hex pings n = Some (concat (map (\<lambda>p. hex (sp_id p) @ '' '') (take n pings)))"
  by (induction n) (simp_all add: at_index_def take_Suc_conv_app_nth)

text \<open>Evaluating the arguments of the log line never leaves the vector.\<close>

lemma print_pings_total:
  "print_pings_since_last_response hex limit c =
     Some (concat (map (\<lambda>p. hex (sp_id p) @ '' '') (take limit (ic_pings c))) @
       (if length (ic_pings c) > limit then ''... '' @ dec_digits (length (ic_pings c) - limit) @ '' more'' else []))"
  by (simp add: print_pings_since_last_response_def Let_def print_first_pings_take)

end
