(* ===== verification/Ice_Connection_Properties.thy ===== *)
theory Ice_Connection_Properties
  imports Ice_Connection
begin

text \<open>
  Properties of a candidate pair: its write-state machine over all histories of pings, responses and
  timer checks, the time bounds it really uses, its priority, and the exchange of a connectivity check
  between two peers.
\<close>

unbundle bit_operations_syntax

section \<open>The write-state machine\<close>

definition run_ops :: "conn_op list \<Rightarrow> ice_connection \<Rightarrow> ice_connection" where
  "run_ops ops c = fold (\<lambda>op c. fst (op c)) ops c"

lemma run_ops_simps [simp]:
  "run_ops [] c = c" "run_ops (op # ops) c = run_ops ops (fst (op c))"
  by (simp_all add: run_ops_def)

definition update_state :: "int \<Rightarrow> ice_connection \<Rightarrow> ice_connection" where
  "update_state now c = run_ops (update_state_ops c now) c"

definition received_ping_response :: "rtcbase \<Rightarrow> int \<Rightarrow> int \<Rightarrow> ice_connection \<Rightarrow> ice_connection" where
  "received_ping_response rt rtt now c = run_ops (received_ping_response_ops rt rtt now) c"

text \<open>The receiving step touches only that flag.\<close>

lemma update_receiving_frame:
  "\<exists>b. fst (update_receiving now c) = c\<lparr>ic_receiving := b\<rparr>"
  by (auto simp: update_receiving_def Let_def intro: exI [of _ "ic_receiving c"])

lemma update_receiving_simps [simp]:
  "ic_write_state (fst (update_receiving now c)) = ic_write_state c"
  "ic_pings (fst (update_receiving now c)) = ic_pings c"
  "ic_rtt_samples (fst (update_receiving now c)) = ic_rtt_samples c"
  "ic_last_ping_sent (fst (update_receiving now c)) = ic_last_ping_sent c"
  "ic_num_pings_sent (fst (update_receiving now c)) = ic_num_pings_sent c"
  "ic_requests (fst (update_receiving now c)) = ic_requests c"
  "ic_last_ping_response_received (fst (update_receiving now c)) = ic_last_ping_response_received c"
  using update_receiving_frame [of now c] by auto

lemma update_state_frame [simp]:
  "ic_pings (update_state now c) = ic_pings c"
  "ic_rtt_samples (update_state now c) = ic_rtt_samples c"
  "ic_last_ping_sent (update_state now c) = ic_last_ping_sent c"
  "ic_num_pings_sent (update_state now c) = ic_num_pings_sent c"
  "ic_last_ping_response_received (update_state now c) = ic_last_ping_response_received c"
  by (simp_all add: update_state_def update_state_ops_def update_unreliable_def update_timeout_def
      set_write_state_def)

lemma too_long_cong [simp]:
  "too_long_without_response t now (c\<lparr>ic_write_state := ws\<rparr>) = too_long_without_response t now c"
  by (simp add: too_long_without_response_def)

lemma update_state_ws:
  "ic_write_state (update_state now c) = (case ic_write_state c of
     STATE_WRITABLE \<Rightarrow>
       if too_many_ping_fails 5 (clamp_rtt c) now c \<and> too_long_without_response 5000 now c
       then if too_long_without_response 15000 now c then STATE_WRITE_TIMEOUT else STATE_WRITE_UNRELIABLE
       else STATE_WRITABLE
   | STATE_WRITE_TIMEOUT \<Rightarrow> STATE_WRITE_TIMEOUT
   | ws \<Rightarrow> if too_long_without_response 15000 now c then STATE_WRITE_TIMEOUT else ws)"
  by (cases "ic_write_state c")
    (auto simp: update_state_def update_state_ops_def update_unreliable_def update_timeout_def
      set_write_state_def)

text \<open>The events of a connection, at times that do not go back.\<close>

inductive conn_step :: "rtcbase \<Rightarrow> udp_port \<Rightarrow> int \<times> ice_connection \<Rightarrow> int \<times> ice_connection \<Rightarrow> bool"
  for rt p where
  step_ping: "t \<le> now \<Longrightarrow> conn_ping rt p tid now send_ts c = Some (c', pkts) \<Longrightarrow>
    conn_step rt p (t, c) (now, c')"
| step_response: "t \<le> now \<Longrightarrow> conn_step rt p (t, c) (now, received_ping_response rt rtt now c)"
| step_update: "t \<le> now \<Longrightarrow> conn_step rt p (t, c) (now, update_state now c)"

inductive_cases conn_stepE: "conn_step rt p (t, c) (t', c')"

inductive conn_reach :: "rtcbase \<Rightarrow> udp_port \<Rightarrow> nat \<Rightarrow> candidate \<Rightarrow> int \<Rightarrow> ice_connection \<Rightarrow> bool"
  for rt p i rc where
  reach_new: "0 \<le> t \<Longrightarrow> conn_reach rt p i rc t (ice_connection_new i rc)"
| reach_step: "conn_reach rt p i rc t c \<Longrightarrow> conn_step rt p (t, c) (t', c') \<Longrightarrow>
    conn_reach rt p i rc t' c'"

text \<open>What a ping changes.\<close>

lemma conn_ping_frame:
  assumes "conn_ping rt p tid now send_ts c = Some (c', pkts)"
  shows "ic_pings c' = ic_pings c @ [\<lparr>sp_id = tid, sent_time = now\<rparr>]"
    and "ic_write_state c' = ic_write_state c" and "ic_rtt_samples c' = ic_rtt_samples c"
    and "ic_last_ping_sent c' = now" and "ic_num_pings_sent c' = ic_num_pings_sent c + 1"
    and "ic_last_ping_response_received c' = ic_last_ping_response_received c"
    and "ic_receiving c' = ic_receiving c" "ic_remote c' = ic_remote c" "ic_port c' = ic_port c"
    and "ic_rtt c' = ic_rtt c" "ic_selected c' = ic_selected c"
  using assms
  by (auto simp: conn_ping_def set_state_def Let_def split: prod.splits Option.bind_splits)

lemma response_frame [simp]:
  "ic_pings (received_ping_response rt rtt now c) = []"
  "ic_write_state (received_ping_response rt rtt now c) = STATE_WRITABLE"
  "ic_rtt_samples (received_ping_response rt rtt now c) = ic_rtt_samples c + 1"
  "ic_last_ping_sent (received_ping_response rt rtt now c) = ic_last_ping_sent c"
  "ic_num_pings_sent (received_ping_response rt rtt now c) = ic_num_pings_sent c"
  "ic_last_ping_response_received (received_ping_response rt rtt now c) = now"
  by (simp_all add: received_ping_response_def received_ping_response_ops_def record_response_def
      set_write_state_def set_state_def)

definition conn_inv :: "int \<Rightarrow> ice_connection \<Rightarrow> bool" where
  "conn_inv t c \<longleftrightarrow>
     sorted (map sent_time (ic_pings c)) \<and> (\<forall>p \<in> set (ic_pings c). sent_time p \<le> t) \<and>
     (ic_pings c \<noteq> [] \<longrightarrow> ic_last_ping_sent c = sent_time (last (ic_pings c))) \<and>
     int (length (ic_pings c)) \<le> ic_num_pings_sent c \<and> ic_last_ping_sent c \<le> t \<and>
     ic_last_ping_response_received c \<le> t \<and> 0 \<le> ic_rtt_samples c \<and>
     (ic_write_state c \<in> {STATE_WRITABLE, STATE_WRITE_UNRELIABLE} \<longrightarrow> 0 < ic_rtt_samples c) \<and>
     (ic_write_state c \<in> {STATE_WRITE_UNRELIABLE, STATE_WRITE_TIMEOUT} \<longrightarrow> ic_pings c \<noteq> [])"

lemma conn_inv_new: "0 \<le> t \<Longrightarrow> conn_inv t (ice_connection_new i rc)"
  by (simp add: conn_inv_def ice_connection_new_def)

lemma too_long_pings: "too_long_without_response d now c \<Longrightarrow> ic_pings c \<noteq> []"
  by (auto simp: too_long_without_response_def)

lemma conn_inv_update:
  assumes "conn_inv t c" "t \<le> now"
  shows "conn_inv now (update_state now c)"
  using assms too_long_pings [of _ now c]
  by (cases "ic_write_state c") (auto simp: conn_inv_def update_state_ws)

lemma conn_inv_ping:
  assumes "conn_inv t c" "t \<le> now" "conn_ping rt p tid now send_ts c = Some (c', pkts)"
  shows "conn_inv now c'"
  using assms(1,2) by (auto simp: conn_inv_def conn_ping_frame [OF assms(3)] sorted_append)

lemma conn_inv_response:
  "conn_inv t c \<Longrightarrow> t \<le> now \<Longrightarrow> conn_inv now (received_ping_response rt rtt now c)"
  by (auto simp: conn_inv_def)

lemma conn_reach_inv: "conn_reach rt p i rc t c \<Longrightarrow> conn_inv t c"
proof (induction rule: conn_reach.induct)
  case (reach_step t c t' c')
  from reach_step(2,3) show ?case
    by (elim conn_stepE) (auto intro: conn_inv_ping conn_inv_response conn_inv_update)
qed (rule conn_inv_new)

text \<open>
  C30: In every history of a connection: unanswered pings are recorded in the order they were sent and
  never outnumber the pings sent; the connection is writable (or was, being unreliable) only if a
  response has been received; and the write state moves only WRITABLE to UNRELIABLE to TIMEOUT, INIT to
  TIMEOUT, or to WRITABLE by a response, never otherwise.\<close>

theorem write_state_machine:
  assumes "conn_reach rt p i rc t c"
  shows "sorted (map sent_time (ic_pings c)) \<and> int (length (ic_pings c)) \<le> ic_num_pings_sent c \<and>
    (ic_write_state c \<in> {STATE_WRITABLE, STATE_WRITE_UNRELIABLE} \<longrightarrow> 0 < ic_rtt_samples c) \<and>
    (\<forall>t' c'. conn_step rt p (t, c) (t', c') \<longrightarrow>
      (ic_write_state c, ic_write_state c') \<in> {(a, a) |a. True} \<union> {(a, STATE_WRITABLE) |a. True} \<union>
        {(STATE_WRITABLE, STATE_WRITE_UNRELIABLE), (STATE_WRITABLE, STATE_WRITE_TIMEOUT),
         (STATE_WRITE_UNRELIABLE, STATE_WRITE_TIMEOUT), (STATE_WRITE_INIT, STATE_WRITE_TIMEOUT)} \<and>
      (ic_write_state c' = STATE_WRITABLE \<and> ic_write_state c \<noteq> STATE_WRITABLE \<longrightarrow>
         ic_pings c' = [] \<and> ic_last_ping_response_received c' = t'))"
proof -
  have step: "(ic_write_state c, ic_write_state c') \<in> {(a, a) |a. True} \<union> {(a, STATE_WRITABLE) |a. True} \<union>
        {(STATE_WRITABLE, STATE_WRITE_UNRELIABLE), (STATE_WRITABLE, STATE_WRITE_TIMEOUT),
         (STATE_WRITE_UNRELIABLE, STATE_WRITE_TIMEOUT), (STATE_WRITE_INIT, STATE_WRITE_TIMEOUT)} \<and>
      (ic_write_state c' = STATE_WRITABLE \<and> ic_write_state c \<noteq> STATE_WRITABLE \<longrightarrow>
         ic_pings c' = [] \<and> ic_last_ping_response_received c' = t')"
    if "conn_step rt p (t, c) (t', c')" for t' c'
    using that
    by (elim conn_stepE)
      (auto simp: conn_ping_frame update_state_ws split: write_state.splits if_splits)
  show ?thesis using conn_reach_inv [OF assms] step unfolding conn_inv_def by blast
qed

theorem write_state_machine_witness:
  "0 < ic_rtt_samples (received_ping_response ref_rtc 20 8 (ice_connection_new 0 sample_candidate))"
proof -
  have "conn_reach ref_rtc sample_port 0 sample_candidate 8 (received_ping_response ref_rtc 20 8 (ice_connection_new 0 sample_candidate))"
    by (rule reach_step [OF reach_new [of 5]]) (auto intro: step_response)
  from write_state_machine [OF this] show ?thesis by simp
qed

section \<open>Time bounds\<close>

text \<open>
  The time \<^verbatim>\<open>update_state\<close> really allows.  A connection that never became writable, or is
  unreliable, times out at the first check more than 15 s after its oldest unanswered ping.  A writable
  one whose round trip time is at least 50 ms is kept writable for a full minute after the fifth
  unanswered ping (\<open>MAX_RTT\<close>), however short its round trip time is: the estimate \<open>2 * rtt\<close> is never
  used (times below \<open>2^31 - 60000\<close> ms).\<close>

theorem update_state_time_bounds:
  assumes "ic_pings c \<noteq> []"
  shows "(ic_write_state c \<in> {STATE_WRITE_INIT, STATE_WRITE_UNRELIABLE} \<longrightarrow>
      (ic_write_state (update_state now c) = STATE_WRITE_TIMEOUT \<longleftrightarrow>
         now > sent_time (hd (ic_pings c)) + 15000)) \<and>
    (ic_write_state c = STATE_WRITABLE \<and> 50 \<le> ic_rtt c \<and> ic_rtt c < 2 ^ 30 \<and> 5 \<le> length (ic_pings c) \<and>
       0 \<le> sent_time (ic_pings c ! 4) \<and> sent_time (ic_pings c ! 4) + 60000 < 2 ^ 31 \<and>
       now \<le> sent_time (ic_pings c ! 4) + 60000 \<longrightarrow>
     ic_write_state (update_state now c) = STATE_WRITABLE)"
proof -
  have hd: "too_long_without_response d now c \<longleftrightarrow> now > sent_time (hd (ic_pings c)) + d" for d
    using assms by (cases "ic_pings c") (simp_all add: too_long_without_response_def)
  have "clamp_rtt c = 60000" if "50 \<le> ic_rtt c" "ic_rtt c < 2 ^ 30"
    using that by (simp add: clamp_rtt_def to_int32_id)
  then have keep: "\<not> too_many_ping_fails 5 (clamp_rtt c) now c"
    if "50 \<le> ic_rtt c" "ic_rtt c < 2 ^ 30" "5 \<le> length (ic_pings c)"
      "0 \<le> sent_time (ic_pings c ! 4)" "sent_time (ic_pings c ! 4) + 60000 < 2 ^ 31"
      "now \<le> sent_time (ic_pings c ! 4) + 60000"
    using that by (simp add: too_many_ping_fails_def to_int32_id)
  show ?thesis
  proof (intro conjI impI)
    assume "ic_write_state c \<in> {STATE_WRITE_INIT, STATE_WRITE_UNRELIABLE}"
    then show "(ic_write_state (update_state now c) = STATE_WRITE_TIMEOUT) =
        (now > sent_time (hd (ic_pings c)) + 15000)"
      by (auto simp: update_state_ws hd split: if_splits)
  qed (use keep in \<open>simp add: update_state_ws\<close>)
qed

theorem update_state_time_bounds_witness:
  "ic_write_state (update_state 16000 ((ice_connection_new 0 sample_candidate)\<lparr>ic_pings := [\<lparr>sp_id = ''a'', sent_time = 900\<rparr>]\<rparr>))
     = STATE_WRITE_TIMEOUT"
  using update_state_time_bounds [of "(ice_connection_new 0 sample_candidate)\<lparr>ic_pings := [\<lparr>sp_id = ''a'', sent_time = 900\<rparr>]\<rparr>" 16000]
  by (simp add: ice_connection_new_def)

text \<open>
  The sum \<open>sent_time + rtt\<close> is stored in a 32-bit \<^verbatim>\<open>int\<close>.  Once the clock has passed \<open>2^31\<close> ms (24.8
  days), the grace period after the fifth unanswered ping is gone: a writable connection with five
  unanswered pings becomes unwritable as soon as the oldest of them is more than 5 s old.\<close>

theorem expected_response_time_wraps:
  assumes "ic_write_state c = STATE_WRITABLE" "5 \<le> length (ic_pings c)"
    and "2 ^ 31 \<le> now" "now > sent_time (hd (ic_pings c)) + 5000"
  shows "ic_write_state (update_state now c) \<in> {STATE_WRITE_UNRELIABLE, STATE_WRITE_TIMEOUT}"
proof -
  obtain q qs where q: "ic_pings c = q # qs" using assms(2) by (cases "ic_pings c") auto
  have "too_many_ping_fails 5 (clamp_rtt c) now c"
    using assms(2,3) to_int32_range(2) [of "sent_time (ic_pings c ! 4) + clamp_rtt c"]
    by (simp add: too_many_ping_fails_def)
  moreover have "too_long_without_response 5000 now c"
    using assms(4) q by (simp add: too_long_without_response_def)
  ultimately show ?thesis using assms(1) by (simp add: update_state_ws)
qed

theorem expected_response_time_wraps_witness:
  "ic_write_state (update_state 2147489999 ((ice_connection_new 0 sample_candidate)\<lparr>ic_write_state := STATE_WRITABLE,
      ic_pings := replicate 5 \<lparr>sp_id = ''a'', sent_time = 2147484000\<rparr>\<rparr>)) \<noteq> STATE_WRITABLE"
  using expected_response_time_wraps [of "(ice_connection_new 0 sample_candidate)\<lparr>ic_write_state := STATE_WRITABLE,
      ic_pings := replicate 5 \<lparr>sp_id = ''a'', sent_time = 2147484000\<rparr>\<rparr>" 2147489999]
  by (auto simp: numeral_eq_Suc)

section \<open>The pair priority\<close>

text \<open>
  C37: The pair priority is the one of RFC 5245, \<open>2^32 * min + 2 * max + (if g > d then 1 else 0)\<close>,
  exactly when both candidate priorities are below \<open>2^31\<close>; above, the factor 2 is lost in 32 bits.\<close>

theorem conn_priority_rfc:
  "uint (conn_priority g d) = 2 ^ 32 * uint (min g d) + 2 * uint (max g d) + (if g > d then 1 else 0)
     \<longleftrightarrow> uint (max g d) < 2 ^ 31"
proof -
  define a b where "a = uint (min g d)" and "b = uint (max g d)"
  have a: "0 \<le> a" "a < 2 ^ 32" and b: "0 \<le> b" "b < 2 ^ 32"
    using uint_lt2p [of "min g d"] uint_lt2p [of "max g d"] by (simp_all add: a_def b_def)
  have m: "uint (2 * max g d) = (2 * b) mod 2 ^ 32"
    by (simp add: b_def uint_word_ariths)
  have "uint (push_bit 32 (ucast (min g d) :: u64)) = a * 2 ^ 32"
    using a by (subst unsigned_push_bit_eq)
      (simp add: unsigned_ucast_eq push_bit_eq_mult take_bit_int_eq_self a_def [symmetric])
  moreover have "uint (ucast (2 * max g d) :: u64) = (2 * b) mod 2 ^ 32"
    using m by (simp add: unsigned_ucast_eq take_bit_int_eq_self)
  ultimately have "uint (conn_priority g d) =
      (a * 2 ^ 32 + (2 * b) mod 2 ^ 32 + (if g > d then 1 else 0)) mod 2 ^ 64"
    by (simp add: conn_priority_def uint_word_ariths mod_simps)
  moreover have "a * 2 ^ 32 + (2 * b) mod 2 ^ 32 + (if g > d then 1 else 0) < 2 ^ 64"
  proof -
    define r where "r = (2 * b) mod 2 ^ 32"
    have "even r" unfolding r_def by (rule dvd_mod) simp_all
    then obtain k where "r = 2 * k" by (elim evenE)
    moreover have "r < 2 ^ 32" unfolding r_def by (rule pos_mod_bound) simp
    ultimately have "r \<le> 2 ^ 32 - 2" by simp
    then show ?thesis unfolding r_def [symmetric] using a by auto
  qed
  ultimately have u: "uint (conn_priority g d) = a * 2 ^ 32 + (2 * b) mod 2 ^ 32 + (if g > d then 1 else 0)"
    using a by (simp add: mod_pos_pos_trivial)
  have "(2 * b) mod 2 ^ 32 = 2 * b \<longleftrightarrow> b < 2 ^ 31"
  proof
    assume "(2 * b) mod 2 ^ 32 = 2 * b"
    then have "2 * b < 2 ^ 32" using pos_mod_bound [of "2 ^ 32" "2 * b"] by simp
    then show "b < 2 ^ 31" by simp
  qed (use b in \<open>simp add: mod_pos_pos_trivial\<close>)
  then show ?thesis unfolding u a_def [symmetric] b_def [symmetric]
    by (simp only: mult.commute [of a] add_right_cancel add_left_cancel)
qed

section \<open>A connectivity check between two peers\<close>

lemma m_tid_simps [simp]:
  "m_transaction_id (add_attribute a m) = m_transaction_id m"
  "m_transaction_id (snd (add_message_integrity rt pwd m)) = m_transaction_id m"
  "m_transaction_id (snd (add_fingerprint rt m)) = m_transaction_id m"
  "m_type (add_attribute a m) = m_type m"
  "m_attrs (add_attribute a m) = m_attrs m @ [a]"
  by (simp_all add: add_attribute_def add_message_integrity_def add_message_integrity_of_type_def
      add_fingerprint_def Let_def split_beta)

text \<open>The request before it is signed.\<close>

definition ping_message :: "udp_port \<Rightarrow> u32 \<Rightarrow> candidate \<Rightarrow> string \<Rightarrow> stun_message" where
  "ping_message p prio remote tid = fold add_attribute
     [byte_string_attr STUN_ATTR_USERNAME (create_stun_username p (c_username remote)),
      UInt64Attr STUN_ATTR_ICE_CONTROLLING 0, ByteStringAttr STUN_ATTR_USE_CANDIDATE 0 [],
      UInt32Attr STUN_ATTR_PRIORITY (push_bit 24 ICE_TYPE_PREFERENCE_PRFLX OR (prio AND 0x00FFFFFF))]
     (stun_message_new\<lparr>m_type := STUN_BINDING_REQUEST, m_transaction_id := tid\<rparr>)"

lemma prepare_eq:
  "connection_request_prepare rt p prio remote (stun_message_new\<lparr>m_transaction_id := tid\<rparr>) =
     snd (add_fingerprint rt (snd (add_message_integrity rt (c_password remote) (ping_message p prio remote tid))))"
  by (simp add: connection_request_prepare_def ping_message_def Let_def stun_message_new_def)

lemma signed_write':
  assumes "byte_buffer_ok rt" "hmac_ok rt" "\<forall>a \<in> set (m_attrs m). attr_wf a"
  shows "stun_write rt (snd (add_fingerprint rt (snd (add_message_integrity rt pwd m)))) [] =
    (True, signed_bytes rt pwd m)"
  using signed_write [OF assms prod.collapse [symmetric] prod.collapse [symmetric], of pwd] by simp

lemma ping_message_simps:
  assumes "length tid = 12" "length (create_stun_username p (c_username remote)) < 1000"
  shows "signable (ping_message p prio remote tid)"
    and "m_type (ping_message p prio remote tid) = STUN_BINDING_REQUEST"
    and "m_transaction_id (ping_message p prio remote tid) = tid"
    and "m_attrs (ping_message p prio remote tid) =
     [byte_string_attr STUN_ATTR_USERNAME (create_stun_username p (c_username remote)),
      UInt64Attr STUN_ATTR_ICE_CONTROLLING 0, ByteStringAttr STUN_ATTR_USE_CANDIDATE 0 [],
      UInt32Attr STUN_ATTR_PRIORITY (push_bit 24 ICE_TYPE_PREFERENCE_PRFLX OR (prio AND 0x00FFFFFF))]"
proof -
  define u where "u = create_stun_username p (c_username remote)"
  define pfx where "pfx = push_bit 24 ICE_TYPE_PREFERENCE_PRFLX OR (prio AND 0x00FFFFFF)"
  define as where "as = [byte_string_attr STUN_ATTR_USERNAME u,
      UInt64Attr STUN_ATTR_ICE_CONTROLLING 0, ByteStringAttr STUN_ATTR_USE_CANDIDATE 0 [],
      UInt32Attr STUN_ATTR_PRIORITY pfx]"
  let ?m0 = "stun_message_new\<lparr>m_type := STUN_BINDING_REQUEST, m_transaction_id := tid\<rparr>"
  have m0: "msg_wf ?m0" "m_attrs ?m0 = []" using assms(1) by (simp_all add: msg_wf_def stun_message_new_def)
  have pd: "padded (length u) < 1004" using padded_lt [of "length u"] assms(2) by (simp add: u_def)
  have pm: "ping_message p prio remote tid = fold add_attribute as ?m0"
    by (simp add: ping_message_def as_def u_def pfx_def)
  have as: "\<forall>a \<in> set as. attr_wf a" "attrs_size as < 1100"
    using assms(2) pd by (simp_all add: as_def byte_string_attr_def attr_size_def u_def [symmetric])
  have wf: "msg_wf (fold add_attribute as ?m0)" "m_attrs (fold add_attribute as ?m0) = as"
    using fold_add_attribute_wf [OF m0(1) as(1)] m0(2) as(2) by simp_all
  then show "m_attrs (ping_message p prio remote tid) =
     [byte_string_attr STUN_ATTR_USERNAME (create_stun_username p (c_username remote)),
      UInt64Attr STUN_ATTR_ICE_CONTROLLING 0, ByteStringAttr STUN_ATTR_USE_CANDIDATE 0 [],
      UInt32Attr STUN_ATTR_PRIORITY (push_bit 24 ICE_TYPE_PREFERENCE_PRFLX OR (prio AND 0x00FFFFFF))]"
    by (simp add: pm as_def u_def pfx_def)
  have ty: "m_type (fold add_attribute as ?m0) = STUN_BINDING_REQUEST"
    and ti: "m_transaction_id (fold add_attribute as ?m0) = tid" by (simp_all add: as_def)
  show "m_type (ping_message p prio remote tid) = STUN_BINDING_REQUEST"
    "m_transaction_id (ping_message p prio remote tid) = tid" using ty ti by (simp_all add: pm)
  show "signable (ping_message p prio remote tid)"
    using wf as(2) ty unfolding pm signable_def
    by (simp add: as_def byte_string_attr_def get_attrribute_value_type_def)
qed

text \<open>
  C17: A connectivity check is understood by the peer.  A ping sent over a connection whose remote
  candidate carries the peer's user fragment and password leaves one packet, addressed to the remote
  candidate; the peer's port authenticates it, whichever address it arrives from, and hands out a binding
  request with the ping's transaction id, the sender's user fragment and a PRIORITY attribute; the request
  is pending in the sender's manager under that id.\<close>

theorem ping_authenticated_by_peer:
  assumes rt: "byte_buffer_ok rt" "byte_order_ok rt" "hmac_ok rt" "split_ok rt"
    and pa: "up_async pa" "up_candidates pa \<noteq> []"
    and remt: "c_username (ic_remote c) = ice_ufrag (up_params pb)" "c_password (ic_remote c) = ice_pwd (up_params pb)"
    and uf: "CHR '':'' \<notin> set (ice_ufrag (up_params pa))" "CHR '':'' \<notin> set (ice_ufrag (up_params pb))"
      "length (ice_ufrag (up_params pa)) + length (ice_ufrag (up_params pb)) < 900"
    and tid: "length tid = 12" "map_of (rm_map (ic_requests c)) tid = None"
    and inv: "manager_inv (ic_requests c)"
  shows "\<exists>c' buf m r. conn_ping rt pa tid now ts c = Some (c', [(buf, c_address (ic_remote c))]) \<and>
    get_stun_message rt pb buf addr = Some (True, Some m, ice_ufrag (up_params pa), []) \<and>
    m_type m = STUN_BINDING_REQUEST \<and> m_transaction_id m = tid \<and>
    get_attribute m STUN_ATTR_PRIORITY \<noteq> None \<and>
    manager_inv (ic_requests c') \<and> map_of (rm_map (ic_requests c')) tid = Some r"
proof -
  obtain lc lcs where lc: "up_candidates pa = lc # lcs" using pa(2) by (cases "up_candidates pa") auto
  define remote where "remote = ic_remote c"
  define M where "M = ping_message pa (c_priority lc) remote tid"
  have lu: "length (create_stun_username pa (c_username remote)) < 1000"
    using remt uf(3) by (simp add: create_stun_username_def remote_def)
  note M = ping_message_simps [OF tid(1) lu, of "c_priority lc", folded M_def]
  have wf: "\<forall>a \<in> set (m_attrs M). attr_wf a" using M(1) by (simp add: signable_def msg_wf_def)
  define pwd where "pwd = ice_pwd (up_params pb)"
  let ?prep = "connection_request_prepare rt pa (c_priority lc) remote"
  obtain r rm1 where rn: "request_new tid stun_message_new (ic_requests c) = (r, rm1)"
    by (cases "request_new tid stun_message_new (ic_requests c)")
  have keep: "m_transaction_id (?prep m) = m_transaction_id m" for m
    by (simp add: connection_request_prepare_def Let_def)
  from manager_send_inv [OF inv rn tid(2) keep, of rt ts]
  obtain pkt rm2 where ms: "manager_send rt ?prep ts r rm1 = Some (pkt, rm2)" "manager_inv rm2"
    "map_of (rm_map rm2) tid = Some r" by blast
  have "stun_write rt (?prep (stun_message_new\<lparr>m_transaction_id := tid\<rparr>)) [] = (True, signed_bytes rt pwd M)"
    unfolding prepare_eq M_def [symmetric]
    using signed_write' [OF rt(1,3) wf, of pwd] remt(2) by (simp add: remote_def pwd_def)
  then have pkt: "pkt = Some (signed_bytes rt pwd M)"
    using ms(1) rn by (auto simp: manager_send_def request_send_def request_construct_def request_new_def Let_def)
  have "get_attribute M STUN_ATTR_USERNAME =
      Some (byte_string_attr STUN_ATTR_USERNAME (ice_ufrag (up_params pb) @ '':'' @ ice_ufrag (up_params pa)))"
    using remt(1) by (simp add: get_attribute_def M(4) byte_string_attr_def create_stun_username_def remote_def)
  from get_stun_message_signed [OF rt M(1,2) this uf(2,1), of pwd addr] uf(3) M(2,3)
  obtain m h where g: "get_stun_message rt pb (signed_bytes rt pwd M) addr =
      Some (True, Some m, ice_ufrag (up_params pa), [])"
    "m_type m = STUN_BINDING_REQUEST" "m_transaction_id m = tid"
    "m_attrs m = filter known_attr (m_attrs M) @ [mi_attr h]"
    by (auto simp: pwd_def)
  have "get_attribute m STUN_ATTR_PRIORITY \<noteq> None"
    by (auto simp: get_attribute_def g(4) M(4) find_None_iff known_attr_def get_attrribute_value_type_def)
  moreover obtain c' where "conn_ping rt pa tid now ts c = Some (c', [(signed_bytes rt pwd M, c_address remote)])"
    "ic_requests c' = rm2"
    using rn ms(1) pkt pa(1)
    by (simp add: conn_ping_def local_candidate_def lc Let_def remote_def port_send_to_def set_state_def)
  ultimately show ?thesis using g ms(2,3) unfolding remote_def by metis
qed

theorem ping_authenticated_by_peer_witness:
  "\<exists>c' buf m. conn_ping ref_rtc (sample_port\<lparr>up_candidates := [sample_candidate]\<rparr>) ''abcdefghijkl'' 5 5
      (ice_connection_new 0 sample_candidate) = Some (c', [(buf, c_address sample_candidate)]) \<and>
    get_stun_message ref_rtc sample_peer buf (c_address sample_candidate) = Some (True, Some m, ''ab'', [])"
  using ping_authenticated_by_peer [OF ref_rtc_ok, of "sample_port\<lparr>up_candidates := [sample_candidate]\<rparr>"
      "ice_connection_new 0 sample_candidate" sample_peer "''abcdefghijkl''" 5 5 "c_address sample_candidate"]
  by (auto simp: sample_port_def sample_peer_def sample_candidate_def udp_port_new_def ice_connection_new_def
      request_manager_new_def manager_inv_new [unfolded request_manager_new_def])

text \<open>The response before it is signed.\<close>

definition response_message :: "candidate \<Rightarrow> string \<Rightarrow> stun_message" where
  "response_message remote tid =
     add_attribute (XorAddressAttr STUN_ATTR_XOR_MAPPED_ADDRESS (c_address remote))
       (stun_message_new\<lparr>m_type := STUN_BINDING_RESPONSE, m_transaction_id := tid\<rparr>)"

lemma response_message_signable:
  assumes "length tid = 12" "addr_family (c_address remote) = AF_INET"
  shows "signable (response_message remote tid)"
proof -
  let ?a = "XorAddressAttr STUN_ATTR_XOR_MAPPED_ADDRESS (c_address remote)"
  let ?m0 = "stun_message_new\<lparr>m_type := STUN_BINDING_RESPONSE, m_transaction_id := tid\<rparr>"
  have "msg_wf ?m0" "m_attrs ?m0 = []" using assms(1) by (simp_all add: msg_wf_def stun_message_new_def)
  moreover have "attr_wf ?a" "attr_size ?a = 12"
    using assms(2) by (simp_all add: attr_size_def address_length_def address_family_def)
  ultimately show ?thesis
    using add_attribute_wf [of ?m0 ?a]
    by (simp add: signable_def response_message_def get_attrribute_value_type_def)
qed

lemma xor_write_fails:
  "addr_family a \<noteq> AF_INET \<Longrightarrow> \<not> fst (stun_write rt (m\<lparr>m_attrs := XorAddressAttr t a # as\<rparr>) buf)"
  by (cases "ipaddr a")
    (simp_all add: stun_write_def Let_def xor_address_write_def address_family_def get_xored_ip_def)

lemma update_last_Cons: "xs \<noteq> [] \<Longrightarrow> update_last f (x # xs) = x # update_last f xs"
  by (simp add: update_last_def)

lemma response_write_fails:
  assumes "addr_family (c_address remote) \<noteq> AF_INET"
  shows "\<not> fst (stun_write rt (snd (add_fingerprint rt
    (snd (add_message_integrity rt pwd (response_message remote tid))))) [])"
proof -
  let ?a = "XorAddressAttr STUN_ATTR_XOR_MAPPED_ADDRESS (c_address remote)"
  have w: "\<not> fst (stun_write rt m buf)" if "m_attrs m = ?a # as" for m buf as
    using xor_write_fails [OF assms, of rt STUN_ATTR_XOR_MAPPED_ADDRESS as m buf] that
    by (cases m) simp
  have r: "m_attrs (response_message remote tid) = [?a]" by (simp add: response_message_def stun_message_new_def)
  have "\<exists>as. m_attrs (snd (add_message_integrity rt pwd (response_message remote tid))) = ?a # as"
    using w [of "add_attribute x (response_message remote tid)" "[x]" "[]" for x] r
    by (auto simp: add_message_integrity_def add_message_integrity_of_type_def Let_def
          update_last_Cons split: prod.splits)
  moreover have "\<exists>as. m_attrs (snd (add_fingerprint rt m)) = ?a # as" if "m_attrs m = ?a # bs" for m bs
    using w [of "add_attribute x m" "bs @ [x]" "[]" for x] that
    by (auto simp: add_fingerprint_def Let_def update_last_Cons split: prod.splits)
  ultimately show ?thesis using w by metis
qed

text \<open>
  C18: The answer to a binding request is one packet to the remote candidate, which the requester's
  port hands out as a binding response with the request's transaction id and which verifies under the
  answering port's password; a remote candidate that is not IPv4 gets no answer at all, because the
  XOR-MAPPED-ADDRESS attribute cannot be written.\<close>

theorem binding_response_accepted:
  assumes rt: "byte_buffer_ok rt" "byte_order_ok rt" "hmac_ok rt"
    and p: "up_async pb" and m: "get_attribute m STUN_ATTR_USERNAME \<noteq> None" "length (m_transaction_id m) = 12"
  shows "if addr_family (c_address (ic_remote c)) \<noteq> AF_INET
    then handle_stun_binding_request rt pb c m = []
    else \<exists>buf. handle_stun_binding_request rt pb c m = [(buf, c_address (ic_remote c))] \<and>
      (\<forall>pa addr. \<exists>m' m''. get_stun_message rt pa buf addr = Some (True, Some m', [], []) \<and>
         m_type m' = STUN_BINDING_RESPONSE \<and> m_transaction_id m' = m_transaction_id m \<and>
         validate_message_integrity rt (ice_pwd (up_params pb)) m' = Some (k_integrity_ok, m''))"
proof -
  define R where "R = response_message (ic_remote c) (m_transaction_id m)"
  define pwd where "pwd = ice_pwd (up_params pb)"
  have h: "handle_stun_binding_request rt pb c m =
     (let (ok, buf) = stun_write rt (snd (add_fingerprint rt (snd (add_message_integrity rt pwd R)))) []
      in if ok then port_send_to pb buf (c_address (ic_remote c)) else [])"
    using m(1) by (auto simp: handle_stun_binding_request_def send_stun_binding_response_def
        response_message_def R_def pwd_def Let_def)
  show ?thesis
  proof (cases "addr_family (c_address (ic_remote c)) = AF_INET")
    case False
    then show ?thesis
      using response_write_fails [of "ic_remote c" rt pwd "m_transaction_id m"] h
      by (auto simp: R_def split: prod.splits)
  next
    case True
    have sg: "signable R" using response_message_signable [OF m(2) True] by (simp add: R_def)
    then have wf: "\<forall>a \<in> set (m_attrs R). attr_wf a" by (simp add: signable_def msg_wf_def)
    define bs where "bs = signed_bytes rt pwd R"
    have out: "handle_stun_binding_request rt pb c m = [(bs, c_address (ic_remote c))]"
      using h signed_write' [OF rt(1,3) wf, of pwd] p by (simp add: bs_def port_send_to_def)
    have ty: "m_type R = STUN_BINDING_RESPONSE" "m_transaction_id R = m_transaction_id m"
      by (simp_all add: R_def response_message_def)
    obtain m' m'' where g: "\<forall>pa addr. get_stun_message rt pa bs addr = Some (True, Some m', [], [])"
      "m_type m' = STUN_BINDING_RESPONSE" "m_transaction_id m' = m_transaction_id m"
      and v: "validate_message_integrity rt pwd m' = Some (k_integrity_ok, m'')"
      using get_stun_message_signed_other [OF rt sg, of pwd] ty by (auto simp: bs_def)
    have "\<exists>x y. get_stun_message rt pa bs addr = Some (True, Some x, [], []) \<and>
         m_type x = STUN_BINDING_RESPONSE \<and> m_transaction_id x = m_transaction_id m \<and>
         validate_message_integrity rt pwd x = Some (k_integrity_ok, y)" for pa addr
      by (intro exI [of _ m'] exI [of _ m'']) (simp add: g v)
    then show ?thesis using True out by (auto simp: pwd_def intro!: exI [of _ bs])
  qed
qed

theorem binding_response_accepted_witness:
  "handle_stun_binding_request ref_rtc sample_peer
     (ice_connection_new 0 (sample_candidate\<lparr>c_address := \<lparr>ipaddr = IPv6 ''abcdefghijklmnop'', sport = 1\<rparr>\<rparr>))
     sample_request = []"
  using binding_response_accepted [OF ref_rtc_ok(1-3), of sample_peer sample_request
      "ice_connection_new 0 (sample_candidate\<lparr>c_address := \<lparr>ipaddr = IPv6 ''abcdefghijklmnop'', sport = 1\<rparr>\<rparr>)"]
  by (simp add: sample_peer_def sample_request_def get_attribute_def stun_message_new_def
      byte_string_attr_def EMPTY_TRANSACTION_ID_def ice_connection_new_def)

end
