(* ===== verification/Stable_Sort.thy ===== *)
theory Stable_Sort
  imports Main "HOL-Library.Multiset"
begin

text \<open>
  \<^verbatim>\<open>std::stable_sort\<close> with a comparison function.  The standard asks the caller for a strict weak
  ordering; the locale states it, and under it the result is a sorted permutation that keeps the order
  of equivalent elements, so that its first element is not beaten by any other.
\<close>

primrec insert_stable :: "('a \<Rightarrow> 'a \<Rightarrow> bool) \<Rightarrow> 'a \<Rightarrow> 'a list \<Rightarrow> 'a list" where
  "insert_stable better x [] = [x]"
| "insert_stable better x (y # ys) =
     (if better y x then y # insert_stable better x ys else x # y # ys)"

definition stable_sort :: "('a \<Rightarrow> 'a \<Rightarrow> bool) \<Rightarrow> 'a list \<Rightarrow> 'a list" where
  "stable_sort better xs = foldr (insert_stable better) xs []"

lemma stable_sort_simps [simp]:
  "stable_sort better [] = []"
  "stable_sort better (x # xs) = insert_stable better x (stable_sort better xs)"
  by (simp_all add: stable_sort_def)

lemma mset_insert_stable [simp]: "mset (insert_stable better x ys) = add_mset x (mset ys)"
  by (induction ys) simp_all

lemma mset_stable_sort [simp]: "mset (stable_sort better xs) = mset xs"
  by (induction xs) simp_all

lemma set_stable_sort [simp]: "set (stable_sort better xs) = set xs"
  by (metis mset_stable_sort set_mset_mset)

lemma length_stable_sort [simp]: "length (stable_sort better xs) = length xs"
  by (metis mset_stable_sort size_mset)

lemma stable_sort_Nil_iff [simp]: "stable_sort better xs = [] \<longleftrightarrow> xs = []"
  by (metis length_0_conv length_stable_sort)

locale weak_order =
  fixes better :: "'a \<Rightarrow> 'a \<Rightarrow> bool"
  assumes irreflexive: "\<not> better a a"
    and transitive: "better a b \<Longrightarrow> better b c \<Longrightarrow> better a c"
    and neg_transitive: "\<not> better a b \<Longrightarrow> \<not> better b c \<Longrightarrow> \<not> better a c"
begin

definition equivalent :: "'a \<Rightarrow> 'a \<Rightarrow> bool" where
  "equivalent a b \<longleftrightarrow> \<not> better a b \<and> \<not> better b a"

abbreviation ordered :: "'a list \<Rightarrow> bool" where
  "ordered xs \<equiv> sorted_wrt (\<lambda>a b. \<not> better b a) xs"

lemma asymmetric: "better a b \<Longrightarrow> \<not> better b a"
  using irreflexive transitive by blast

lemma ordered_insert: "ordered ys \<Longrightarrow> ordered (insert_stable better x ys)"
proof (induction ys)
  case (Cons y ys)
  then show ?case
  proof (cases "better y x")
    case True
    have "set (insert_stable better x ys) = insert x (set ys)"
      by (metis mset_insert_stable set_mset_add_mset_insert set_mset_mset)
    with True Cons show ?thesis using asymmetric by auto
  next
    case False
    then show ?thesis using Cons.prems neg_transitive by auto
  qed
qed simp

lemma ordered_sort: "ordered (stable_sort better xs)"
  by (induction xs) (simp_all add: ordered_insert)

lemma filter_insert_stable:
  "ordered ys \<Longrightarrow> filter (equivalent z) (insert_stable better x ys) = filter (equivalent z) (x # ys)"
proof (induction ys)
  case (Cons y ys)
  show ?case
  proof (cases "better y x")
    case True
    then have "\<not> (equivalent z x \<and> equivalent z y)"
      using neg_transitive unfolding equivalent_def by blast
    with True Cons show ?thesis by auto
  qed simp
qed simp

lemma stable: "filter (equivalent z) (stable_sort better xs) = filter (equivalent z) xs"
proof (induction xs)
  case (Cons x xs)
  then show ?case using filter_insert_stable [OF ordered_sort, of z x xs] by simp
qed simp

lemma best_first:
  assumes "xs \<noteq> []" "y \<in> set xs"
  shows "\<not> better y (hd (stable_sort better xs))"
proof -
  obtain z zs where z: "stable_sort better xs = z # zs" using assms(1) by (cases "stable_sort better xs") auto
  have "y \<in> set (z # zs)" using assms(2) by (metis set_stable_sort z)
  then show ?thesis using ordered_sort [of xs] irreflexive by (auto simp: z)
qed

lemma sort_ordered: "ordered xs \<Longrightarrow> stable_sort better xs = xs"
proof (induction xs)
  case (Cons x xs)
  then show ?case by (cases xs) auto
qed simp

end

end
