(* ===== verification/Ice_Controller.thy ===== *)
theory Ice_Controller
  imports Ice_Connection_Properties Stable_Sort "HOL-Library.Product_Lexorder"
begin

text \<open>
  \<^verbatim>\<open>src/ice/ice_controller.h\<close> and \<^verbatim>\<open>ice_controller.cpp\<close>: which connection to ping next and which one
  to select.  Connections and ports are objects in a heap (\<open>ice_heap\<close>, by address); following a
  pointer to an object that is gone is a fault (\<open>None\<close>).  A \<^verbatim>\<open>std::set\<close> of pointers is iterated in
  increasing address order.
\<close>

text \<open>The enumeration order of \<^verbatim>\<open>WriteState\<close>.\<close>

instantiation write_state :: linorder
begin

definition less_eq_write_state :: "write_state \<Rightarrow> write_state \<Rightarrow> bool" where
  "less_eq_write_state a b \<longleftrightarrow> ws_code a \<le> ws_code b"

definition less_write_state :: "write_state \<Rightarrow> write_state \<Rightarrow> bool" where
  "less_write_state a b \<longleftrightarrow> ws_code a < ws_code b"

instance
proof
  fix a b :: write_state
  show "a \<le> b \<Longrightarrow> b \<le> a \<Longrightarrow> a = b"
    by (cases a; cases b) (simp_all add: less_eq_write_state_def)
qed (auto simp: less_eq_write_state_def less_write_state_def)

end

record ice_heap =
  ih_ports :: "nat \<Rightarrow> udp_port option"
  ih_conns :: "nat \<Rightarrow> ice_connection option"

record ice_controller =
  ctl_selected :: "nat option"
  ctl_connections :: "nat list"
  ctl_unpinged :: "nat set"
  ctl_pinged :: "nat set"

definition ice_controller_new :: ice_controller where
  "ice_controller_new = \<lparr>ctl_selected = None, ctl_connections = [], ctl_unpinged = {}, ctl_pinged = {}\<rparr>"

abbreviation WEAK_PING_INTERVAL :: int where "WEAK_PING_INTERVAL \<equiv> 48"
abbreviation STRONG_PING_INTERVAL :: int where "STRONG_PING_INTERVAL \<equiv> 480"
abbreviation MIN_PINGS_AT_WEAK_PING_INTERVAL :: int where "MIN_PINGS_AT_WEAK_PING_INTERVAL \<equiv> 3"
abbreviation STABLING_CONNECTION_PING_INTERVAL :: int where "STABLING_CONNECTION_PING_INTERVAL \<equiv> 900"
abbreviation STABLE_CONNECTION_PING_INTERVAL :: int where "STABLE_CONNECTION_PING_INTERVAL \<equiv> 2500"
abbreviation k_min_improvement :: int where "k_min_improvement \<equiv> 10"

section \<open>Choosing a connection to ping\<close>

definition ctl_weak :: "ice_heap \<Rightarrow> ice_controller \<Rightarrow> bool option" where
  "ctl_weak h ctl = (case ctl_selected ctl of
      None \<Rightarrow> Some True
    | Some i \<Rightarrow> do { c \<leftarrow> ih_conns h i; Some (weak c) })"

definition get_connection_ping_interval ::
    "ice_heap \<Rightarrow> ice_controller \<Rightarrow> ice_connection \<Rightarrow> int \<Rightarrow> int option" where
  "get_connection_ping_interval h ctl c now_ms =
     (if ic_num_pings_sent c < MIN_PINGS_AT_WEAK_PING_INTERVAL then Some WEAK_PING_INTERVAL
      else do { w \<leftarrow> ctl_weak h ctl;
                Some (if w \<or> \<not> stable now_ms c then STABLING_CONNECTION_PING_INTERVAL
                      else STABLE_CONNECTION_PING_INTERVAL) })"

definition is_connection_past_ping_interval ::
    "ice_heap \<Rightarrow> ice_controller \<Rightarrow> ice_connection \<Rightarrow> int \<Rightarrow> bool option" where
  "is_connection_past_ping_interval h ctl c now_ms =
     do { interval \<leftarrow> get_connection_ping_interval h ctl c now_ms;
          Some (now_ms \<ge> ic_last_ping_sent c + interval) }"

definition is_pingable :: "ice_heap \<Rightarrow> ice_controller \<Rightarrow> int \<Rightarrow> nat \<Rightarrow> bool option" where
  "is_pingable h ctl now_ms i =
     do { c \<leftarrow> ih_conns h i;
          (if c_username (ic_remote c) = [] \<or> c_password (ic_remote c) = [] then Some False
           else do { w \<leftarrow> ctl_weak h ctl;
                     (if w then Some True else is_connection_past_ping_interval h ctl c now_ms) }) }"

primrec any_pingable :: "ice_heap \<Rightarrow> ice_controller \<Rightarrow> int \<Rightarrow> nat list \<Rightarrow> bool option" where
  "any_pingable h ctl now [] = Some False"
| "any_pingable h ctl now (i # is) =
     do { b \<leftarrow> is_pingable h ctl now i; (if b then Some True else any_pingable h ctl now is) }"

definition has_pingable_connection :: "ice_heap \<Rightarrow> ice_controller \<Rightarrow> int \<Rightarrow> bool option" where
  "has_pingable_connection h ctl now = any_pingable h ctl now (ctl_connections ctl)"

definition more_pingable :: "ice_heap \<Rightarrow> nat \<Rightarrow> nat option \<Rightarrow> bool option" where
  "more_pingable h conn1 conn2 = (case conn2 of
      None \<Rightarrow> Some True
    | Some j \<Rightarrow> do { c1 \<leftarrow> ih_conns h conn1; c2 \<leftarrow> ih_conns h j;
                     Some (ic_last_ping_sent c1 < ic_last_ping_sent c2) })"

primrec scan_pingable ::
    "ice_heap \<Rightarrow> ice_controller \<Rightarrow> int \<Rightarrow> nat list \<Rightarrow> nat option \<Rightarrow> nat option option" where
  "scan_pingable h ctl now [] found = Some found"
| "scan_pingable h ctl now (i # is) found =
     do { b \<leftarrow> is_pingable h ctl now i;
          (if \<not> b then scan_pingable h ctl now is found
           else do { m \<leftarrow> more_pingable h i found;
                     scan_pingable h ctl now is (if m then Some i else found) }) }"

text \<open>
  The local \<^verbatim>\<open>has_pingable\<close> is never set, so the pinged connections are put back on every call.\<close>

definition selected_due :: "ice_heap \<Rightarrow> ice_controller \<Rightarrow> int \<Rightarrow> bool option" where
  "selected_due h ctl now_ms = (case ctl_selected ctl of
      None \<Rightarrow> Some False
    | Some i \<Rightarrow> do { c \<leftarrow> ih_conns h i;
        (if writable c then is_connection_past_ping_interval h ctl c now_ms else Some False) })"

definition find_next_pingable_connection ::
    "ice_heap \<Rightarrow> ice_controller \<Rightarrow> int \<Rightarrow> (nat option \<times> ice_controller) option" where
  "find_next_pingable_connection h ctl now_ms =
     do { sel \<leftarrow> selected_due h ctl now_ms;
          (if sel then Some (ctl_selected ctl, ctl)
           else do {
             _ \<leftarrow> any_pingable h ctl now_ms (sorted_list_of_set (ctl_unpinged ctl));
             (let ctl = ctl\<lparr>ctl_unpinged := ctl_unpinged ctl \<union> ctl_pinged ctl, ctl_pinged := {}\<rparr>
              in do { found \<leftarrow> scan_pingable h ctl now_ms (sorted_list_of_set (ctl_unpinged ctl)) None;
                      Some (found, ctl) }) }) }"

primrec need_ping_more :: "ice_heap \<Rightarrow> nat list \<Rightarrow> bool option" where
  "need_ping_more h [] = Some False"
| "need_ping_more h (i # is) =
     do { c \<leftarrow> ih_conns h i;
          (if ic_num_pings_sent c < MIN_PINGS_AT_WEAK_PING_INTERVAL then Some True
           else need_ping_more h is) }"

text \<open>The connection to ping, if it is time, and the interval of the timer.\<close>

definition selected_connection_to_ping ::
    "ice_heap \<Rightarrow> ice_controller \<Rightarrow> int \<Rightarrow> int \<Rightarrow> (nat option \<times> int \<times> ice_controller) option" where
  "selected_connection_to_ping h ctl last_ping_sent_ms now =
     do { more \<leftarrow> need_ping_more h (ctl_connections ctl);
          w \<leftarrow> ctl_weak h ctl;
          (let ping_interval = (if w \<or> more then WEAK_PING_INTERVAL else STRONG_PING_INTERVAL) in
           if now \<ge> last_ping_sent_ms + ping_interval
           then do { (conn, ctl) \<leftarrow> find_next_pingable_connection h ctl now;
                     Some (conn, ping_interval, ctl) }
           else Some (None, ping_interval, ctl)) }"

section \<open>Bookkeeping\<close>

definition ctl_add_connection :: "nat \<Rightarrow> ice_controller \<Rightarrow> ice_controller" where
  "ctl_add_connection i ctl =
     ctl\<lparr>ctl_connections := ctl_connections ctl @ [i], ctl_unpinged := insert i (ctl_unpinged ctl)\<rparr>"

definition mark_connection_pinged :: "nat \<Rightarrow> ice_controller \<Rightarrow> ice_controller" where
  "mark_connection_pinged i ctl =
     (if i \<in> ctl_pinged ctl then ctl
      else ctl\<lparr>ctl_pinged := insert i (ctl_pinged ctl), ctl_unpinged := ctl_unpinged ctl - {i}\<rparr>)"

text \<open>
  The erase loop: after \<^verbatim>\<open>erase(iter)\<close> the iterator stands on the next element and is then
  incremented; past the end that is undefined behaviour.\<close>

fun erase_loop :: "nat \<Rightarrow> nat list \<Rightarrow> nat list option" where
  "erase_loop conn [] = Some []"
| "erase_loop conn (x # xs) =
     (if x = conn
      then (case xs of [] \<Rightarrow> None | y # ys \<Rightarrow> map_option ((#) y) (erase_loop conn ys))
      else map_option ((#) x) (erase_loop conn xs))"

definition ctl_on_connection_destroyed :: "nat \<Rightarrow> ice_controller \<Rightarrow> ice_controller option" where
  "ctl_on_connection_destroyed conn ctl =
     do { cs \<leftarrow> erase_loop conn (ctl_connections ctl);
          Some (ctl\<lparr>ctl_pinged := ctl_pinged ctl - {conn}, ctl_unpinged := ctl_unpinged ctl - {conn},
                    ctl_connections := cs\<rparr>) }"

section \<open>Choosing the best connection\<close>

text \<open>A connection as the comparison sees it; the priority needs the port's first candidate.\<close>

record conn_view =
  cv_id :: nat
  cv_conn :: ice_connection
  cv_priority :: u64

definition view_conn :: "ice_heap \<Rightarrow> nat \<Rightarrow> conn_view option" where
  "view_conn h i =
     do { c \<leftarrow> ih_conns h i; p \<leftarrow> ih_ports h (ic_port c); lc \<leftarrow> local_candidate p;
          Some \<lparr>cv_id = i, cv_conn = c,
                cv_priority = conn_priority (c_priority lc) (c_priority (ic_remote c))\<rparr> }"

definition compare_connections :: "conn_view \<Rightarrow> conn_view \<Rightarrow> int" where
  "compare_connections a b =
     (if writable (cv_conn a) \<and> \<not> writable (cv_conn b) then 1
      else if \<not> writable (cv_conn a) \<and> writable (cv_conn b) then -1
      else if ic_write_state (cv_conn a) < ic_write_state (cv_conn b) then 1
      else if ic_write_state (cv_conn a) > ic_write_state (cv_conn b) then -1
      else if ic_receiving (cv_conn a) \<and> \<not> ic_receiving (cv_conn b) then 1
      else if \<not> ic_receiving (cv_conn a) \<and> ic_receiving (cv_conn b) then -1
      else if cv_priority a > cv_priority b then 1
      else if cv_priority a < cv_priority b then -1
      else 0)"

definition conn_better :: "conn_view \<Rightarrow> conn_view \<Rightarrow> bool" where
  "conn_better a b =
     (let cmp = compare_connections a b
      in if cmp \<noteq> 0 then cmp > 0 else ic_rtt (cv_conn a) < ic_rtt (cv_conn b))"

definition ready_to_send :: "ice_connection \<Rightarrow> bool" where
  "ready_to_send c \<longleftrightarrow> writable c \<or> ic_write_state c = STATE_WRITE_UNRELIABLE"

text \<open>The connection to switch to, if any, and the controller with its connections sorted.\<close>

definition sort_and_switch_connection ::
    "ice_heap \<Rightarrow> ice_controller \<Rightarrow> (nat option \<times> ice_controller) option" where
  "sort_and_switch_connection h ctl =
     do { views \<leftarrow> those (map (view_conn h) (ctl_connections ctl));
          (let sorted_views = stable_sort conn_better views;
               ctl = ctl\<lparr>ctl_connections := map cv_id sorted_views\<rparr>
           in case sorted_views of
                [] \<Rightarrow> Some (None, ctl)
              | tv # _ \<Rightarrow>
                  if \<not> ready_to_send (cv_conn tv) \<or> ctl_selected ctl = Some (cv_id tv)
                  then Some (None, ctl)
                  else (case ctl_selected ctl of
                     None \<Rightarrow> Some (Some (cv_id tv), ctl)
                   | Some s \<Rightarrow> do { sel \<leftarrow> ih_conns h s;
                       Some (if ic_rtt (cv_conn tv) \<le> ic_rtt sel - k_min_improvement
                             then Some (cv_id tv) else None, ctl) })) }"

section \<open>The comparison is a strict weak ordering\<close>

definition conn_key :: "conn_view \<Rightarrow> write_state \<times> bool \<times> int \<times> int" where
  "conn_key v = (ic_write_state (cv_conn v), \<not> ic_receiving (cv_conn v), - uint (cv_priority v),
     ic_rtt (cv_conn v))"

lemma writable_least: "ic_write_state c = STATE_WRITABLE \<or> STATE_WRITABLE < ic_write_state c"
  by (cases "ic_write_state c") (simp_all add: less_write_state_def)

lemma conn_better_key: "conn_better a b \<longleftrightarrow> conn_key a < conn_key b"
proof -
  have w: "writable (cv_conn v) \<longleftrightarrow> ic_write_state (cv_conn v) = STATE_WRITABLE" for v
    by (simp add: writable_def)
  have p: "cv_priority a = cv_priority b \<longleftrightarrow> uint (cv_priority a) = uint (cv_priority b)"
    "cv_priority a < cv_priority b \<longleftrightarrow> uint (cv_priority a) < uint (cv_priority b)"
    "cv_priority b < cv_priority a \<longleftrightarrow> uint (cv_priority b) < uint (cv_priority a)"
    by (simp_all add: word_less_def word_uint_eq_iff)
  show ?thesis
    using writable_least [of "cv_conn a"] writable_least [of "cv_conn b"]
    unfolding conn_better_def compare_connections_def conn_key_def Let_def w p(2,3)
    by (auto simp: less_prod_def)
qed

interpretation conn_order: weak_order conn_better
  by unfold_locales (auto simp: conn_better_key)

end
