(* ===== verification/Ice_Controller_Properties.thy ===== *)
theory Ice_Controller_Properties
  imports Ice_Controller
begin

text \<open>
  What the controller guarantees: the sort is by the comparison and stable, a switch goes to a best
  connection, the next ping goes to the pingable connection pinged longest ago, the pinged and unpinged
  sets partition the connections; and where it fails: switching away from a dead connection, and
  erasing the last one.
\<close>

section \<open>Sorting and switching\<close>

lemma view_connD:
  "view_conn h i = Some v \<Longrightarrow> ih_conns h i = Some (cv_conn v) \<and> cv_id v = i"
  by (auto simp: view_conn_def split: Option.bind_splits)

lemma those_map_Some:
  "those (map f xs) = Some ys \<longleftrightarrow> list_all2 (\<lambda>x y. f x = Some y) xs ys"
proof (induction xs arbitrary: ys)
  case Nil
  then show ?case by auto
next
  case (Cons x xs)
  then show ?case
    by (cases "f x"; cases "those (map f xs)"; cases ys) (auto simp: list_all2_Cons1)
qed

lemma views_ids: "those (map (view_conn h) is) = Some vs \<Longrightarrow> map cv_id vs = is"
  unfolding those_map_Some by (induction rule: list_all2_induct) (auto dest: view_connD)

lemma views_mem1:
  "those (map (view_conn h) is) = Some vs \<Longrightarrow> j \<in> set is \<Longrightarrow> \<exists>w \<in> set vs. view_conn h j = Some w"
  unfolding those_map_Some by (induction rule: list_all2_induct) auto

lemma views_mem2:
  "those (map (view_conn h) is) = Some vs \<Longrightarrow> w \<in> set vs \<Longrightarrow>
     view_conn h (cv_id w) = Some w \<and> cv_id w \<in> set is"
  unfolding those_map_Some by (induction rule: list_all2_induct) (auto dest: view_connD)

lemma not_better_ready:
  "\<not> conn_better w v \<Longrightarrow> ready_to_send (cv_conn w) \<Longrightarrow> ready_to_send (cv_conn v)"
  unfolding conn_better_key ready_to_send_def writable_def conn_key_def
  by (cases "ic_write_state (cv_conn v)"; cases "ic_write_state (cv_conn w)")
    (auto simp: less_prod_def less_write_state_def)

lemma sort_and_switch_cases:
  assumes "sort_and_switch_connection h ctl = Some (sw, ctl')"
  shows "mset (ctl_connections ctl') = mset (ctl_connections ctl) \<and>
    ctl' = ctl\<lparr>ctl_connections := ctl_connections ctl'\<rparr> \<and>
    (\<forall>i. sw = Some i \<longrightarrow> ctl_selected ctl \<noteq> Some i \<and> i \<in> set (ctl_connections ctl) \<and>
       (\<exists>v. view_conn h i = Some v \<and> ready_to_send (cv_conn v) \<and>
          (\<forall>j w. j \<in> set (ctl_connections ctl) \<and> view_conn h j = Some w \<longrightarrow> \<not> conn_better w v) \<and>
          (\<forall>s c. ctl_selected ctl = Some s \<and> ih_conns h s = Some c \<longrightarrow> ic_rtt (cv_conn v) + 10 \<le> ic_rtt c))) \<and>
    (ctl_selected ctl = None \<and>
       (\<exists>j c. j \<in> set (ctl_connections ctl) \<and> ih_conns h j = Some c \<and> ready_to_send c) \<longrightarrow> sw \<noteq> None)"
proof -
  obtain vs where vs: "those (map (view_conn h) (ctl_connections ctl)) = Some vs"
    using assms by (auto simp: sort_and_switch_connection_def split: Option.bind_splits)
  define sv where "sv = stable_sort conn_better vs"
  have ctl': "ctl' = ctl\<lparr>ctl_connections := map cv_id sv\<rparr>"
    using assms vs by (auto simp: sort_and_switch_connection_def sv_def Let_def
        split: list.splits if_splits option.splits Option.bind_splits)
  have "mset (map cv_id sv) = mset (ctl_connections ctl)"
    using views_ids [OF vs] by (metis mset_map mset_stable_sort sv_def)
  moreover have best: "\<not> conn_better w (hd sv)" if "view_conn h j = Some w" "j \<in> set (ctl_connections ctl)" for j w
  proof -
    have "w \<in> set vs" using views_mem1 [OF vs that(2)] that(1) by auto
    then show ?thesis unfolding sv_def by (intro conn_order.best_first) auto
  qed
  moreover have hd: "view_conn h (cv_id (hd sv)) = Some (hd sv) \<and> cv_id (hd sv) \<in> set (ctl_connections ctl)"
    if "sv \<noteq> []"
    using views_mem2 [OF vs, of "hd sv"] that by (metis hd_in_set set_stable_sort sv_def)
  moreover have target: "i = cv_id (hd sv) \<and> sv \<noteq> [] \<and> ready_to_send (cv_conn (hd sv)) \<and> ctl_selected ctl \<noteq> Some i \<and>
      (\<forall>s c. ctl_selected ctl = Some s \<and> ih_conns h s = Some c \<longrightarrow> ic_rtt (cv_conn (hd sv)) + 10 \<le> ic_rtt c)"
    if "sw = Some i" for i
    using assms vs that by (auto simp: sort_and_switch_connection_def sv_def [symmetric] Let_def
        split: list.splits if_splits option.splits Option.bind_splits)
  moreover have "sw \<noteq> None" if z: "ctl_selected ctl = None" "j \<in> set (ctl_connections ctl)"
      "ih_conns h j = Some c" "ready_to_send c" for j c
  proof -
    obtain w where w: "w \<in> set vs" "view_conn h j = Some w" using views_mem1 [OF vs z(2)] by blast
    then have "ready_to_send (cv_conn w)" using view_connD [OF w(2)] z(3,4) by simp
    then have "ready_to_send (cv_conn (hd sv))" using not_better_ready best [OF w(2) z(2)] by blast
    moreover have "sv \<noteq> []" using w(1) by (auto simp: sv_def)
    ultimately show ?thesis
      using assms vs z(1) by (auto simp: sort_and_switch_connection_def sv_def [symmetric] Let_def
        split: list.splits)
  qed
  ultimately show ?thesis unfolding ctl' by (intro conjI allI impI) (auto dest!: target)
qed

text \<open>
  C28: \<^verbatim>\<open>sort_and_switch_connection\<close> permutes the connections and nothing else.  When it asks for a
  switch, the target is another connection than the selected one, able to send, not beaten by any
  connection in the comparison, and at least 10 ms faster than the selected connection if there is one;
  and with no connection selected it finds a target whenever some connection is able to send.\<close>

theorem sort_and_switch_best:
  assumes "sort_and_switch_connection h ctl = Some (sw, ctl')"
  shows "mset (ctl_connections ctl') = mset (ctl_connections ctl) \<and>
    ctl' = ctl\<lparr>ctl_connections := ctl_connections ctl'\<rparr> \<and>
    (\<forall>i. sw = Some i \<longrightarrow> ctl_selected ctl \<noteq> Some i \<and> i \<in> set (ctl_connections ctl) \<and>
       (\<exists>v. view_conn h i = Some v \<and> ready_to_send (cv_conn v) \<and>
          (\<forall>j w. j \<in> set (ctl_connections ctl) \<and> view_conn h j = Some w \<longrightarrow> \<not> conn_better w v) \<and>
          (\<forall>s c. ctl_selected ctl = Some s \<and> ih_conns h s = Some c \<longrightarrow> ic_rtt (cv_conn v) + 10 \<le> ic_rtt c))) \<and>
    (ctl_selected ctl = None \<and>
       (\<exists>j c. j \<in> set (ctl_connections ctl) \<and> ih_conns h j = Some c \<and> ready_to_send c) \<longrightarrow> sw \<noteq> None)"
  by (rule sort_and_switch_cases [OF assms])

text \<open>A heap with one port and two connections, for the witnesses.\<close>

definition sample_conn :: "write_state \<Rightarrow> int \<Rightarrow> ice_connection" where
  "sample_conn ws rtt = (ice_connection_new 0 sample_candidate)\<lparr>ic_write_state := ws, ic_rtt := rtt\<rparr>"

definition sample_heap :: ice_heap where
  "sample_heap = \<lparr>ih_ports = [0 \<mapsto> sample_port\<lparr>up_candidates := [sample_candidate]\<rparr>],
     ih_conns = [1 \<mapsto> sample_conn STATE_WRITE_TIMEOUT 20, 2 \<mapsto> sample_conn STATE_WRITABLE 15]\<rparr>"

definition sample_controller :: ice_controller where
  "sample_controller = \<lparr>ctl_selected = Some 1, ctl_connections = [1, 2], ctl_unpinged = {1, 2}, ctl_pinged = {}\<rparr>"

lemmas sample_simps = sample_conn_def sample_heap_def sample_controller_def sample_port_def
  udp_port_new_def sample_candidate_def ice_connection_new_def view_conn_def local_candidate_def
  conn_better_def compare_connections_def writable_def ready_to_send_def

lemma sample_sort:
  "sort_and_switch_connection sample_heap (sample_controller\<lparr>ctl_selected := None\<rparr>) =
     Some (Some 2, sample_controller\<lparr>ctl_selected := None, ctl_connections := [2, 1]\<rparr>)"
  by (simp add: sort_and_switch_connection_def sample_simps)

theorem sort_and_switch_best_witness:
  "\<exists>v. view_conn sample_heap 2 = Some v \<and> ready_to_send (cv_conn v)"
  using sort_and_switch_best [OF sample_sort] by blast

text \<open>
  The 10 ms rule is applied whatever the state of the selected connection: as long as no connection
  is at least 10 ms faster, no switch happens, even when the selected connection has timed out and
  another one is writable.\<close>

theorem no_switch_from_dead_connection:
  assumes "sort_and_switch_connection h ctl = Some (sw, ctl')"
    and "ctl_selected ctl = Some s" "ih_conns h s = Some sel"
    and "\<And>j c. j \<in> set (ctl_connections ctl) \<Longrightarrow> ih_conns h j = Some c \<Longrightarrow> ic_rtt sel - 10 < ic_rtt c"
  shows "sw = None"
proof -
  obtain vs where vs: "those (map (view_conn h) (ctl_connections ctl)) = Some vs"
    using assms(1) by (auto simp: sort_and_switch_connection_def split: Option.bind_splits)
  have "ic_rtt sel - 10 < ic_rtt (cv_conn v)" if "v \<in> set vs" for v
    using views_mem2 [OF vs that] assms(4) view_connD by blast
  moreover have "v \<in> set vs" if "stable_sort conn_better vs = v # ws" for v ws
    by (metis list.set_intros(1) set_stable_sort that)
  ultimately have "\<not> ic_rtt (cv_conn v) \<le> ic_rtt sel - 10" if "stable_sort conn_better vs = v # ws" for v ws
    using that by fastforce
  then show ?thesis
    using assms(1-3) vs by (auto simp: sort_and_switch_connection_def Let_def split: list.splits if_splits)
qed

lemma sample_stuck:
  "sort_and_switch_connection sample_heap sample_controller =
     Some (None, sample_controller\<lparr>ctl_connections := [2, 1]\<rparr>)"
  by (simp add: sort_and_switch_connection_def sample_simps)

theorem no_switch_from_dead_connection_witness:
  "\<exists>sw ctl'. sort_and_switch_connection sample_heap sample_controller = Some (sw, ctl') \<and> sw = None"
proof -
  obtain sw ctl' where s: "sort_and_switch_connection sample_heap sample_controller = Some (sw, ctl')"
    using sample_stuck by blast
  have "sw = None"
    by (rule no_switch_from_dead_connection [OF s, of 1 "sample_conn STATE_WRITE_TIMEOUT 20"])
      (auto simp: sample_heap_def sample_controller_def sample_conn_def split: if_splits)
  with s show ?thesis by blast
qed

section \<open>The next ping\<close>

abbreviation lps :: "ice_heap \<Rightarrow> nat \<Rightarrow> int" where
  "lps h i \<equiv> ic_last_ping_sent (the (ih_conns h i))"

lemma scan_pingable_spec:
  "scan_pingable h ctl now is found = Some r \<Longrightarrow>
     (r = None \<longrightarrow> found = None \<and> (\<forall>i \<in> set is. is_pingable h ctl now i = Some False)) \<and>
     (\<forall>x. r = Some x \<longrightarrow>
        (found = Some x \<or> x \<in> set is \<and> is_pingable h ctl now x = Some True) \<and>
        (\<forall>i \<in> set is. is_pingable h ctl now i = Some True \<longrightarrow> lps h x \<le> lps h i) \<and>
        (\<forall>f. found = Some f \<longrightarrow> lps h x \<le> lps h f))"
proof (induction "is" arbitrary: found)
  case (Cons i "is")
  obtain b where b: "is_pingable h ctl now i = Some b"
    using Cons.prems by (cases "is_pingable h ctl now i") auto
  show ?case
  proof (cases b)
    case False
    then show ?thesis using Cons b by auto
  next
    case True
    obtain m where m: "more_pingable h i found = Some m"
      "scan_pingable h ctl now is (if m then Some i else found) = Some r"
      using Cons.prems b True by (auto split: Option.bind_splits)
    have o: "m \<longleftrightarrow> found = None \<or> lps h i < lps h (the found)"
      using m(1) by (auto simp: more_pingable_def split: option.splits Option.bind_splits)
    show ?thesis
    proof (cases m)
      case True
      then show ?thesis using Cons.IH [OF m(2)] o b \<open>b\<close> by fastforce
    next
      case False
      then show ?thesis using Cons.IH [OF m(2)] o b \<open>b\<close> by fastforce
    qed
  qed
qed simp

lemma find_next_cases:
  assumes "find_next_pingable_connection h ctl now = Some (found, ctl')"
    and "finite (ctl_unpinged ctl)" "finite (ctl_pinged ctl)"
  shows "(\<exists>i c. found = Some i \<and> ctl_selected ctl = Some i \<and> ih_conns h i = Some c \<and> writable c \<and>
      is_connection_past_ping_interval h ctl c now = Some True \<and> ctl' = ctl) \<or>
    (ctl' = ctl\<lparr>ctl_unpinged := ctl_unpinged ctl \<union> ctl_pinged ctl, ctl_pinged := {}\<rparr> \<and>
     (found = None \<longrightarrow> (\<forall>i \<in> ctl_unpinged ctl'. is_pingable h ctl' now i = Some False)) \<and>
     (\<forall>x. found = Some x \<longrightarrow> x \<in> ctl_unpinged ctl' \<and> is_pingable h ctl' now x = Some True \<and>
        (\<forall>i \<in> ctl_unpinged ctl'. is_pingable h ctl' now i = Some True \<longrightarrow> lps h x \<le> lps h i)))"
proof -
  let ?ctl = "ctl\<lparr>ctl_unpinged := ctl_unpinged ctl \<union> ctl_pinged ctl, ctl_pinged := {}\<rparr>"
  obtain sel where sel: "selected_due h ctl now = Some sel"
    using assms(1) by (auto simp: find_next_pingable_connection_def split: Option.bind_splits)
  show ?thesis
  proof (cases sel)
    case True
    then have "found = ctl_selected ctl" "ctl' = ctl"
      using assms(1) sel by (auto simp: find_next_pingable_connection_def)
    then show ?thesis
      using sel True by (auto simp: selected_due_def split: option.splits Option.bind_splits if_splits)
  next
    case False
    then have "ctl' = ?ctl" "scan_pingable h ?ctl now
        (sorted_list_of_set (ctl_unpinged ctl \<union> ctl_pinged ctl)) None = Some found"
      using assms(1) sel by (auto simp: find_next_pingable_connection_def Let_def split: Option.bind_splits)
    from scan_pingable_spec [OF this(2)] this(1) assms(2,3) show ?thesis by auto
  qed
qed


lemma find_next_sample:
  "find_next_pingable_connection sample_heap sample_controller 700 = Some (Some 1, sample_controller)"
proof -
  have s: "sorted_list_of_set {Suc 0, 2} = [1, 2]" by (simp add: sorted_list_of_set_nonempty)
  show ?thesis
    by (simp add: find_next_pingable_connection_def selected_due_def sample_simps is_pingable_def ctl_weak_def weak_def
        more_pingable_def s numeral_eq_Suc)
qed


section \<open>Keeping the sets\<close>

definition ctl_inv :: "ice_controller \<Rightarrow> bool" where
  "ctl_inv ctl \<longleftrightarrow> distinct (ctl_connections ctl) \<and>
     ctl_unpinged ctl \<union> ctl_pinged ctl = set (ctl_connections ctl) \<and>
     ctl_unpinged ctl \<inter> ctl_pinged ctl = {} \<and>
     (\<forall>s. ctl_selected ctl = Some s \<longrightarrow> s \<in> set (ctl_connections ctl))"

lemma ctl_inv_finite: "ctl_inv ctl \<Longrightarrow> finite (ctl_unpinged ctl) \<and> finite (ctl_pinged ctl)"
  unfolding ctl_inv_def by (metis List.finite_set finite_Un)

lemma ctl_inv_new [simp]: "ctl_inv ice_controller_new"
  by (simp add: ctl_inv_def ice_controller_new_def)

lemma ctl_inv_add: "ctl_inv ctl \<Longrightarrow> i \<notin> set (ctl_connections ctl) \<Longrightarrow> ctl_inv (ctl_add_connection i ctl)"
  by (auto simp: ctl_inv_def ctl_add_connection_def)

lemma ctl_inv_mark:
  "ctl_inv ctl \<Longrightarrow> i \<in> set (ctl_connections ctl) \<Longrightarrow> ctl_inv (mark_connection_pinged i ctl)"
  unfolding ctl_inv_def mark_connection_pinged_def by auto

lemma ctl_inv_merge:
  "ctl_inv ctl \<Longrightarrow> ctl_inv (ctl\<lparr>ctl_unpinged := ctl_unpinged ctl \<union> ctl_pinged ctl, ctl_pinged := {}\<rparr>)"
  by (auto simp: ctl_inv_def)

lemma ctl_inv_find_next:
  assumes "ctl_inv ctl" "find_next_pingable_connection h ctl now = Some (found, ctl')"
  shows "ctl_inv ctl' \<and> (\<forall>i. found = Some i \<longrightarrow> i \<in> set (ctl_connections ctl')) \<and>
    ctl_connections ctl' = ctl_connections ctl \<and> ctl_selected ctl' = ctl_selected ctl"
  using find_next_cases [OF assms(2)] ctl_inv_finite [OF assms(1)] ctl_inv_merge [OF assms(1)] assms(1)
  by (auto simp: ctl_inv_def)

section \<open>Removing a destroyed connection\<close>

lemma erase_loop_notin: "conn \<notin> set xs \<Longrightarrow> erase_loop conn xs = Some xs"
  by (induction conn xs rule: erase_loop.induct) auto

lemma erase_loop_distinct:
  "distinct xs \<Longrightarrow> conn \<in> set xs \<Longrightarrow>
     erase_loop conn xs = (if last xs = conn then None else Some (remove1 conn xs))"
proof (induction xs)
  case (Cons x xs)
  show ?case
  proof (cases "x = conn")
    case True
    then show ?thesis using Cons.prems by (cases xs) (auto simp: erase_loop_notin split: if_splits)
  next
    case False
    then show ?thesis using Cons by (cases xs) auto
  qed
qed simp

text \<open>
  \<^verbatim>\<open>on_connection_destroyed\<close> removes the connection from the list and both sets, keeping the partition,
  unless it is the last of the list, that is, the one ranked worst, or the only one: then the loop
  increments an iterator past the end.  The selected pointer is not cleared.\<close>

theorem destroyed_connection_removed:
  assumes "ctl_inv ctl" "conn \<in> set (ctl_connections ctl)"
  shows "if last (ctl_connections ctl) = conn then ctl_on_connection_destroyed conn ctl = None
    else \<exists>ctl'. ctl_on_connection_destroyed conn ctl = Some ctl' \<and>
      ctl_connections ctl' = remove1 conn (ctl_connections ctl) \<and>
      ctl_unpinged ctl' \<union> ctl_pinged ctl' = set (ctl_connections ctl) - {conn} \<and>
      ctl_selected ctl' = ctl_selected ctl"
  using assms erase_loop_distinct [of "ctl_connections ctl" conn]
  by (auto simp: ctl_inv_def ctl_on_connection_destroyed_def)

theorem destroyed_connection_removed_witness:
  "ctl_on_connection_destroyed 7 (ctl_add_connection 7 ice_controller_new) = None"
  using destroyed_connection_removed [of "ctl_add_connection 7 ice_controller_new" 7]
  by (auto simp: ctl_add_connection_def ice_controller_new_def ctl_inv_def)

section \<open>Running on a live heap\<close>

text \<open>Every connection the controller knows is alive, on a live port that has a candidate.\<close>

definition heap_ok :: "ice_heap \<Rightarrow> nat set \<Rightarrow> bool" where
  "heap_ok h A \<longleftrightarrow> (\<forall>i \<in> A. \<exists>c p. ih_conns h i = Some c \<and> ih_ports h (ic_port c) = Some p \<and>
     up_candidates p \<noteq> [])"

lemma heap_ok_conn: "heap_ok h A \<Longrightarrow> i \<in> A \<Longrightarrow> \<exists>c. ih_conns h i = Some c"
  unfolding heap_ok_def by blast

lemma heap_ok_view: "heap_ok h A \<Longrightarrow> i \<in> A \<Longrightarrow> \<exists>v. view_conn h i = Some v"
  unfolding heap_ok_def view_conn_def local_candidate_def by fastforce

lemma live_weak:
  "heap_ok h A \<Longrightarrow> (\<forall>s. ctl_selected ctl = Some s \<longrightarrow> s \<in> A) \<Longrightarrow> \<exists>b. ctl_weak h ctl = Some b"
  using heap_ok_conn by (fastforce simp: ctl_weak_def split: option.split)

lemma live_past:
  "heap_ok h A \<Longrightarrow> (\<forall>s. ctl_selected ctl = Some s \<longrightarrow> s \<in> A) \<Longrightarrow>
     \<exists>b. is_connection_past_ping_interval h ctl c now = Some b"
  using live_weak [of h A ctl]
  by (auto simp: is_connection_past_ping_interval_def get_connection_ping_interval_def)

lemma live_pingable:
  assumes "heap_ok h A" "\<forall>s. ctl_selected ctl = Some s \<longrightarrow> s \<in> A" "i \<in> A"
  shows "\<exists>b. is_pingable h ctl now i = Some b"
proof -
  obtain c where c: "ih_conns h i = Some c" using heap_ok_conn [OF assms(1,3)] by blast
  obtain w where w: "ctl_weak h ctl = Some w" using live_weak [OF assms(1,2)] by blast
  obtain p where "is_connection_past_ping_interval h ctl c now = Some p"
    using live_past [OF assms(1,2)] by blast
  then show ?thesis using c w by (auto simp: is_pingable_def)
qed

lemma live_any_pingable:
  assumes "heap_ok h A" "\<forall>s. ctl_selected ctl = Some s \<longrightarrow> s \<in> A" "set is \<subseteq> A"
  shows "\<exists>b. any_pingable h ctl now is = Some b"
  using assms(3)
proof (induction "is")
  case (Cons i "is")
  then obtain b where "is_pingable h ctl now i = Some b"
    using live_pingable [OF assms(1,2), of i now] by auto
  moreover obtain b' where "any_pingable h ctl now is = Some b'" using Cons by auto
  ultimately show ?case by auto
next
  case Nil
  show ?case by (simp only: any_pingable.simps) blast
qed

lemma live_scan:
  assumes "heap_ok h A" "\<forall>s. ctl_selected ctl = Some s \<longrightarrow> s \<in> A" "set is \<subseteq> A"
    and "\<forall>f. found = Some f \<longrightarrow> f \<in> A"
  shows "\<exists>r. scan_pingable h ctl now is found = Some r"
  using assms(3,4)
proof (induction "is" arbitrary: found)
  case (Cons i "is")
  obtain b where b: "is_pingable h ctl now i = Some b"
    using live_pingable [OF assms(1,2), of i now] Cons.prems by auto
  obtain c where c: "ih_conns h i = Some c" using heap_ok_conn [OF assms(1), of i] Cons.prems by auto
  have "\<exists>m. more_pingable h i found = Some m"
  proof (cases found)
    case (Some f)
    then obtain d where "ih_conns h f = Some d" using heap_ok_conn [OF assms(1), of f] Cons.prems by auto
    then show ?thesis using c Some by (simp add: more_pingable_def)
  qed (auto simp: more_pingable_def)
  then obtain m where m: "more_pingable h i found = Some m" by blast
  obtain r1 where r1: "scan_pingable h ctl now is found = Some r1"
    using Cons.IH [of found] Cons.prems by auto
  obtain r2 where r2: "scan_pingable h ctl now is (Some i) = Some r2"
    using Cons.IH [of "Some i"] Cons.prems by auto
  show ?case using b m r1 r2 by simp
qed simp

lemma live_find_next:
  assumes "heap_ok h (set (ctl_connections ctl))" "ctl_inv ctl"
  shows "\<exists>r. find_next_pingable_connection h ctl now = Some r"
proof -
  let ?A = "set (ctl_connections ctl)"
  let ?ctl = "ctl\<lparr>ctl_unpinged := ctl_unpinged ctl \<union> ctl_pinged ctl, ctl_pinged := {}\<rparr>"
  have s: "\<forall>s. ctl_selected ctl = Some s \<longrightarrow> s \<in> ?A" using assms(2) by (simp add: ctl_inv_def)
  have f: "finite (ctl_unpinged ctl)" "finite (ctl_pinged ctl)" using ctl_inv_finite [OF assms(2)] by auto
  have "\<exists>sel. selected_due h ctl now = Some sel"
  proof (cases "ctl_selected ctl")
    case (Some i)
    then obtain c where c: "ih_conns h i = Some c" using s heap_ok_conn [OF assms(1), of i] by auto
    obtain p where "is_connection_past_ping_interval h ctl c now = Some p"
      using live_past [OF assms(1) s] by blast
    with c Some show ?thesis by (auto simp: selected_due_def)
  qed (auto simp: selected_due_def)
  then obtain sel where "selected_due h ctl now = Some sel" by blast
  moreover obtain b where "any_pingable h ctl now (sorted_list_of_set (ctl_unpinged ctl)) = Some b"
    using live_any_pingable [OF assms(1) s, of "sorted_list_of_set (ctl_unpinged ctl)" now] f assms(2)
    by (auto simp: ctl_inv_def)
  moreover obtain r where "scan_pingable h ?ctl now
      (sorted_list_of_set (ctl_unpinged ctl \<union> ctl_pinged ctl)) None = Some r"
    using live_scan [OF assms(1), of ?ctl "sorted_list_of_set (ctl_unpinged ctl \<union> ctl_pinged ctl)" None now]
      s f assms(2) by (auto simp: ctl_inv_def)
  ultimately show ?thesis by (simp add: find_next_pingable_connection_def Let_def)
qed

lemma live_need_more:
  assumes "heap_ok h A" "set is \<subseteq> A"
  shows "\<exists>b. need_ping_more h is = Some b"
  using assms(2)
proof (induction "is")
  case (Cons i "is")
  then obtain c where "ih_conns h i = Some c" using heap_ok_conn [OF assms(1), of i] by auto
  moreover obtain b where "need_ping_more h is = Some b" using Cons by auto
  ultimately show ?case by auto
next
  case Nil
  show ?case by (simp only: need_ping_more.simps) blast
qed

lemma live_to_ping:
  assumes "heap_ok h (set (ctl_connections ctl))" "ctl_inv ctl"
  shows "\<exists>r. selected_connection_to_ping h ctl lst now = Some r"
proof -
  have s: "\<forall>s. ctl_selected ctl = Some s \<longrightarrow> s \<in> set (ctl_connections ctl)"
    using assms(2) by (simp add: ctl_inv_def)
  obtain m where "need_ping_more h (ctl_connections ctl) = Some m"
    using live_need_more [OF assms(1) order_refl] by blast
  moreover obtain w where "ctl_weak h ctl = Some w" using live_weak [OF assms(1) s] by blast
  moreover obtain c ctl' where "find_next_pingable_connection h ctl now = Some (c, ctl')"
    using live_find_next [OF assms, of now] by auto
  ultimately show ?thesis by (simp add: selected_connection_to_ping_def Let_def)
qed

lemma live_sort:
  assumes "heap_ok h (set (ctl_connections ctl))" "\<forall>s. ctl_selected ctl = Some s \<longrightarrow> s \<in> set (ctl_connections ctl)"
  shows "\<exists>r. sort_and_switch_connection h ctl = Some r"
proof -
  have "\<exists>vs. list_all2 (\<lambda>x y. view_conn h x = Some y) is vs" if "set is \<subseteq> set (ctl_connections ctl)" for "is"
    using that
  proof (induction "is")
    case (Cons i "is")
    then show ?case using heap_ok_view [OF assms(1), of i] by (auto simp: list_all2_Cons1)
  qed auto
  then obtain vs where vs: "those (map (view_conn h) (ctl_connections ctl)) = Some vs"
    unfolding those_map_Some by blast
  show ?thesis
  proof (cases "ctl_selected ctl")
    case (Some i)
    then obtain c where "ih_conns h i = Some c" using assms(2) heap_ok_conn [OF assms(1), of i] by auto
    with vs Some show ?thesis
      by (simp add: sort_and_switch_connection_def Let_def split: list.split)
  qed (use vs in \<open>simp add: sort_and_switch_connection_def Let_def split: list.split\<close>)
qed

end
