(* ===== verification/Ice_Channel.thy ===== *)
theory Ice_Channel
  imports Ice_Controller_Properties
begin

text \<open>
  \<^verbatim>\<open>src/ice/ice_transport_channel.h\<close> and \<^verbatim>\<open>ice_transport_channel.cpp\<close>, with the parts of
  \<^verbatim>\<open>ice_connection.cpp\<close> and \<^verbatim>\<open>udp_port.cpp\<close> that call back into the channel: the whole state of one
  ICE channel, its ports, its connections and its controller.  Signals are synchronous calls, so a
  connection operation that signals runs the channel's slot before it goes on.  \<open>None\<close> is a fault.

  The clock and the random transaction ids are read from \<open>ch_clk\<close> and \<open>ch_rnd\<close>, one element per read.
  What leaves the channel (packets, signals to its owner, timer calls) is appended to \<open>ch_out\<close>.
\<close>

datatype channel_event =
    SendPacket nat packet
  | WritableState bool
  | ReceivingState bool
  | ReadPacket string
  | CandidateAllocateDone "candidate list"
  | StartTimer int
  | StopTimer

record ice_channel =
  ch_heap :: ice_heap
  ch_next :: nat
  ch_ctl :: ice_controller
  ch_transport_name :: string
  ch_component :: ice_component
  ch_params :: ice_parameters
  ch_remote_params :: ice_parameters
  ch_local_candidates :: "candidate list"
  ch_start_pinging :: bool
  ch_last_ping_sent_ms :: int
  ch_cur_ping_interval :: int
  ch_selected :: "nat option"
  ch_writable :: bool
  ch_receiving :: bool
  ch_clk :: "nat \<Rightarrow> int"
  ch_ticks :: nat
  ch_rnd :: "nat \<Rightarrow> string"
  ch_rnds :: nat
  ch_out :: "channel_event list"

definition ice_channel_new ::
    "string \<Rightarrow> ice_component \<Rightarrow> (nat \<Rightarrow> int) \<Rightarrow> (nat \<Rightarrow> string) \<Rightarrow> ice_channel" where
  "ice_channel_new transport_name component clk rnd =
     \<lparr>ch_heap = \<lparr>ih_ports = Map.empty, ih_conns = Map.empty\<rparr>, ch_next = 0, ch_ctl = ice_controller_new,
      ch_transport_name = transport_name, ch_component = component,
      ch_params = \<lparr>ice_ufrag = [], ice_pwd = []\<rparr>, ch_remote_params = \<lparr>ice_ufrag = [], ice_pwd = []\<rparr>,
      ch_local_candidates = [], ch_start_pinging = False, ch_last_ping_sent_ms = 0,
      ch_cur_ping_interval = WEAK_PING_INTERVAL, ch_selected = None, ch_writable = False,
      ch_receiving = False, ch_clk = clk, ch_ticks = 0, ch_rnd = rnd, ch_rnds = 0, ch_out = []\<rparr>"

abbreviation PING_INTERVAL_DIFF :: int where "PING_INTERVAL_DIFF \<equiv> 5"

section \<open>Access\<close>

definition emit :: "channel_event list \<Rightarrow> ice_channel \<Rightarrow> ice_channel" where
  "emit es w = w\<lparr>ch_out := ch_out w @ es\<rparr>"

definition send_packets :: "nat \<Rightarrow> packet list \<Rightarrow> ice_channel \<Rightarrow> ice_channel" where
  "send_packets pid pkts w = emit (map (SendPacket pid) pkts) w"

definition time_millis :: "ice_channel \<Rightarrow> int \<times> ice_channel" where
  "time_millis w = (ch_clk w (ch_ticks w), w\<lparr>ch_ticks := Suc (ch_ticks w)\<rparr>)"

definition create_random_id :: "ice_channel \<Rightarrow> string \<times> ice_channel" where
  "create_random_id w = (ch_rnd w (ch_rnds w), w\<lparr>ch_rnds := Suc (ch_rnds w)\<rparr>)"

definition conn_at :: "nat \<Rightarrow> ice_channel \<Rightarrow> ice_connection option" where
  "conn_at i w = ih_conns (ch_heap w) i"

definition port_at :: "nat \<Rightarrow> ice_channel \<Rightarrow> udp_port option" where
  "port_at i w = ih_ports (ch_heap w) i"

definition put_conn :: "nat \<Rightarrow> ice_connection \<Rightarrow> ice_channel \<Rightarrow> ice_channel" where
  "put_conn i c w = w\<lparr>ch_heap := (ch_heap w)\<lparr>ih_conns := (ih_conns (ch_heap w))(i \<mapsto> c)\<rparr>\<rparr>"

definition put_port :: "nat \<Rightarrow> udp_port \<Rightarrow> ice_channel \<Rightarrow> ice_channel" where
  "put_port i p w = w\<lparr>ch_heap := (ch_heap w)\<lparr>ih_ports := (ih_ports (ch_heap w))(i \<mapsto> p)\<rparr>\<rparr>"

definition free_conn :: "nat \<Rightarrow> ice_channel \<Rightarrow> ice_channel" where
  "free_conn i w = w\<lparr>ch_heap := (ch_heap w)\<lparr>ih_conns := (ih_conns (ch_heap w))(i := None)\<rparr>\<rparr>"

section \<open>State of the channel\<close>

definition set_writable :: "bool \<Rightarrow> ice_channel \<Rightarrow> ice_channel" where
  "set_writable b w =
     (if ch_writable w = b then w else emit [WritableState b] (w\<lparr>ch_writable := b\<rparr>))"

definition set_receiving :: "bool \<Rightarrow> ice_channel \<Rightarrow> ice_channel" where
  "set_receiving b w =
     (if ch_receiving w = b then w else emit [ReceivingState b] (w\<lparr>ch_receiving := b\<rparr>))"

primrec any_receiving :: "ice_heap \<Rightarrow> nat list \<Rightarrow> bool option" where
  "any_receiving h [] = Some False"
| "any_receiving h (i # is) =
     do { c \<leftarrow> ih_conns h i; (if ic_receiving c then Some True else any_receiving h is) }"

definition channel_update_state :: "ice_channel \<Rightarrow> ice_channel option" where
  "channel_update_state w =
     do { writable_now \<leftarrow> (case ch_selected w of
            None \<Rightarrow> Some False
          | Some i \<Rightarrow> do { c \<leftarrow> conn_at i w; Some (writable c) });
          (let w = set_writable writable_now w in
           do { receiving \<leftarrow> any_receiving (ch_heap w) (ctl_connections (ch_ctl w));
                Some (set_receiving receiving w) }) }"

text \<open>The log line of a switch calls \<^verbatim>\<open>conn->to_string()\<close> even when \<^verbatim>\<open>conn\<close> is null.\<close>

definition switch_selected_connection :: "nat option \<Rightarrow> ice_channel \<Rightarrow> ice_channel option" where
  "switch_selected_connection conn w =
     (let old = ch_selected w; w = w\<lparr>ch_selected := conn\<rparr> in
      do { w \<leftarrow> (case old of
             None \<Rightarrow> Some w
           | Some i \<Rightarrow> do { c \<leftarrow> conn_at i w;
               (case conn of
                  None \<Rightarrow> None
                | Some j \<Rightarrow> do { _ \<leftarrow> conn_at j w; Some (put_conn i (c\<lparr>ic_selected := False\<rparr>) w) }) });
           (case conn of
              None \<Rightarrow> Some w
            | Some j \<Rightarrow> do { c \<leftarrow> conn_at j w;
                (let w = put_conn j (c\<lparr>ic_selected := True\<rparr>) w
                 in Some (w\<lparr>ch_ctl := (ch_ctl w)\<lparr>ctl_selected := Some j\<rparr>\<rparr>)) }) })"

definition maybe_switch_selected_connection :: "nat option \<Rightarrow> ice_channel \<Rightarrow> ice_channel option" where
  "maybe_switch_selected_connection conn w =
     (case conn of None \<Rightarrow> Some w | Some j \<Rightarrow> switch_selected_connection (Some j) w)"

definition maybe_start_pinging :: "ice_channel \<Rightarrow> ice_channel option" where
  "maybe_start_pinging w =
     (if ch_start_pinging w then Some w
      else
        let (now, w) = time_millis w in
        do { b \<leftarrow> has_pingable_connection (ch_heap w) (ch_ctl w) now;
             Some (if b then emit [StartTimer (ch_cur_ping_interval w * 1000)] (w\<lparr>ch_start_pinging := True\<rparr>)
                   else w) })"

definition sort_connections_and_update_state :: "ice_channel \<Rightarrow> ice_channel option" where
  "sort_connections_and_update_state w =
     do { (sw, ctl) \<leftarrow> sort_and_switch_connection (ch_heap w) (ch_ctl w);
          w \<leftarrow> maybe_switch_selected_connection sw (w\<lparr>ch_ctl := ctl\<rparr>);
          w \<leftarrow> channel_update_state w;
          maybe_start_pinging w }"

definition on_connection_state_change :: "ice_channel \<Rightarrow> ice_channel option" where
  "on_connection_state_change w = sort_connections_and_update_state w"

definition channel_on_connection_destroyed :: "nat \<Rightarrow> ice_channel \<Rightarrow> ice_channel option" where
  "channel_on_connection_destroyed i w =
     do { ctl \<leftarrow> ctl_on_connection_destroyed i (ch_ctl w);
          (let w = w\<lparr>ch_ctl := ctl\<rparr> in
           if ch_selected w = Some i
           then do { w \<leftarrow> switch_selected_connection None w; sort_connections_and_update_state w }
           else channel_update_state w) }"

definition channel_add_connection :: "nat \<Rightarrow> ice_channel \<Rightarrow> ice_channel" where
  "channel_add_connection i w = w\<lparr>ch_ctl := ctl_add_connection i (ch_ctl w)\<rparr>"

section \<open>Connection operations that signal\<close>

definition apply_conn_op :: "conn_op \<Rightarrow> nat \<Rightarrow> ice_channel \<Rightarrow> ice_channel option" where
  "apply_conn_op op i w =
     do { c \<leftarrow> conn_at i w;
          (let (c', sig) = op c; w = put_conn i c' w
           in if sig then on_connection_state_change w else Some w) }"

primrec apply_conn_ops :: "conn_op list \<Rightarrow> nat \<Rightarrow> ice_channel \<Rightarrow> ice_channel option" where
  "apply_conn_ops [] i w = Some w"
| "apply_conn_ops (op # ops) i w = do { w \<leftarrow> apply_conn_op op i w; apply_conn_ops ops i w }"

definition conn_update_state :: "int \<Rightarrow> nat \<Rightarrow> ice_channel \<Rightarrow> ice_channel option" where
  "conn_update_state now i w =
     do { c \<leftarrow> conn_at i w; apply_conn_ops (update_state_ops c now) i w }"

primrec update_connections :: "int \<Rightarrow> nat list \<Rightarrow> ice_channel \<Rightarrow> ice_channel option" where
  "update_connections now [] w = Some w"
| "update_connections now (i # is) w =
     do { w \<leftarrow> conn_update_state now i w; update_connections now is w }"

definition update_connection_state :: "ice_channel \<Rightarrow> ice_channel option" where
  "update_connection_state w =
     (let connections = ctl_connections (ch_ctl w); (now, w) = time_millis w
      in update_connections now connections w)"

section \<open>The ping timer\<close>

definition ping_connection :: "rtcbase \<Rightarrow> nat \<Rightarrow> ice_channel \<Rightarrow> ice_channel option" where
  "ping_connection rt i w =
     (let (now, w) = time_millis w;
          w = w\<lparr>ch_last_ping_sent_ms := now\<rparr>;
          (tid, w) = create_random_id w;
          (send_ts, w) = time_millis w
      in do { c \<leftarrow> conn_at i w;
              p \<leftarrow> port_at (ic_port c) w;
              (c', pkts) \<leftarrow> conn_ping rt p tid now send_ts c;
              Some (send_packets (ic_port c) pkts (put_conn i c' w)) })"

definition on_check_and_ping :: "rtcbase \<Rightarrow> ice_channel \<Rightarrow> ice_channel option" where
  "on_check_and_ping rt w =
     do { w \<leftarrow> update_connection_state w;
          (let (now, w) = time_millis w in
           do { (conn, ping_interval, ctl) \<leftarrow> selected_connection_to_ping (ch_heap w) (ch_ctl w)
                  (ch_last_ping_sent_ms w - PING_INTERVAL_DIFF) now;
                (let w = w\<lparr>ch_ctl := ctl\<rparr> in
                 do { w \<leftarrow> (case conn of
                        None \<Rightarrow> Some w
                      | Some i \<Rightarrow> do { w \<leftarrow> ping_connection rt i w;
                          Some (w\<lparr>ch_ctl := mark_connection_pinged i (ch_ctl w)\<rparr>) });
                      Some (if ch_cur_ping_interval w \<noteq> ping_interval
                            then emit [StopTimer, StartTimer (ping_interval * 1000)]
                                   (w\<lparr>ch_cur_ping_interval := ping_interval\<rparr>)
                            else w) }) }) }"

section \<open>Packets\<close>

definition received_ping_response_at :: "rtcbase \<Rightarrow> int \<Rightarrow> nat \<Rightarrow> ice_channel \<Rightarrow> ice_channel option" where
  "received_ping_response_at rt rtt i w =
     (let (now, w) = time_millis w in apply_conn_ops (received_ping_response_ops rt rtt now) i w)"

definition request_rtt :: "nat \<Rightarrow> nat \<Rightarrow> ice_channel \<Rightarrow> (int \<times> ice_channel) option" where
  "request_rtt i r w =
     (let (now, w) = time_millis w in
      do { c \<leftarrow> conn_at i w; rq \<leftarrow> rm_heap (ic_requests c) r; Some (request_elapsed now rq, w) })"

definition on_connection_request_response ::
    "rtcbase \<Rightarrow> nat \<Rightarrow> nat \<Rightarrow> stun_message \<Rightarrow> ice_channel \<Rightarrow> ice_channel option" where
  "on_connection_request_response rt i r msg w =
     do { (rtt, w) \<leftarrow> request_rtt i r w; received_ping_response_at rt rtt i w }"

definition fail_and_destroy :: "nat \<Rightarrow> ice_channel \<Rightarrow> ice_channel option" where
  "fail_and_destroy i w =
     do { c \<leftarrow> conn_at i w;
          w \<leftarrow> channel_on_connection_destroyed i (put_conn i (set_state FAILED c) w);
          Some (free_conn i w) }"

definition on_connection_request_error_response ::
    "nat \<Rightarrow> nat \<Rightarrow> stun_message \<Rightarrow> ice_channel \<Rightarrow> ice_channel option" where
  "on_connection_request_error_response i r msg w =
     do { (rtt, w) \<leftarrow> request_rtt i r w;
          code \<leftarrow> get_error_code_value msg;
          (if code = STUN_ERROR_UNAUTHORIZED \<or> code = STUN_ERROR_UNKNOWN_ATTRIBUTE \<or>
              code = STUN_ERROR_SERVER_ERROR
           then Some w else fail_and_destroy i w) }"

definition get_manager :: "nat \<Rightarrow> ice_channel \<Rightarrow> request_manager option" where
  "get_manager i w = map_option ic_requests (conn_at i w)"

definition put_manager :: "nat \<Rightarrow> request_manager \<Rightarrow> ice_channel \<Rightarrow> ice_channel" where
  "put_manager i rm w = (case conn_at i w of None \<Rightarrow> w | Some c \<Rightarrow> put_conn i (c\<lparr>ic_requests := rm\<rparr>) w)"

definition conn_check_response ::
    "rtcbase \<Rightarrow> nat \<Rightarrow> stun_message \<Rightarrow> ice_channel \<Rightarrow> (bool \<times> ice_channel) option" where
  "conn_check_response rt i msg w =
     check_response (get_manager i) (put_manager i) (on_connection_request_response rt i)
       (on_connection_request_error_response i) msg w"

definition conn_on_read_packet :: "rtcbase \<Rightarrow> nat \<Rightarrow> string \<Rightarrow> ice_channel \<Rightarrow> ice_channel option" where
  "conn_on_read_packet rt i buf w =
     do { c \<leftarrow> conn_at i w;
          p \<leftarrow> port_at (ic_port c) w;
          (ret, out, remote_ufrag, pkts) \<leftarrow> get_stun_message rt p buf (c_address (ic_remote c));
          (let w = send_packets (ic_port c) pkts w in
           if \<not> ret then Some (emit [ReadPacket buf] w)
           else case out of
             None \<Rightarrow> Some w
           | Some m \<Rightarrow>
               if m_type m = STUN_BINDING_REQUEST then
                 (if remote_ufrag \<noteq> c_username (ic_remote c)
                  then Some (send_packets (ic_port c)
                         (send_binding_error_response rt p (m_transaction_id m) (c_address (ic_remote c))
                            401 STUN_ERROR_REASON_UNAUTHORIZED) w)
                  else Some (send_packets (ic_port c) (handle_stun_binding_request rt p c m) w))
               else if m_type m = STUN_BINDING_RESPONSE \<or> m_type m = STUN_BINDING_ERROR_RESPONSE then
                 do { (st, m) \<leftarrow> validate_message_integrity rt (c_password (ic_remote c)) m;
                      (if integrity_ok m
                       then do { (b, w) \<leftarrow> conn_check_response rt i m w; Some w }
                       else Some w) }
               else Some w) }"

definition on_unknown_address ::
    "rtcbase \<Rightarrow> nat \<Rightarrow> socket_address \<Rightarrow> stun_message \<Rightarrow> string \<Rightarrow> ice_channel \<Rightarrow> ice_channel option" where
  "on_unknown_address rt pid addr msg remote_ufrag w =
     do { p \<leftarrow> port_at pid w;
          (case get_attribute msg STUN_ATTR_PRIORITY of
             Some (UInt32Attr t remote_priority) \<Rightarrow>
               (let remote_candidate =
                      \<lparr>c_component = ch_component w, c_protocol = ''udp'', c_address = addr, c_port = 0,
                       c_priority = remote_priority, c_username = remote_ufrag,
                       c_password = ice_pwd (ch_remote_params w), c_type = PRFLX_PORT_TYPE,
                       c_foundation = []\<rparr>;
                    i = ch_next w;
                    conn = ice_connection_new pid remote_candidate;
                    w = put_port pid (port_create_connection remote_candidate i p)
                          (put_conn i conn (w\<lparr>ch_next := Suc i\<rparr>));
                    w = channel_add_connection i w;
                    w = send_packets pid (handle_stun_binding_request rt p conn msg) w
                in sort_connections_and_update_state w)
           | _ \<Rightarrow> Some (send_packets pid (send_binding_error_response rt p (m_transaction_id msg) addr 400
                     STUN_ERROR_REASON_BAD_REQUEST) w)) }"

definition port_on_read_packet ::
    "rtcbase \<Rightarrow> nat \<Rightarrow> string \<Rightarrow> socket_address \<Rightarrow> ice_channel \<Rightarrow> ice_channel option" where
  "port_on_read_packet rt pid buf addr w =
     do { p \<leftarrow> port_at pid w;
          (case port_get_connection p addr of
             Some i \<Rightarrow> conn_on_read_packet rt i buf w
           | None \<Rightarrow>
               do { (ret, out, remote_ufrag, pkts) \<leftarrow> get_stun_message rt p buf addr;
                    (let w = send_packets pid pkts w in
                     case out of
                       None \<Rightarrow> Some w
                     | Some m \<Rightarrow>
                         if ret \<and> m_type m = STUN_BINDING_REQUEST
                         then on_unknown_address rt pid addr m remote_ufrag w else Some w) }) }"

section \<open>Parameters and gathering\<close>

definition set_ice_params :: "ice_parameters \<Rightarrow> ice_channel \<Rightarrow> ice_channel" where
  "set_ice_params params w = w\<lparr>ch_params := params\<rparr>"

primrec set_remote_params_of :: "ice_parameters \<Rightarrow> nat list \<Rightarrow> ice_channel \<Rightarrow> ice_channel option" where
  "set_remote_params_of params [] w = Some w"
| "set_remote_params_of params (i # is) w =
     do { c \<leftarrow> conn_at i w;
          set_remote_params_of params is (put_conn i (maybe_set_remote_ice_params params c) w) }"

definition set_remote_ice_params :: "ice_parameters \<Rightarrow> ice_channel \<Rightarrow> ice_channel option" where
  "set_remote_ice_params params w =
     do { w \<leftarrow> set_remote_params_of params (ctl_connections (ch_ctl w)) (w\<lparr>ch_remote_params := params\<rparr>);
          sort_connections_and_update_state w }"

text \<open>What the operating system does when a port is opened on a network address.\<close>

record port_os =
  po_socket :: sys_result
  po_getfl :: sys_result
  po_setfl :: "int \<Rightarrow> sys_result"
  po_bind :: "int \<Rightarrow> int"
  po_garbage :: int
  po_name :: "int \<Rightarrow> (u32 \<times> u16) option"

definition open_port ::
    "rtcbase \<Rightarrow> port_os \<Rightarrow> ip_address \<Rightarrow> int \<Rightarrow> int \<Rightarrow> udp_port \<Rightarrow> int \<times> candidate option \<times> udp_port" where
  "open_port rt os ip min_port max_port p =
     create_ice_candidate rt (po_socket os) (po_getfl os) (po_setfl os) (po_bind os) (po_garbage os)
       (po_name os) ip min_port max_port p"

primrec gather_ports ::
    "rtcbase \<Rightarrow> int \<Rightarrow> int \<Rightarrow> (ip_address \<times> port_os) list \<Rightarrow> ice_channel \<Rightarrow> ice_channel" where
  "gather_ports rt min_port max_port [] w = w"
| "gather_ports rt min_port max_port (net # nets) w =
     (let pid = ch_next w;
          (ret, c, p) = open_port rt (snd net) (fst net) min_port max_port
            (udp_port_new (ch_transport_name w) (ch_component w) (ch_params w));
          w = put_port pid p (w\<lparr>ch_next := Suc pid\<rparr>);
          w = (if ret \<noteq> 0 then w
               else w\<lparr>ch_local_candidates := ch_local_candidates w @ (case c of None \<Rightarrow> [] | Some c \<Rightarrow> [c])\<rparr>)
      in gather_ports rt min_port max_port nets w)"

definition channel_gathering_candidate ::
    "rtcbase \<Rightarrow> (ip_address \<times> port_os) list \<Rightarrow> int \<Rightarrow> int \<Rightarrow> ice_channel \<Rightarrow> ice_channel" where
  "channel_gathering_candidate rt network_list min_port max_port w =
     (if ice_ufrag (ch_params w) = [] \<or> ice_pwd (ch_params w) = [] then w
      else if network_list = [] then w
      else let w = gather_ports rt min_port max_port network_list w
           in emit [CandidateAllocateDone (ch_local_candidates w)] w)"


section \<open>Text form\<close>

definition channel_to_string :: "string \<Rightarrow> ice_channel \<Rightarrow> string" where
  "channel_to_string self ch =
     ''Channel['' @ self @ '':'' @ ch_transport_name ch @ '':'' @
     dec_digits (unat (component_id (ch_component ch))) @ '']''"

end
