(* ===== verification/Ice_Agent.thy ===== *)
theory Ice_Agent
  imports Ice_Channel
begin

text \<open>
  \<^verbatim>\<open>src/base/network.cpp\<close>, \<^verbatim>\<open>src/ice/port_allocator.cpp\<close> and \<^verbatim>\<open>src/ice/ice_agent.cpp\<close>: the network
  interfaces candidates are gathered on, the configured port range, and the agent that owns the ICE
  channels of one peer connection.  \<open>None\<close> is a fault.
\<close>

section \<open>Networks\<close>

record network =
  nw_name :: string
  nw_ip :: ip_address

text \<open>One entry of \<^verbatim>\<open>getifaddrs\<close>: the address pointer is null for an interface without address.\<close>

record if_addr =
  ifa_name :: string
  ifa_addr :: "ip_address option"

fun collect_networks :: "rtcbase \<Rightarrow> if_addr list \<Rightarrow> network list \<Rightarrow> network list option" where
  "collect_networks rt [] ns = Some ns"
| "collect_networks rt (i # is) ns =
     do { ip \<leftarrow> ifa_addr i;
          if ip_family ip \<noteq> AF_INET then collect_networks rt is ns
          else if IPIsLoopback rt ip then collect_networks rt is ns
          else collect_networks rt is (ns @ [\<lparr>nw_name = ifa_name i, nw_ip = ip\<rparr>]) }"

definition create_networks :: "rtcbase \<Rightarrow> if_addr list option \<Rightarrow> network list \<Rightarrow> (int \<times> network list) option" where
  "create_networks rt interfaces ns =
     (case interfaces of
        None \<Rightarrow> Some (-1, ns)
      | Some is \<Rightarrow> do { ns \<leftarrow> collect_networks rt is ns; Some (0, ns) })"

section \<open>Port range\<close>

record port_allocator =
  pa_networks :: "network list"
  pa_min_port :: int
  pa_max_port :: int

text \<open>The constructor ignores the result of \<^verbatim>\<open>create_networks\<close>.\<close>

definition port_allocator_new :: "rtcbase \<Rightarrow> if_addr list option \<Rightarrow> port_allocator option" where
  "port_allocator_new rt interfaces =
     do { (ret, ns) \<leftarrow> create_networks rt interfaces [];
          Some \<lparr>pa_networks = ns, pa_min_port = 0, pa_max_port = 0\<rparr> }"

definition set_port_range :: "int \<Rightarrow> int \<Rightarrow> port_allocator \<Rightarrow> port_allocator" where
  "set_port_range min_port max_port pa =
     (let pa = (if 0 < min_port then pa\<lparr>pa_min_port := min_port\<rparr> else pa)
      in if 0 < max_port \<and> min_port < max_port then pa\<lparr>pa_max_port := max_port\<rparr> else pa)"

section \<open>The agent\<close>

text \<open>
  What the agent meets: the library, the clock and the random ids of its channels, and what the
  system does when the channel of a name opens a port on an address.
\<close>

record agent_env =
  ae_rt :: rtcbase
  ae_clk :: "string \<Rightarrow> nat \<Rightarrow> int"
  ae_rnd :: "string \<Rightarrow> nat \<Rightarrow> string"
  ae_os :: "string \<Rightarrow> ip_address \<Rightarrow> port_os"

type_synonym ice_agent = "ice_channel list"

definition is_channel :: "string \<Rightarrow> ice_component \<Rightarrow> ice_channel \<Rightarrow> bool" where
  "is_channel name cmp w \<longleftrightarrow> name = ch_transport_name w \<and> cmp = ch_component w"

definition get_channel :: "string \<Rightarrow> ice_component \<Rightarrow> ice_agent \<Rightarrow> ice_channel option" where
  "get_channel name cmp ag = find (is_channel name cmp) ag"

definition create_channel :: "agent_env \<Rightarrow> string \<Rightarrow> ice_component \<Rightarrow> ice_agent \<Rightarrow> bool \<times> ice_agent" where
  "create_channel env name cmp ag =
     (if get_channel name cmp ag \<noteq> None then (True, ag)
      else (True, ag @ [ice_channel_new name cmp (ae_clk env name) (ae_rnd env name)]))"

text \<open>An operation on the channel that \<^verbatim>\<open>_get_channel\<close> finds: the first that matches.\<close>

fun on_channel ::
    "string \<Rightarrow> ice_component \<Rightarrow> (ice_channel \<Rightarrow> ice_channel option) \<Rightarrow> ice_agent \<Rightarrow> ice_agent option" where
  "on_channel name cmp f [] = Some []"
| "on_channel name cmp f (w # ws) =
     (if is_channel name cmp w then do { w \<leftarrow> f w; Some (w # ws) }
      else do { ws \<leftarrow> on_channel name cmp f ws; Some (w # ws) })"

definition agent_set_ice_params :: "string \<Rightarrow> ice_component \<Rightarrow> ice_parameters \<Rightarrow> ice_agent \<Rightarrow> ice_agent option" where
  "agent_set_ice_params name cmp params ag = on_channel name cmp (\<lambda>w. Some (set_ice_params params w)) ag"

definition agent_set_remote_ice_params :: "string \<Rightarrow> ice_component \<Rightarrow> ice_parameters \<Rightarrow> ice_agent \<Rightarrow> ice_agent option" where
  "agent_set_remote_ice_params name cmp params ag = on_channel name cmp (set_remote_ice_params params) ag"

text \<open>The \<^verbatim>\<open>signal_candidate_allocate_done\<close> signals a channel sends between two states.\<close>

definition allocate_signals :: "ice_channel \<Rightarrow> ice_channel \<Rightarrow> (string \<times> ice_component \<times> candidate list) list" where
  "allocate_signals w w' =
     List.map_filter
       (\<lambda>e. case e of CandidateAllocateDone cs \<Rightarrow> Some (ch_transport_name w', ch_component w', cs) | _ \<Rightarrow> None)
       (drop (length (ch_out w)) (ch_out w'))"

text \<open>\<^verbatim>\<open>gathering_candidate\<close>: the channels in order; what each signals goes on to the agent's owner.\<close>

fun agent_gathering ::
    "agent_env \<Rightarrow> port_allocator \<Rightarrow> ice_agent \<Rightarrow> ice_agent \<times> (string \<times> ice_component \<times> candidate list) list" where
  "agent_gathering env pa [] = ([], [])"
| "agent_gathering env pa (w # ws) =
     (let name = ch_transport_name w;
          nets = map (\<lambda>n. (nw_ip n, ae_os env name (nw_ip n))) (pa_networks pa);
          w' = channel_gathering_candidate (ae_rt env) nets (pa_min_port pa) (pa_max_port pa) w;
          (ws', sigs) = agent_gathering env pa ws
      in (w' # ws', allocate_signals w w' @ sigs))"

section \<open>Channels are created once and found again\<close>

definition agent_inv :: "ice_agent \<Rightarrow> bool" where
  "agent_inv ag \<longleftrightarrow> distinct (map (\<lambda>w. (ch_transport_name w, ch_component w)) ag)"

lemma get_channel_None: "get_channel name cmp ag = None \<longleftrightarrow> (name, cmp) \<notin> set (map (\<lambda>w. (ch_transport_name w, ch_component w)) ag)"
  by (auto simp: get_channel_def find_None_iff is_channel_def)

lemma create_channel_inv: "agent_inv ag \<Longrightarrow> agent_inv (snd (create_channel env name cmp ag))"
  by (auto simp: create_channel_def agent_inv_def get_channel_None ice_channel_new_def)

lemma get_created: "\<exists>w. get_channel name cmp (snd (create_channel env name cmp ag)) = Some w"
  by (cases "get_channel name cmp (snd (create_channel env name cmp ag))")
    (auto simp: get_channel_None create_channel_def ice_channel_new_def split: if_splits)

lemma on_channel_get:
  assumes "on_channel name cmp f ag = Some ag'"
    "\<And>w w'. f w = Some w' \<Longrightarrow> ch_transport_name w' = ch_transport_name w \<and> ch_component w' = ch_component w"
  shows "get_channel name' cmp' ag' =
    (if name' = name \<and> cmp' = cmp then Option.bind (get_channel name cmp ag) f else get_channel name' cmp' ag)"
  using assms(1)
proof (induction ag arbitrary: ag')
  case (Cons w ws)
  show ?case
  proof (cases "is_channel name cmp w")
    case True
    then obtain w' where "f w = Some w'" "ag' = w' # ws" using Cons.prems by (auto split: Option.bind_splits)
    with True assms(2) show ?thesis by (auto simp: get_channel_def is_channel_def)
  next
    case False
    then obtain ws' where ws': "on_channel name cmp f ws = Some ws'" "ag' = w # ws'"
      using Cons.prems by (auto split: Option.bind_splits)
    show ?thesis using False Cons.IH [OF ws'(1)] ws'(2) by (auto simp: get_channel_def is_channel_def)
  qed
qed (simp add: get_channel_def)

end
