(* ===== verification/Ice_Channel_Properties.thy ===== *)
theory Ice_Channel_Properties
  imports Ice_Channel
begin

text \<open>
  The invariant of a channel and its preservation by every event: the timer, packets, parameters.
  \<open>wired\<close> is the structure (no dangling pointer, one selected connection, known to both the channel and
  the controller), \<open>synced\<close> says that the channel's writable and receiving flags are what its connections
  say, \<open>timed\<close> that the ping timer runs at the interval the channel remembers.
\<close>

section \<open>The invariant\<close>

abbreviation conns_of :: "ice_channel \<Rightarrow> nat list" where
  "conns_of w \<equiv> ctl_connections (ch_ctl w)"

definition wired0 :: "ice_channel \<Rightarrow> bool" where
  "wired0 w \<longleftrightarrow> ctl_inv (ch_ctl w) \<and>
     dom (ih_conns (ch_heap w)) = set (conns_of w) \<and>
     heap_ok (ch_heap w) (set (conns_of w)) \<and>
     (\<forall>i c. conn_at i w = Some c \<longrightarrow> i < ch_next w) \<and>
     (\<forall>pid p. port_at pid w = Some p \<longrightarrow> pid < ch_next w \<and> (up_async p \<longrightarrow> up_candidates p \<noteq> []) \<and>
        (\<forall>a i. up_connections p a = Some i \<longrightarrow>
           (\<exists>c. conn_at i w = Some c \<and> ic_port c = pid \<and> c_address (ic_remote c) = a)))"

definition wired :: "ice_channel \<Rightarrow> bool" where
  "wired w \<longleftrightarrow> wired0 w \<and> ch_selected w = ctl_selected (ch_ctl w) \<and>
     (\<forall>i c. conn_at i w = Some c \<longrightarrow> (ic_selected c \<longleftrightarrow> ch_selected w = Some i))"

definition synced :: "ice_channel \<Rightarrow> bool" where
  "synced w \<longleftrightarrow>
     (ch_writable w \<longleftrightarrow> (\<exists>i c. ch_selected w = Some i \<and> conn_at i w = Some c \<and> writable c)) \<and>
     (ch_receiving w \<longleftrightarrow> (\<exists>i c. i \<in> set (conns_of w) \<and> conn_at i w = Some c \<and> ic_receiving c))"

fun is_timer :: "channel_event \<Rightarrow> bool" where
  "is_timer (StartTimer i) = True"
| "is_timer StopTimer = True"
| "is_timer _ = False"

definition timed :: "ice_channel \<Rightarrow> bool" where
  "timed w \<longleftrightarrow> ch_start_pinging w \<longrightarrow>
     (\<exists>es. filter is_timer (ch_out w) = es @ [StartTimer (ch_cur_ping_interval w * 1000)])"

definition channel_inv :: "ice_channel \<Rightarrow> bool" where
  "channel_inv w \<longleftrightarrow> wired w \<and> synced w \<and> timed w"

lemma channel_inv_new: "channel_inv (ice_channel_new name cmp clk rnd)"
  by (simp add: channel_inv_def wired_def wired0_def synced_def timed_def ice_channel_new_def heap_ok_def
      conn_at_def port_at_def) (simp add: ice_controller_new_def)

lemma wired0D:
  assumes "wired0 w"
  shows "ctl_inv (ch_ctl w)" "heap_ok (ch_heap w) (set (conns_of w))"
    "i \<in> set (conns_of w) \<longleftrightarrow> (\<exists>c. conn_at i w = Some c)"
    "conn_at i w = Some c \<Longrightarrow> i < ch_next w"
    "port_at pid w = Some p \<Longrightarrow> pid < ch_next w \<and> (up_async p \<longrightarrow> up_candidates p \<noteq> [])"
    "port_at pid w = Some p \<Longrightarrow> up_connections p a = Some i \<Longrightarrow>
       \<exists>c. conn_at i w = Some c \<and> ic_port c = pid \<and> c_address (ic_remote c) = a"
  using assms unfolding wired0_def conn_at_def by (auto simp: domI dom_def)

lemma wired0I:
  assumes "ctl_inv (ch_ctl w)" "heap_ok (ch_heap w) (set (conns_of w))"
    "\<And>i. i \<in> set (conns_of w) \<longleftrightarrow> (\<exists>c. conn_at i w = Some c)"
    "\<And>i c. conn_at i w = Some c \<Longrightarrow> i < ch_next w"
    "\<And>pid p. port_at pid w = Some p \<Longrightarrow> pid < ch_next w \<and> (up_async p \<longrightarrow> up_candidates p \<noteq> [])"
    "\<And>pid p a i. port_at pid w = Some p \<Longrightarrow> up_connections p a = Some i \<Longrightarrow>
       \<exists>c. conn_at i w = Some c \<and> ic_port c = pid \<and> c_address (ic_remote c) = a"
  shows "wired0 w"
proof -
  have "dom (ih_conns (ch_heap w)) = set (conns_of w)"
    using assms(3) by (auto simp: dom_def conn_at_def)
  then show ?thesis unfolding wired0_def using assms by blast
qed

lemma wiredD:
  assumes "wired w"
  shows "ctl_inv (ch_ctl w)" "ch_selected w = ctl_selected (ch_ctl w)"
    "heap_ok (ch_heap w) (set (conns_of w))"
    "i \<in> set (conns_of w) \<longleftrightarrow> (\<exists>c. conn_at i w = Some c)"
    "wired0 w" "conn_at i w = Some c \<Longrightarrow> ic_selected c \<longleftrightarrow> ch_selected w = Some i"
  using assms wired0D [of w] unfolding wired_def by auto

lemma wired_conn:
  assumes "wired w" "i \<in> set (conns_of w)"
  obtains c p where "conn_at i w = Some c" "port_at (ic_port c) w = Some p" "up_candidates p \<noteq> []"
  using wiredD(3) [OF assms(1)] assms(2) unfolding heap_ok_def conn_at_def port_at_def by blast

lemma wired_selected: "wired w \<Longrightarrow> ch_selected w = Some i \<Longrightarrow> i \<in> set (conns_of w)"
  using wiredD(1,2) by (fastforce simp: ctl_inv_def)

section \<open>Steps that do not touch the structure\<close>

lemmas access_defs = emit_def send_packets_def time_millis_def create_random_id_def set_writable_def
  set_receiving_def conn_at_def port_at_def

lemma wired_cong:
  "ch_heap w' = ch_heap w \<Longrightarrow> ch_ctl w' = ch_ctl w \<Longrightarrow> ch_next w' = ch_next w \<Longrightarrow>
     ch_selected w' = ch_selected w \<Longrightarrow> wired w' = wired w"
  by (simp add: wired_def wired0_def conn_at_def port_at_def)

lemma synced_cong:
  "ch_heap w' = ch_heap w \<Longrightarrow> ch_ctl w' = ch_ctl w \<Longrightarrow> ch_writable w' = ch_writable w \<Longrightarrow>
     ch_receiving w' = ch_receiving w \<Longrightarrow> ch_selected w' = ch_selected w \<Longrightarrow> synced w' = synced w"
  by (simp add: synced_def conn_at_def)

lemma timed_emit: "\<forall>e \<in> set es. \<not> is_timer e \<Longrightarrow> timed (emit es w) = timed w"
  by (simp add: timed_def emit_def filter_False)

lemma inv_emit [simp]:
  "wired (emit es w) = wired w" "synced (emit es w) = synced w"
  by (simp_all add: wired_def wired0_def synced_def emit_def conn_at_def port_at_def)

lemma inv_send [simp]:
  "wired (send_packets pid pkts w) = wired w" "synced (send_packets pid pkts w) = synced w"
  "timed (send_packets pid pkts w) = timed w" "conn_at i (send_packets pid pkts w) = conn_at i w"
  by (auto simp: send_packets_def timed_emit) (simp add: emit_def conn_at_def)

lemma inv_ticks [simp]:
  "wired (w\<lparr>ch_ticks := n\<rparr>) = wired w" "synced (w\<lparr>ch_ticks := n\<rparr>) = synced w" "timed (w\<lparr>ch_ticks := n\<rparr>) = timed w"
  "wired (w\<lparr>ch_rnds := n\<rparr>) = wired w" "synced (w\<lparr>ch_rnds := n\<rparr>) = synced w" "timed (w\<lparr>ch_rnds := n\<rparr>) = timed w"
  "wired (w\<lparr>ch_last_ping_sent_ms := t\<rparr>) = wired w" "synced (w\<lparr>ch_last_ping_sent_ms := t\<rparr>) = synced w"
  "timed (w\<lparr>ch_last_ping_sent_ms := t\<rparr>) = timed w"
  by (simp_all add: wired_def wired0_def synced_def timed_def conn_at_def port_at_def)

lemma timed_heap [simp]: "timed (w\<lparr>ch_heap := h\<rparr>) = timed w" "timed (w\<lparr>ch_ctl := ctl\<rparr>) = timed w"
  "timed (w\<lparr>ch_selected := s\<rparr>) = timed w" "timed (w\<lparr>ch_next := n\<rparr>) = timed w"
  by (simp_all add: timed_def)

text \<open>Replacing a connection by one on the same port, with the same remote address and selection.\<close>

lemma conn_at_put [simp]: "conn_at j (put_conn i c w) = (if j = i then Some c else conn_at j w)"
  by (simp add: conn_at_def put_conn_def)

lemma put_conn_frame [simp]:
  "ch_ctl (put_conn i c w) = ch_ctl w" "port_at pid (put_conn i c w) = port_at pid w"
  "ch_selected (put_conn i c w) = ch_selected w" "ch_next (put_conn i c w) = ch_next w"
  "ch_writable (put_conn i c w) = ch_writable w" "ch_receiving (put_conn i c w) = ch_receiving w"
  "timed (put_conn i c w) = timed w" "ch_remote_params (put_conn i c w) = ch_remote_params w"
  by (simp_all add: put_conn_def port_at_def)

lemma heap_ok_put:
  assumes "heap_ok (ch_heap w) A" "conn_at i w = Some c" "ic_port c' = ic_port c"
  shows "heap_ok (ch_heap (put_conn i c' w)) A"
  using assms unfolding heap_ok_def put_conn_def conn_at_def by fastforce

lemma wired0_put:
  assumes w: "wired0 w" and c: "conn_at i w = Some c"
    and eq: "ic_port c' = ic_port c" "c_address (ic_remote c') = c_address (ic_remote c)"
  shows "wired0 (put_conn i c' w)"
proof (rule wired0I)
  show "heap_ok (ch_heap (put_conn i c' w)) (set (conns_of (put_conn i c' w)))"
    using heap_ok_put [OF wired0D(2) [OF w] c eq(1)] by simp
next
  fix pid p a j assume "port_at pid (put_conn i c' w) = Some p" "up_connections p a = Some j"
  then obtain d where "conn_at j w = Some d" "ic_port d = pid" "c_address (ic_remote d) = a"
    using wired0D(6) [OF w] by (metis put_conn_frame(2))
  then show "\<exists>d. conn_at j (put_conn i c' w) = Some d \<and> ic_port d = pid \<and> c_address (ic_remote d) = a"
    using c eq by auto
qed (use wired0D(1,3,4,5) [OF w] c in \<open>auto split: if_splits\<close>)

lemma wired_put:
  assumes "wired w" "conn_at i w = Some c"
    and "ic_port c' = ic_port c" "c_address (ic_remote c') = c_address (ic_remote c)"
      "ic_selected c' = ic_selected c"
  shows "wired (put_conn i c' w)"
  using wired0_put [OF wiredD(5) [OF assms(1)] assms(2-4)] assms(1,2,5)
  unfolding wired_def by auto

section \<open>Sorting, switching, updating\<close>

lemma switch_wired:
  assumes w: "wired w" and j: "j \<in> set (conns_of w)"
  shows "\<exists>w'. switch_selected_connection (Some j) w = Some w' \<and> wired w' \<and>
    set (conns_of w') = set (conns_of w) \<and> timed w' = timed w"
proof -
  obtain d where d: "conn_at j w = Some d" using wiredD(4) [OF w] j by blast
  define w1 where "w1 = w\<lparr>ch_selected := Some j\<rparr>"
  have w1: "wired0 w1" "conn_at i w1 = conn_at i w" "ch_ctl w1 = ch_ctl w" for i
    using wiredD(5) [OF w] by (simp_all add: w1_def wired0_def conn_at_def port_at_def)
  define w2 where "w2 = (case ch_selected w of None \<Rightarrow> w1
     | Some i \<Rightarrow> put_conn i ((the (conn_at i w))\<lparr>ic_selected := False\<rparr>) w1)"
  have sel: "\<exists>c. conn_at i w = Some c" if "ch_selected w = Some i" for i
    using wired_selected [OF w that] wiredD(4) [OF w] by blast
  have w2: "wired0 w2" "ch_ctl w2 = ch_ctl w" "timed w2 = timed w" "ch_selected w2 = Some j"
    using w1 sel wired0_put [OF w1(1)] by (auto simp: w2_def w1_def split: option.split)
  have none: "\<not> ic_selected c" if "conn_at i w2 = Some c" for i c
    using that wiredD(6) [OF w] sel
    by (auto simp: w2_def w1(2) split: option.splits if_splits)
  obtain c where c: "conn_at j w2 = Some c" "ic_port c = ic_port d" "c_address (ic_remote c) = c_address (ic_remote d)"
  proof (cases "ch_selected w")
    case None
    then show ?thesis using d by (intro that [of d]) (simp_all add: w2_def w1(2))
  next
    case (Some i)
    then show ?thesis
      using d by (intro that [of "if j = i then d\<lparr>ic_selected := False\<rparr> else d"]) (auto simp: w2_def w1(2))
  qed
  define w3 where "w3 = put_conn j (c\<lparr>ic_selected := True\<rparr>) w2"
  define w' where "w' = w3\<lparr>ch_ctl := (ch_ctl w3)\<lparr>ctl_selected := Some j\<rparr>\<rparr>"
  have "switch_selected_connection (Some j) w = Some w'"
    using d sel c(1)
    by (auto simp: switch_selected_connection_def Let_def w1_def [symmetric] w1(2) w2_def w3_def w'_def
        split: option.split)
  moreover have "wired0 w'"
  proof -
    have "wired0 w3" unfolding w3_def by (rule wired0_put [OF w2(1) c(1)]) simp_all
    then show ?thesis
      using j w2(2) unfolding w'_def wired0_def conn_at_def port_at_def by (auto simp: ctl_inv_def w3_def)
  qed
  moreover have "ch_selected w' = ctl_selected (ch_ctl w')" "set (conns_of w') = set (conns_of w)" "timed w' = timed w"
    using w2 by (simp_all add: w'_def w3_def)
  moreover have "ic_selected e \<longleftrightarrow> ch_selected w' = Some i" if "conn_at i w' = Some e" for i e
    using that none w2(4) by (auto simp: w'_def w3_def conn_at_def put_conn_def split: if_splits)
  ultimately show ?thesis unfolding wired_def by blast
qed

lemma any_receiving_spec:
  "heap_ok h (set is) \<Longrightarrow>
     any_receiving h is = Some (\<exists>i \<in> set is. ic_receiving (the (ih_conns h i)))"
proof (induction "is")
  case (Cons i "is")
  then obtain c where "ih_conns h i = Some c" using heap_ok_conn [of h "set (i # is)" i] by auto
  with Cons show ?case by (auto simp: heap_ok_def)
qed simp

lemma update_wired:
  assumes w: "wired w"
  shows "\<exists>w'. channel_update_state w = Some w' \<and> wired w' \<and> synced w' \<and>
    ch_ctl w' = ch_ctl w \<and> timed w' = timed w"
proof -
  define b where "b \<longleftrightarrow> (\<exists>i c. ch_selected w = Some i \<and> conn_at i w = Some c \<and> writable c)"
  have "(case ch_selected w of None \<Rightarrow> Some False
      | Some i \<Rightarrow> do { c \<leftarrow> conn_at i w; Some (writable c) }) = Some b"
    using wired_selected [OF w] wiredD(4) [OF w] by (auto simp: b_def split: option.split)
  define r where "r \<longleftrightarrow> (\<exists>i \<in> set (conns_of w). ic_receiving (the (ih_conns (ch_heap w) i)))"
  have "ch_heap (set_writable b w) = ch_heap w" "ch_ctl (set_writable b w) = ch_ctl w"
    by (simp_all add: set_writable_def emit_def)
  then have "channel_update_state w = Some (set_receiving r (set_writable b w))"
    using \<open>_ = Some b\<close> any_receiving_spec [OF wiredD(3) [OF w]]
    by (simp add: channel_update_state_def r_def)
  moreover have "wired (set_receiving r (set_writable b w))"
    by (rule wired_cong [THEN iffD2, OF _ _ _ _ w]) (simp_all add: set_receiving_def set_writable_def emit_def)
  moreover have "synced (set_receiving r (set_writable b w))"
  proof -
    have r: "r \<longleftrightarrow> (\<exists>i c. i \<in> set (conns_of w) \<and> conn_at i w = Some c \<and> ic_receiving c)"
      using wiredD(4) [OF w] by (force simp: r_def conn_at_def)
    have "ch_writable (set_receiving r (set_writable b w)) = b" "ch_receiving (set_receiving r (set_writable b w)) = r"
      by (simp_all add: set_receiving_def set_writable_def emit_def)
    then show ?thesis
      unfolding synced_def using r b_def
      by (simp add: set_receiving_def set_writable_def emit_def conn_at_def)
  qed
  moreover have "timed (set_receiving r (set_writable b w)) = timed w"
    by (simp add: timed_def set_receiving_def set_writable_def emit_def)
  moreover have "ch_ctl (set_receiving r (set_writable b w)) = ch_ctl w"
    by (simp add: set_receiving_def set_writable_def emit_def)
  ultimately show ?thesis by blast
qed

lemma start_pinging_inv:
  assumes "channel_inv w"
  shows "\<exists>w'. maybe_start_pinging w = Some w' \<and> channel_inv w' \<and> ch_ctl w' = ch_ctl w"
proof (cases "ch_start_pinging w")
  case False
  have w: "wired w" using assms by (simp add: channel_inv_def)
  define now where "now = ch_clk w (ch_ticks w)"
  define w1 where "w1 = w\<lparr>ch_ticks := Suc (ch_ticks w)\<rparr>"
  have w1: "channel_inv w1" "ch_ctl w1 = ch_ctl w" "ch_heap w1 = ch_heap w"
    using assms by (simp_all add: channel_inv_def w1_def)
  obtain b where b: "has_pingable_connection (ch_heap w) (ch_ctl w) now = Some b"
    using live_any_pingable [OF wiredD(3) [OF w], of "ch_ctl w" "conns_of w" now] wiredD(1) [OF w]
    by (auto simp: has_pingable_connection_def ctl_inv_def)
  define w2 where "w2 = emit [StartTimer (ch_cur_ping_interval w1 * 1000)] (w1\<lparr>ch_start_pinging := True\<rparr>)"
  have "channel_inv w2"
    using w1(1) by (simp add: channel_inv_def w2_def wired_def wired0_def synced_def timed_def conn_at_def port_at_def emit_def)
  moreover have "ch_ctl w2 = ch_ctl w" by (simp add: w2_def w1_def emit_def)
  moreover have "maybe_start_pinging w = Some (if b then w2 else w1)"
    using b False by (simp add: maybe_start_pinging_def time_millis_def w1_def [symmetric] now_def w1(2,3) w2_def)
  ultimately show ?thesis using w1 by auto
qed (use assms in \<open>simp add: maybe_start_pinging_def\<close>)

lemma sort_inv:
  assumes w: "wired w" and t: "timed w"
  shows "\<exists>w'. sort_connections_and_update_state w = Some w' \<and> channel_inv w' \<and>
    set (conns_of w') = set (conns_of w)"
proof -
  have sel: "\<forall>s. ctl_selected (ch_ctl w) = Some s \<longrightarrow> s \<in> set (conns_of w)"
    using wiredD(1) [OF w] by (simp add: ctl_inv_def)
  obtain sw ctl where s: "sort_and_switch_connection (ch_heap w) (ch_ctl w) = Some (sw, ctl)"
    using live_sort [OF wiredD(3) [OF w] sel] by auto
  note best = sort_and_switch_cases [OF s]
  define w1 where "w1 = w\<lparr>ch_ctl := ctl\<rparr>"
  have cs: "set (ctl_connections ctl) = set (conns_of w)" "distinct (ctl_connections ctl)"
    "ctl = (ch_ctl w)\<lparr>ctl_connections := ctl_connections ctl\<rparr>"
    using best wiredD(1) [OF w] by (auto simp: ctl_inv_def dest: mset_eq_setD mset_eq_imp_distinct_iff)
  have ci: "ctl_inv ctl" using wiredD(1) [OF w] cs by (metis (no_types, lifting) ctl_inv_def
      ice_controller.select_convs(1,3,4) ice_controller.simps(1) ice_controller.update_convs(2) ice_controller.surjective)
  have w1: "wired w1" "timed w1" "set (conns_of w1) = set (conns_of w)"
    using w t cs ci unfolding w1_def wired_def wired0_def conn_at_def port_at_def
    by simp_all (metis ice_controller.select_convs(1) ice_controller.surjective ice_controller.update_convs(2))
  have "\<exists>w2. maybe_switch_selected_connection sw w1 = Some w2 \<and> wired w2 \<and> timed w2 \<and>
      set (conns_of w2) = set (conns_of w)"
  proof (cases sw)
    case (Some j)
    then have "j \<in> set (conns_of w1)" using best w1(3) by auto
    from switch_wired [OF w1(1) this] w1 Some show ?thesis
      by (auto simp: maybe_switch_selected_connection_def)
  qed (use w1 in \<open>simp add: maybe_switch_selected_connection_def\<close>)
  then obtain w2 where w2: "maybe_switch_selected_connection sw w1 = Some w2" "wired w2" "timed w2"
    "set (conns_of w2) = set (conns_of w)" by blast
  obtain w3 where w3: "channel_update_state w2 = Some w3" "channel_inv w3" "ch_ctl w3 = ch_ctl w2"
    using update_wired [OF w2(2)] w2(3) by (auto simp: channel_inv_def)
  obtain w4 where "maybe_start_pinging w3 = Some w4" "channel_inv w4" "ch_ctl w4 = ch_ctl w3"
    using start_pinging_inv [OF w3(2)] by blast
  then show ?thesis
    using s w2 w3 by (simp add: sort_connections_and_update_state_def w1_def [symmetric])
qed

section \<open>Operations on a connection\<close>

text \<open>An operation keeps the pair's identity, and signals when it changes what the channel reads.\<close>

definition op_ok :: "conn_op \<Rightarrow> bool" where
  "op_ok op \<longleftrightarrow> (\<forall>c. ic_port (fst (op c)) = ic_port c \<and> ic_remote (fst (op c)) = ic_remote c \<and>
     ic_selected (fst (op c)) = ic_selected c \<and>
     (\<not> snd (op c) \<longrightarrow> ic_write_state (fst (op c)) = ic_write_state c \<and>
        ic_receiving (fst (op c)) = ic_receiving c))"

lemma op_ok_intros [simp]:
  "op_ok (update_unreliable rtt now)" "op_ok (update_timeout now)" "op_ok (update_receiving now)"
  "op_ok (set_write_state st)" "op_ok (\<lambda>c. (record_response rt rtt now c, False))"
  "op_ok (\<lambda>c. (set_state ps c, False))"
  by (simp_all add: op_ok_def update_unreliable_def update_timeout_def update_receiving_def
      set_write_state_def record_response_def set_state_def Let_def)

lemma synced_put:
  assumes "synced w" "conn_at i w = Some c" "ic_write_state c' = ic_write_state c" "ic_receiving c' = ic_receiving c"
  shows "synced (put_conn i c' w)"
  using assms unfolding synced_def by (auto simp: writable_def)

lemma apply_op_inv:
  assumes inv: "channel_inv w" and i: "i \<in> set (conns_of w)" and op: "op_ok op"
  shows "\<exists>w'. apply_conn_op op i w = Some w' \<and> channel_inv w' \<and> set (conns_of w') = set (conns_of w)"
proof -
  have w: "wired w" "synced w" "timed w" using inv by (simp_all add: channel_inv_def)
  obtain c where c: "conn_at i w = Some c" using wiredD(4) [OF w(1)] i by blast
  obtain c' sig where oc: "op c = (c', sig)" by (cases "op c")
  have eq: "ic_port c' = ic_port c" "ic_remote c' = ic_remote c" "ic_selected c' = ic_selected c"
    "\<not> sig \<Longrightarrow> ic_write_state c' = ic_write_state c \<and> ic_receiving c' = ic_receiving c"
    using op oc unfolding op_ok_def by (metis fst_conv snd_conv)+
  have w1: "wired (put_conn i c' w)" "timed (put_conn i c' w)"
    using wired_put [OF w(1) c eq(1) _ eq(3)] eq(2) w(3) by simp_all
  show ?thesis
  proof (cases sig)
    case True
    then show ?thesis
      using sort_inv [OF w1] c oc by (auto simp: apply_conn_op_def on_connection_state_change_def)
  next
    case False
    then show ?thesis
      using w1 c oc synced_put [OF w(2) c] eq(4) by (auto simp: apply_conn_op_def channel_inv_def)
  qed
qed

lemma apply_ops_inv:
  "channel_inv w \<Longrightarrow> i \<in> set (conns_of w) \<Longrightarrow> \<forall>op \<in> set ops. op_ok op \<Longrightarrow>
     \<exists>w'. apply_conn_ops ops i w = Some w' \<and> channel_inv w' \<and> set (conns_of w') = set (conns_of w)"
proof (induction ops arbitrary: w)
  case (Cons op ops)
  obtain w1 where "apply_conn_op op i w = Some w1" "channel_inv w1" "set (conns_of w1) = set (conns_of w)"
    using apply_op_inv [of w i op] Cons.prems by auto
  with Cons.IH [of w1] Cons.prems show ?case by auto
qed simp

lemma conn_update_inv:
  assumes "channel_inv w" "i \<in> set (conns_of w)"
  shows "\<exists>w'. conn_update_state now i w = Some w' \<and> channel_inv w' \<and> set (conns_of w') = set (conns_of w)"
proof -
  obtain c where "conn_at i w = Some c"
    using assms wiredD(4) [of w i] by (auto simp: channel_inv_def)
  then show ?thesis
    using apply_ops_inv [OF assms, of "update_state_ops c now"] by (simp add: conn_update_state_def update_state_ops_def)
qed

lemma update_connections_inv:
  "channel_inv w \<Longrightarrow> set is \<subseteq> set (conns_of w) \<Longrightarrow>
     \<exists>w'. update_connections now is w = Some w' \<and> channel_inv w' \<and> set (conns_of w') = set (conns_of w)"
proof (induction "is" arbitrary: w)
  case (Cons i "is")
  obtain w1 where "conn_update_state now i w = Some w1" "channel_inv w1" "set (conns_of w1) = set (conns_of w)"
    using conn_update_inv [of w i now] Cons.prems by auto
  with Cons.IH [of w1] Cons.prems show ?case by auto
qed simp

lemma inv_clock [simp]: "channel_inv (w\<lparr>ch_ticks := n\<rparr>) = channel_inv w"
  "channel_inv (w\<lparr>ch_rnds := n\<rparr>) = channel_inv w"
  "channel_inv (w\<lparr>ch_last_ping_sent_ms := t\<rparr>) = channel_inv w"
  "channel_inv (send_packets pid pkts w) = channel_inv w"
  by (simp_all add: channel_inv_def)

lemma put_conn_inv:
  assumes "channel_inv w" "conn_at i w = Some c"
    and "ic_port c' = ic_port c" "c_address (ic_remote c') = c_address (ic_remote c)"
      "ic_selected c' = ic_selected c" "ic_write_state c' = ic_write_state c" "ic_receiving c' = ic_receiving c"
  shows "channel_inv (put_conn i c' w)"
  using assms wired_put [of w i c c'] synced_put [of w i c c'] by (simp add: channel_inv_def)

section \<open>The timer\<close>

lemma conn_ping_returns:
  assumes "local_candidate p = Some lc"
  shows "\<exists>c' pkts. conn_ping rt p tid now ts c = Some (c', pkts)"
proof -
  obtain r rm where r: "request_new tid stun_message_new (ic_requests c) = (r, rm)"
    by (cases "request_new tid stun_message_new (ic_requests c)")
  then obtain rq where "rm_heap rm r = Some rq" by (auto simp: request_new_def Let_def)
  then have "\<exists>x. manager_send rt prep ts r rm = Some x" for prep
    by (simp add: manager_send_def Let_def split: prod.split)
  then obtain pkt rm2 where "manager_send rt (connection_request_prepare rt p (c_priority lc) (ic_remote c)) ts r rm
      = Some (pkt, rm2)" by (metis prod.exhaust)
  then show ?thesis using assms r by (simp add: conn_ping_def Let_def)
qed

lemma ping_inv:
  assumes inv: "channel_inv w" and i: "i \<in> set (conns_of w)"
  shows "\<exists>w'. ping_connection rt i w = Some w' \<and> channel_inv w' \<and> ch_ctl w' = ch_ctl w \<and>
    ch_cur_ping_interval w' = ch_cur_ping_interval w"
proof -
  define now where "now = ch_clk w (ch_ticks w)"
  define tid where "tid = ch_rnd w (ch_rnds w)"
  define w1 where "w1 = w\<lparr>ch_last_ping_sent_ms := now, ch_rnds := Suc (ch_rnds w), ch_ticks := Suc (Suc (ch_ticks w))\<rparr>"
  define ts where "ts = ch_clk w (Suc (ch_ticks w))"
  have w1: "channel_inv w1" "ch_ctl w1 = ch_ctl w"
    using inv by (simp_all add: w1_def)
  obtain c p where c: "conn_at i w1 = Some c" "port_at (ic_port c) w1 = Some p" "up_candidates p \<noteq> []"
    using wired_conn [of w1 i] w1 i by (metis channel_inv_def)
  then obtain lc where "local_candidate p = Some lc" by (simp add: local_candidate_def)
  then obtain c' pkts where cp: "conn_ping rt p tid now ts c = Some (c', pkts)"
    using conn_ping_returns by blast
  note f = conn_ping_frame [OF cp]
  have "ping_connection rt i w = Some (send_packets (ic_port c) pkts (put_conn i c' w1))"
    using c cp by (simp add: ping_connection_def time_millis_def create_random_id_def Let_def w1_def now_def
        tid_def ts_def)
  moreover have "channel_inv (put_conn i c' w1)"
    by (rule put_conn_inv [OF w1(1) c(1)]) (simp_all add: f)
  moreover have "ch_ctl (send_packets (ic_port c) pkts (put_conn i c' w1)) = ch_ctl w"
    "ch_cur_ping_interval (send_packets (ic_port c) pkts (put_conn i c' w1)) = ch_cur_ping_interval w"
    by (simp_all add: w1_def send_packets_def emit_def put_conn_def)
  ultimately show ?thesis by simp
qed

lemma ctl_swap_inv:
  "channel_inv w \<Longrightarrow> ctl_inv ctl \<Longrightarrow> ctl_connections ctl = conns_of w \<Longrightarrow>
     ctl_selected ctl = ctl_selected (ch_ctl w) \<Longrightarrow> channel_inv (w\<lparr>ch_ctl := ctl\<rparr>)"
  by (simp add: channel_inv_def wired_def wired0_def synced_def timed_def conn_at_def port_at_def)

lemma find_ping_ctl:
  assumes "channel_inv w"
    and "selected_connection_to_ping (ch_heap w) (ch_ctl w) lst now = Some (conn, iv, ctl)"
  shows "channel_inv (w\<lparr>ch_ctl := ctl\<rparr>) \<and> (\<forall>i. conn = Some i \<longrightarrow> i \<in> set (ctl_connections ctl))"
proof -
  have ci: "ctl_inv (ch_ctl w)" using assms(1) wiredD(1) by (simp add: channel_inv_def)
  have "ctl_inv ctl \<and> (\<forall>i. conn = Some i \<longrightarrow> i \<in> set (ctl_connections ctl)) \<and>
      ctl_connections ctl = conns_of w \<and> ctl_selected ctl = ctl_selected (ch_ctl w)"
  proof -
    have "find_next_pingable_connection (ch_heap w) (ch_ctl w) now = Some (conn, ctl) \<or>
        conn = None \<and> ctl = ch_ctl w"
      using assms(2) by (auto simp: selected_connection_to_ping_def Let_def split: Option.bind_splits if_splits)
    then show ?thesis
    proof
      assume "find_next_pingable_connection (ch_heap w) (ch_ctl w) now = Some (conn, ctl)"
      from ctl_inv_find_next [OF ci this] show ?thesis by auto
    qed (use ci in simp)
  qed
  then show ?thesis using ctl_swap_inv [OF assms(1), of ctl] by auto
qed

lemma mark_inv:
  assumes "channel_inv w" "i \<in> set (conns_of w)"
  shows "channel_inv (w\<lparr>ch_ctl := mark_connection_pinged i (ch_ctl w)\<rparr>)"
proof -
  have "ctl_inv (mark_connection_pinged i (ch_ctl w))"
    using ctl_inv_mark [OF _ assms(2)] assms(1) wiredD(1) by (simp add: channel_inv_def)
  moreover have "ctl_connections (mark_connection_pinged i (ch_ctl w)) = conns_of w"
    "ctl_selected (mark_connection_pinged i (ch_ctl w)) = ctl_selected (ch_ctl w)"
    by (simp_all add: mark_connection_pinged_def)
  ultimately show ?thesis using ctl_swap_inv [OF assms(1)] by blast
qed

lemma interval_inv:
  "channel_inv w \<Longrightarrow>
     channel_inv (emit [StopTimer, StartTimer (iv * 1000)] (w\<lparr>ch_cur_ping_interval := iv\<rparr>))"
  by (simp add: channel_inv_def wired_def wired0_def synced_def timed_def conn_at_def port_at_def emit_def)

lemma timer_inv:
  assumes "channel_inv w"
  shows "\<exists>w'. on_check_and_ping rt w = Some w' \<and> channel_inv w'"
proof -
  obtain w1 where w1: "update_connection_state w = Some w1" "channel_inv w1"
    using update_connections_inv [of "w\<lparr>ch_ticks := Suc (ch_ticks w)\<rparr>" "conns_of w"] assms
    by (auto simp: update_connection_state_def time_millis_def)
  define w2 where "w2 = w1\<lparr>ch_ticks := Suc (ch_ticks w1)\<rparr>"
  have w2: "channel_inv w2" "wired w2" using w1(2) by (simp_all add: w2_def channel_inv_def)
  obtain conn iv ctl where s2: "selected_connection_to_ping (ch_heap w2) (ch_ctl w2)
      (ch_last_ping_sent_ms w2 - 5) (ch_clk w1 (ch_ticks w1)) = Some (conn, iv, ctl)"
    using live_to_ping [OF wiredD(3,1) [OF w2(2)]] by (metis prod_cases3)
  then have s: "selected_connection_to_ping (ch_heap w1) (ch_ctl w1)
      (ch_last_ping_sent_ms w1 - 5) (ch_clk w1 (ch_ticks w1)) = Some (conn, iv, ctl)"
    by (simp add: w2_def)
  define w3 where "w3 = w1\<lparr>ch_ticks := Suc (ch_ticks w1), ch_ctl := ctl\<rparr>"
  have w3: "channel_inv w3 \<and> (\<forall>i. conn = Some i \<longrightarrow> i \<in> set (ctl_connections ctl))"
    using find_ping_ctl [OF w2(1) s2] by (simp add: w3_def w2_def)
  have "\<exists>w4. (case conn of None \<Rightarrow> Some w3
      | Some i \<Rightarrow> do { w \<leftarrow> ping_connection rt i w3; Some (w\<lparr>ch_ctl := mark_connection_pinged i (ch_ctl w)\<rparr>) }) = Some w4 \<and>
      channel_inv w4"
  proof (cases conn)
    case (Some i)
    then have i: "channel_inv w3" "i \<in> set (conns_of w3)" using w3 by (simp_all add: w3_def)
    from ping_inv [OF this, of rt] mark_inv i(2) Some show ?thesis by fastforce
  qed (use w3 in \<open>simp add: w3_def\<close>)
  then obtain w4 where w4: "(case conn of None \<Rightarrow> Some w3
      | Some i \<Rightarrow> do { w \<leftarrow> ping_connection rt i w3; Some (w\<lparr>ch_ctl := mark_connection_pinged i (ch_ctl w)\<rparr>) }) = Some w4"
    "channel_inv w4" by blast
  have "on_check_and_ping rt w = Some (if ch_cur_ping_interval w4 \<noteq> iv
      then emit [StopTimer, StartTimer (iv * 1000)] (w4\<lparr>ch_cur_ping_interval := iv\<rparr>) else w4)"
    using w1(1) s w4(1) [unfolded w3_def]
    by (cases conn) (auto simp: on_check_and_ping_def time_millis_def Let_def split: Option.bind_splits)
  then show ?thesis using w4(2) interval_inv by auto
qed

section \<open>Packets\<close>

lemma response_at_inv:
  assumes "channel_inv w" "i \<in> set (conns_of w)"
  shows "\<exists>w'. received_ping_response_at rt rtt i w = Some w' \<and> channel_inv w' \<and>
    set (conns_of w') = set (conns_of w)"
  using apply_ops_inv [of "w\<lparr>ch_ticks := Suc (ch_ticks w)\<rparr>" i
      "received_ping_response_ops rt rtt (ch_clk w (ch_ticks w))"] assms
  by (simp add: received_ping_response_at_def time_millis_def received_ping_response_ops_def)

lemma request_rtt_frame:
  "request_rtt i r w = Some (rtt, w') \<Longrightarrow> w' = w\<lparr>ch_ticks := Suc (ch_ticks w)\<rparr> \<and> (\<exists>c. conn_at i w = Some c)"
  by (auto simp: request_rtt_def time_millis_def conn_at_def split: Option.bind_splits)

lemma on_response_inv:
  assumes "channel_inv w" "on_connection_request_response rt i r msg w = Some w'"
  shows "channel_inv w'"
proof -
  obtain rtt w1 where r: "request_rtt i r w = Some (rtt, w1)"
    "received_ping_response_at rt rtt i w1 = Some w'"
    using assms(2) by (auto simp: on_connection_request_response_def split: Option.bind_splits)
  from request_rtt_frame [OF r(1)] assms(1) have "channel_inv w1" "i \<in> set (conns_of w1)"
    using wiredD(4) [of w i] by (auto simp: channel_inv_def)
  from response_at_inv [OF this, of rt rtt] r(2) show ?thesis by auto
qed

lemma fail_frees: "fail_and_destroy i w = Some w' \<Longrightarrow> conn_at i w' = None"
  by (auto simp: fail_and_destroy_def free_conn_def conn_at_def split: Option.bind_splits)

lemma on_error_inv:
  assumes "channel_inv w" "on_connection_request_error_response i r msg w = Some w'"
  shows "channel_inv w' \<or> conn_at i w' = None"
proof -
  obtain rtt w1 code where r: "request_rtt i r w = Some (rtt, w1)" "get_error_code_value msg = Some code"
    "(if code = 401 \<or> code = 420 \<or> code = 500 then Some w1 else fail_and_destroy i w1) = Some w'"
    using assms(2) by (auto simp: on_connection_request_error_response_def split: Option.bind_splits)
  show ?thesis
    using r(3) request_rtt_frame [OF r(1)] assms(1) fail_frees by (auto split: if_splits)
qed

lemma put_manager_inv: "channel_inv w \<Longrightarrow> channel_inv (put_manager i rm w)"
  by (auto simp: put_manager_def intro: put_conn_inv split: option.split)

lemma finish_inv:
  "finish_request (get_manager i) (put_manager i) r b w = Some (b', w') \<Longrightarrow>
     conn_at i w \<noteq> None \<and> (channel_inv w \<longrightarrow> channel_inv w')"
  by (auto simp: finish_request_def get_manager_def put_manager_inv split: Option.bind_splits)

lemma conn_check_response_inv:
  assumes "channel_inv w" "conn_check_response rt i msg w = Some (b, w')"
  shows "channel_inv w'"
proof -
  from check_response_cases [OF assms(2) [unfolded conn_check_response_def]] show ?thesis
    using assms(1) on_response_inv on_error_inv finish_inv by metis
qed

lemma conn_on_read_packet_inv:
  assumes inv: "channel_inv w" and s: "conn_on_read_packet rt i buf w = Some w'"
  shows "channel_inv w'"
proof -
  obtain c p ret out user pkts where g: "conn_at i w = Some c" "port_at (ic_port c) w = Some p"
    "get_stun_message rt p buf (c_address (ic_remote c)) = Some (ret, out, user, pkts)"
    using s by (auto simp: conn_on_read_packet_def split: Option.bind_splits)
  define w1 where "w1 = send_packets (ic_port c) pkts w"
  have w1: "channel_inv w1" using inv by (simp add: w1_def)
  have rp: "channel_inv (emit [ReadPacket buf] w1)" using w1 by (simp add: channel_inv_def timed_emit)
  have "w' \<in> {emit [ReadPacket buf] w1, w1} \<or> (\<exists>pid pkts. w' = send_packets pid pkts w1) \<or>
      (\<exists>m b. conn_check_response rt i m w1 = Some (b, w'))"
    using s g unfolding conn_on_read_packet_def w1_def
    by (cases out) (auto simp: Let_def split: Option.bind_splits if_splits)
  then show ?thesis
    using w1 rp conn_check_response_inv by auto
qed

text \<open>A new connection on a port with a candidate.\<close>

lemma add_new_connection_wired:
  assumes w: "wired w" and p: "port_at pid w = Some p" "up_async p"
    and c: "ic_port c = pid" "\<not> ic_selected c"
  defines "i \<equiv> ch_next w"
  defines "w' \<equiv> channel_add_connection i (put_port pid (port_create_connection (ic_remote c) i p)
     (put_conn i c (w\<lparr>ch_next := Suc i\<rparr>)))"
  shows "wired w' \<and> (timed w \<longrightarrow> timed w')"
proof -
  note w0 = wiredD(5) [OF w]
  have ca: "conn_at j w' = (if j = i then Some c else conn_at j w)" for j
    by (simp add: w'_def conn_at_def channel_add_connection_def put_port_def put_conn_def)
  have pa: "port_at q w' = (if q = pid then Some (port_create_connection (ic_remote c) i p) else port_at q w)" for q
    by (simp add: w'_def port_at_def channel_add_connection_def put_port_def put_conn_def)
  have ct: "ch_ctl w' = ctl_add_connection i (ch_ctl w)" "ch_next w' = Suc i" "ch_selected w' = ch_selected w"
    by (simp_all add: w'_def channel_add_connection_def put_port_def put_conn_def)
  have fresh: "conn_at i w = None" using wired0D(4) [OF w0, of i] by (cases "conn_at i w") (auto simp: i_def)
  then have ni: "i \<notin> set (conns_of w)" using wiredD(4) [OF w] by simp
  have "wired0 w'"
  proof (rule wired0I)
    show "ctl_inv (ch_ctl w')" using ctl_inv_add [OF wiredD(1) [OF w] ni] by (simp add: ct)
    have live: "\<exists>q. port_at (ic_port d) w' = Some q \<and> up_candidates q \<noteq> []" if "conn_at j w' = Some d" for j d
    proof (cases "j = i")
      case True
      then show ?thesis using that wired0D(5) [OF w0 p(1)] p c by (simp add: ca pa port_create_connection_def)
    next
      case False
      then have d: "conn_at j w = Some d" using that by (simp add: ca)
      then obtain q where "port_at (ic_port d) w = Some q" "up_candidates q \<noteq> []"
        using wired_conn [OF w, of j] wiredD(4) [OF w] by (metis option.inject)
      then show ?thesis using p(1) by (auto simp: pa port_create_connection_def)
    qed
    have cs: "j \<in> set (conns_of w') \<longleftrightarrow> (\<exists>d. conn_at j w' = Some d)" for j
      using wiredD(4) [OF w, of j] by (auto simp: ct ca ctl_add_connection_def)
    show "heap_ok (ch_heap w') (set (conns_of w'))"
      unfolding heap_ok_def using cs live by (metis conn_at_def port_at_def)
    fix j show "j \<in> set (conns_of w') \<longleftrightarrow> (\<exists>d. conn_at j w' = Some d)" by (rule cs)
  next
    fix j d assume "conn_at j w' = Some d"
    then show "j < ch_next w'" using wired0D(4) [OF w0, of j d] by (auto simp: ca ct i_def split: if_splits)
  next
    fix q r assume "port_at q w' = Some r"
    then show "q < ch_next w' \<and> (up_async r \<longrightarrow> up_candidates r \<noteq> [])"
      using wired0D(5) [OF w0, of q] wired0D(5) [OF w0 p(1)]
      by (auto simp: pa ct i_def port_create_connection_def less_Suc_eq split: if_splits)
  next
    fix q r a j assume r: "port_at q w' = Some r" "up_connections r a = Some j"
    show "\<exists>d. conn_at j w' = Some d \<and> ic_port d = q \<and> c_address (ic_remote d) = a"
    proof (cases "q = pid \<and> a = c_address (ic_remote c)")
      case True
      then show ?thesis using r c by (auto simp: pa ca port_create_connection_def)
    next
      case False
      then obtain r' where "port_at q w = Some r'" "up_connections r' a = Some j"
        using r p(1) by (auto simp: pa port_create_connection_def split: if_splits)
      from wired0D(6) [OF w0 this] fresh show ?thesis by (auto simp: ca)
    qed
  qed
  moreover have "ch_selected w' = ctl_selected (ch_ctl w')"
    using wiredD(2) [OF w] by (simp add: ct ctl_add_connection_def)
  moreover have "ic_selected d \<longleftrightarrow> ch_selected w' = Some j" if "conn_at j w' = Some d" for j d
    using that wiredD(6) [OF w, of j d] wired_selected [OF w, of i] ni c(2)
    by (auto simp: ca ct split: if_splits)
  moreover have "timed w' = timed w"
    by (simp add: timed_def w'_def channel_add_connection_def put_port_def put_conn_def)
  ultimately show ?thesis unfolding wired_def by blast
qed

lemma on_unknown_inv:
  assumes inv: "channel_inv w" and p: "port_at pid w = Some p" "up_async p"
    and s: "on_unknown_address rt pid addr msg user w = Some w'"
  shows "channel_inv w'"
proof (cases "get_attribute msg STUN_ATTR_PRIORITY")
  case None
  then show ?thesis using s p inv by (auto simp: on_unknown_address_def)
next
  case (Some a)
  show ?thesis
  proof (cases "\<exists>t v. a = UInt32Attr t v")
    case False
    then show ?thesis using s p inv Some by (cases a) (auto simp: on_unknown_address_def)
  next
    case True
    then obtain t v where a: "a = UInt32Attr t v" by blast
    define c where "c = ice_connection_new pid \<lparr>c_component = ch_component w, c_protocol = ''udp'',
      c_address = addr, c_port = 0, c_priority = v, c_username = user,
      c_password = ice_pwd (ch_remote_params w), c_type = PRFLX_PORT_TYPE, c_foundation = []\<rparr>"
    define w1 where "w1 = channel_add_connection (ch_next w)
      (put_port pid (port_create_connection (ic_remote c) (ch_next w) p)
        (put_conn (ch_next w) c (w\<lparr>ch_next := Suc (ch_next w)\<rparr>)))"
    have "ic_port c = pid" "\<not> ic_selected c" by (simp_all add: c_def ice_connection_new_def)
    from add_new_connection_wired [OF _ p this] inv
    have w1: "wired w1" "timed w1" by (simp_all add: w1_def channel_inv_def)
    have "sort_connections_and_update_state (send_packets pid
        (handle_stun_binding_request rt p c msg) w1) = Some w'"
      using s p(1) Some a by (simp add: on_unknown_address_def Let_def w1_def c_def ice_connection_new_def)
    moreover from sort_inv [of "send_packets pid (handle_stun_binding_request rt p c msg) w1"] w1
    obtain w2 where "sort_connections_and_update_state (send_packets pid
        (handle_stun_binding_request rt p c msg) w1) = Some w2" "channel_inv w2" by auto
    ultimately show ?thesis by simp
  qed
qed

lemma port_packet_inv:
  assumes inv: "channel_inv w" and p: "port_at pid w = Some p" "up_async p"
    and s: "port_on_read_packet rt pid buf addr w = Some w'"
  shows "channel_inv w'"
proof (cases "port_get_connection p addr")
  case (Some i)
  then show ?thesis using s p(1) conn_on_read_packet_inv [OF inv] by (simp add: port_on_read_packet_def)
next
  case None
  then obtain ret out user pkts where g: "get_stun_message rt p buf addr = Some (ret, out, user, pkts)"
    using s p(1) by (auto simp: port_on_read_packet_def split: Option.bind_splits)
  define w1 where "w1 = send_packets pid pkts w"
  have w1: "channel_inv w1" "port_at pid w1 = Some p"
    using inv p(1) by (simp add: w1_def) (simp add: w1_def p(1) [unfolded port_at_def] port_at_def send_packets_def emit_def)
  have "w' = w1 \<or> (\<exists>m. on_unknown_address rt pid addr m user w1 = Some w')"
    using s g p(1) None by (cases out) (auto simp: port_on_read_packet_def w1_def Let_def split: if_splits)
  then show ?thesis using w1 on_unknown_inv [OF w1(1,2) p(2)] by blast
qed

section \<open>Parameters and gathering\<close>

lemma set_params_of_inv:
  "channel_inv w \<Longrightarrow> set is \<subseteq> set (conns_of w) \<Longrightarrow>
     \<exists>w'. set_remote_params_of params is w = Some w' \<and> channel_inv w' \<and> set (conns_of w') = set (conns_of w)"
proof (induction "is" arbitrary: w)
  case (Cons i "is")
  obtain c where c: "conn_at i w = Some c" using Cons.prems wiredD(4) [of w i] by (auto simp: channel_inv_def)
  have "channel_inv (put_conn i (maybe_set_remote_ice_params params c) w)"
    by (rule put_conn_inv [OF Cons.prems(1) c]) (simp_all add: maybe_set_remote_ice_params_def)
  with Cons.IH [of "put_conn i (maybe_set_remote_ice_params params c) w"] Cons.prems c show ?case by auto
qed simp

lemma set_remote_inv:
  assumes "channel_inv w"
  shows "\<exists>w'. set_remote_ice_params params w = Some w' \<and> channel_inv w'"
proof -
  have "channel_inv (w\<lparr>ch_remote_params := params\<rparr>)"
    using assms by (simp add: channel_inv_def wired_def wired0_def synced_def timed_def conn_at_def port_at_def)
  from set_params_of_inv [OF this, of "conns_of w" params]
  obtain w1 where "set_remote_params_of params (conns_of w) (w\<lparr>ch_remote_params := params\<rparr>) = Some w1"
    "channel_inv w1" by auto
  with sort_inv [of w1] show ?thesis by (auto simp: set_remote_ice_params_def channel_inv_def)
qed

lemma open_port_new:
  "open_port rt os ip mn mx (udp_port_new n cmp params) = (ret, c, p) \<Longrightarrow>
     (up_async p \<longrightarrow> up_candidates p \<noteq> []) \<and> up_connections p = Map.empty"
  by (auto simp: open_port_def create_ice_candidate_def udp_port_new_def Let_def
      split: if_splits prod.splits option.splits)

lemma put_new_port_inv:
  assumes inv: "channel_inv w" and p: "up_async p \<longrightarrow> up_candidates p \<noteq> []" "up_connections p = Map.empty"
  shows "channel_inv (put_port (ch_next w) p (w\<lparr>ch_next := Suc (ch_next w)\<rparr>))" (is "channel_inv ?w")
proof -
  have w: "wired w" and w0: "wired0 w" using inv wiredD(5) by (auto simp: channel_inv_def)
  have ca: "conn_at j ?w = conn_at j w" "ch_ctl ?w = ch_ctl w" "ch_next ?w = Suc (ch_next w)"
    "ch_selected ?w = ch_selected w" for j
    by (simp_all add: conn_at_def put_port_def)
  have pa: "port_at q ?w = (if q = ch_next w then Some p else port_at q w)" for q
    by (simp add: port_at_def put_port_def)
  have fresh: "port_at (ch_next w) w = None"
    using wired0D(5) [OF w0, of "ch_next w"] by (cases "port_at (ch_next w) w") auto
  have "wired0 ?w"
  proof (rule wired0I)
    show "heap_ok (ch_heap ?w) (set (conns_of ?w))"
      using wiredD(3) [OF w] fresh unfolding heap_ok_def put_port_def port_at_def by fastforce
  next
    fix q r assume "port_at q ?w = Some r"
    then show "q < ch_next ?w \<and> (up_async r \<longrightarrow> up_candidates r \<noteq> [])"
      using wired0D(5) [OF w0, of q] p by (auto simp: pa ca less_Suc_eq split: if_splits)
  next
    fix q r a j assume "port_at q ?w = Some r" "up_connections r a = Some j"
    then show "\<exists>c. conn_at j ?w = Some c \<and> ic_port c = q \<and> c_address (ic_remote c) = a"
      using wired0D(6) [OF w0, of q r a j] p by (auto simp: pa ca split: if_splits)
  next
    fix j c assume "conn_at j ?w = Some c"
    then show "j < ch_next ?w" using wired0D(4) [OF w0, of j c] by (simp add: ca)
  qed (use wired0D(1,3) [OF w0] ca in auto)
  then show ?thesis
    using inv by (simp add: channel_inv_def wired_def synced_def timed_def ca) (simp add: put_port_def)
qed

lemma local_cands_inv [simp]: "channel_inv (w\<lparr>ch_local_candidates := cs\<rparr>) = channel_inv w"
  by (simp add: channel_inv_def wired_def wired0_def synced_def timed_def conn_at_def port_at_def)

lemma gather_inv: "channel_inv w \<Longrightarrow> channel_inv (gather_ports rt mn mx nets w)"
proof (induction nets arbitrary: w)
  case (Cons net nets)
  obtain ret c p where o: "open_port rt (snd net) (fst net) mn mx
      (udp_port_new (ch_transport_name w) (ch_component w) (ch_params w)) = (ret, c, p)"
    by (metis prod_cases3)
  have "channel_inv (put_port (ch_next w) p (w\<lparr>ch_next := Suc (ch_next w)\<rparr>))"
    using put_new_port_inv [OF Cons.prems] open_port_new [OF o] by blast
  then show ?case using Cons.IH by (simp add: o Let_def)
qed simp

lemma gathering_inv: "channel_inv w \<Longrightarrow> channel_inv (channel_gathering_candidate rt nets mn mx w)"
  using gather_inv [of w rt mn mx nets]
  by (simp add: channel_gathering_candidate_def Let_def) (simp add: channel_inv_def timed_emit)

section \<open>All histories of a channel\<close>

inductive channel_step :: "rtcbase \<Rightarrow> ice_channel \<Rightarrow> ice_channel \<Rightarrow> bool" for rt where
  step_params: "channel_step rt w (set_ice_params params w)"
| step_gather: "channel_step rt w (channel_gathering_candidate rt nets mn mx w)"
| step_remote: "set_remote_ice_params params w = Some w' \<Longrightarrow> channel_step rt w w'"
| step_timer: "on_check_and_ping rt w = Some w' \<Longrightarrow> channel_step rt w w'"
| step_packet: "port_at pid w = Some p \<Longrightarrow> up_async p \<Longrightarrow>
    port_on_read_packet rt pid buf addr w = Some w' \<Longrightarrow> channel_step rt w w'"

inductive channel_reach :: "rtcbase \<Rightarrow> ice_channel \<Rightarrow> bool" for rt where
  channel_init: "channel_reach rt (ice_channel_new name cmp clk rnd)"
| channel_next: "channel_reach rt w \<Longrightarrow> channel_step rt w w' \<Longrightarrow> channel_reach rt w'"

lemma channel_step_inv: "channel_step rt w w' \<Longrightarrow> channel_inv w \<Longrightarrow> channel_inv w'"
proof (induction rule: channel_step.induct)
  case (step_params w params)
  then show ?case
    by (simp add: set_ice_params_def channel_inv_def wired_def wired0_def synced_def timed_def conn_at_def port_at_def)
next
  case (step_gather w nets mn mx)
  then show ?case by (rule gathering_inv)
next
  case (step_remote params w w')
  then show ?case using set_remote_inv [of w params] by auto
next
  case (step_timer w w')
  then show ?case using timer_inv [of w rt] by auto
next
  case (step_packet pid w p buf addr w')
  then show ?case using port_packet_inv by blast
qed

lemma channel_reach_inv: "channel_reach rt w \<Longrightarrow> channel_inv w"
  by (induction rule: channel_reach.induct) (auto simp: channel_inv_new intro: channel_step_inv)

text \<open>
  C8: In every history of a channel (parameters, gathering, timer ticks, arbitrary packets from
  arbitrary addresses, as long as no fault occurs): no pointer dangles (neither the controller's list,
  nor the selected pointers, nor the ports' address maps); channel, controller and connections agree on
  the selected connection; the channel is writable exactly when its selected connection is, and
  receiving exactly when some connection is; and once pinging has started the last timer call started
  the timer with the current interval.\<close>

theorem channel_invariant:
  assumes "channel_reach rt w"
  shows "(\<forall>i \<in> set (ctl_connections (ch_ctl w)). conn_at i w \<noteq> None) \<and>
    (\<forall>pid p a i. port_at pid w = Some p \<and> port_get_connection p a = Some i \<longrightarrow>
       (\<exists>c. conn_at i w = Some c \<and> ic_port c = pid \<and> c_address (ic_remote c) = a)) \<and>
    ch_selected w = ctl_selected (ch_ctl w) \<and>
    (\<forall>i c. conn_at i w = Some c \<longrightarrow> (ic_selected c \<longleftrightarrow> ch_selected w = Some i)) \<and>
    (ch_writable w \<longleftrightarrow> (\<exists>i c. ch_selected w = Some i \<and> conn_at i w = Some c \<and> writable c)) \<and>
    (ch_receiving w \<longleftrightarrow> (\<exists>i c. conn_at i w = Some c \<and> ic_receiving c)) \<and>
    (ch_start_pinging w \<longrightarrow>
       (\<exists>es. filter is_timer (ch_out w) = es @ [StartTimer (ch_cur_ping_interval w * 1000)]))"
proof -
  have inv: "wired w" "synced w" "timed w" using channel_reach_inv [OF assms] by (simp_all add: channel_inv_def)
  show ?thesis
    using wiredD(2,4,5,6) [OF inv(1)] wired0D(6) [OF wiredD(5) [OF inv(1)]] inv(2,3)
    unfolding synced_def timed_def port_get_connection_def by blast
qed

theorem channel_invariant_witness:
  "ch_writable (set_ice_params \<lparr>ice_ufrag = ''ab'', ice_pwd = ''secret''\<rparr> (ice_channel_new ''audio'' RTP int (\<lambda>n. []))) \<longleftrightarrow>
     (\<exists>i c. ch_selected (ice_channel_new ''audio'' RTP int (\<lambda>n. [])) = Some i \<and>
        conn_at i (ice_channel_new ''audio'' RTP int (\<lambda>n. [])) = Some c \<and> writable c)"
proof -
  have "channel_reach ref_rtc (set_ice_params \<lparr>ice_ufrag = ''ab'', ice_pwd = ''secret''\<rparr> (ice_channel_new ''audio'' RTP int (\<lambda>n. [])))"
    by (rule channel_next [OF channel_init step_params])
  from channel_invariant [OF this] show ?thesis by (simp add: set_ice_params_def conn_at_def)
qed

text \<open>
  C26: The ping timer and the installation of the remote parameters never fault, in any state a channel
  can reach: every pointer they follow is alive.\<close>

theorem timer_never_faults:
  assumes "channel_reach rt w"
  shows "(\<exists>w'. on_check_and_ping rt w = Some w') \<and> (\<exists>w'. set_remote_ice_params params w = Some w')"
  using timer_inv set_remote_inv channel_reach_inv [OF assms] by blast

theorem timer_never_faults_witness:
  "\<exists>w'. on_check_and_ping ref_rtc (ice_channel_new ''audio'' RTP int (\<lambda>n. [])) = Some w'"
  using timer_never_faults [OF channel_init] by blast

section \<open>Error responses\<close>

lemma get_stun_message_attrs:
  assumes "byte_buffer_ok rt" "get_stun_message rt p buf addr = Some (ret, Some m, user, pkts)"
  shows "get_error_code_value m = Some 600"
proof -
  obtain ok m0 where r: "stun_read rt stun_message_new buf = Some (ok, m0)" "m_attrs m = m_attrs m0"
    using assms(2)
    by (auto simp: get_stun_message_def validate_message_integrity_def Let_def
        split: if_splits option.splits prod.splits Option.bind_splits)
  from read_code [OF assms(1) r(1)] show ?thesis
    using r(2) by (simp add: get_error_code_value_def get_attribute_def)
qed

text \<open>
  C27: An authenticated error response to a pending request brings the process down, in every state: its
  code is read as 600, so the connection is destroyed, with its request manager, inside
  \<^verbatim>\<open>check_response\<close>, which then deletes the request a second time (and on the way the null connection of
  the log line and the erase loop fault for the selected and the last connection).\<close>

theorem error_response_faults:
  assumes rt: "byte_buffer_ok rt"
    and c: "conn_at i w = Some c" "port_at (ic_port c) w = Some p"
    and g: "get_stun_message rt p buf (c_address (ic_remote c)) = Some (True, Some m, user, pkts)"
    and m: "m_type m = STUN_BINDING_ERROR_RESPONSE"
      "validate_message_integrity rt (c_password (ic_remote c)) m = Some (k_integrity_ok, m')"
    and r: "map_of (rm_map (ic_requests c)) (m_transaction_id m) = Some r"
      "rm_heap (ic_requests c) r = Some rq" "request_type rq = 1"
  shows "conn_on_read_packet rt i buf w = None"
proof -
  define w1 where "w1 = send_packets (ic_port c) pkts w"
  have w1: "conn_at i w1 = Some c" using c(1) by (simp add: w1_def)
  have m': "m_type m' = 0x111" "m_transaction_id m' = m_transaction_id m" "integrity_ok m'"
    "get_error_code_value m' = Some 600"
    using m get_stun_message_attrs [OF rt g]
    by (auto simp: validate_message_integrity_def integrity_ok_def Let_def get_error_code_value_def
        get_attribute_def split: Option.bind_splits if_splits)
  have "on_connection_request_error_response i r m' w1 =
      fail_and_destroy i (w1\<lparr>ch_ticks := Suc (ch_ticks w1)\<rparr>)"
    using w1 r(2) m'(4)
    by (simp add: on_connection_request_error_response_def request_rtt_def time_millis_def) (simp add: conn_at_def)
  then have "finish_request (get_manager i) (put_manager i) r True w2 = None"
    if "on_connection_request_error_response i r m' w1 = Some w2" for w2
    using that fail_frees by (auto simp: finish_request_def get_manager_def)
  then have "conn_check_response rt i m' w1 = None"
    using w1 r m'(1,2)
    by (cases "on_connection_request_error_response i r m' w1")
      (simp_all add: conn_check_response_def check_response_def get_manager_def
        get_stun_success_response_def get_stun_error_response_def is_stun_request_type_def)
  then show ?thesis
    using c g m m' by (simp add: conn_on_read_packet_def w1_def Let_def)
qed

definition sample_error :: stun_message where
  "sample_error = stun_message_new\<lparr>m_type := STUN_BINDING_ERROR_RESPONSE, m_transaction_id := ''abcdefghijkl''\<rparr>"

definition sample_channel :: ice_channel where
  "sample_channel = (ice_channel_new ''audio'' RTP (\<lambda>n. 0) (\<lambda>n. []))\<lparr>ch_heap :=
     \<lparr>ih_ports = [0 \<mapsto> sample_port],
      ih_conns = [1 \<mapsto> (ice_connection_new 0 sample_candidate)\<lparr>ic_requests := sample_pending\<rparr>]\<rparr>\<rparr>"

theorem error_response_faults_witness:
  "conn_on_read_packet ref_rtc 1 (signed_bytes ref_rtc ''other'' sample_error) sample_channel = None"
proof -
  let ?c = "(ice_connection_new 0 sample_candidate)\<lparr>ic_requests := sample_pending\<rparr>"
  have "signable sample_error"
    by (simp add: signable_def msg_wf_def sample_error_def stun_message_new_def)
  from get_stun_message_signed_other [OF ref_rtc_ok(1-3) this, of "''other''"]
  obtain m m' where m: "get_stun_message ref_rtc sample_port (signed_bytes ref_rtc ''other'' sample_error)
      (c_address (ic_remote ?c)) = Some (True, Some m, [], [])"
    "m_type m = STUN_BINDING_ERROR_RESPONSE" "m_transaction_id m = ''abcdefghijkl''"
    "validate_message_integrity ref_rtc ''other'' m = Some (k_integrity_ok, m')"
    by (auto simp: sample_error_def)
  have pw: "c_password (ic_remote ?c) = ''other''" by (simp add: ice_connection_new_def sample_candidate_def)
  show ?thesis
    by (rule error_response_faults [OF ref_rtc_ok(1) _ _ m(1,2) m(4) [folded pw],
          of 1 sample_channel 0 "\<lparr>rq_msg = stun_message_new\<lparr>m_type := STUN_BINDING_REQUEST,
            m_transaction_id := ''abcdefghijkl''\<rparr>, rq_managed = True, rq_ts = 5\<rparr>"])
      (simp_all add: sample_channel_def conn_at_def port_at_def ice_connection_new_def sample_pending_def
        request_type_def m(3))
qed

end
