(* ===== verification/Dtls_Transport.thy ===== *)
theory Dtls_Transport
  imports Ice_Channel
begin

text \<open>
  \<^verbatim>\<open>src/pc/dtls_transport.cpp\<close>: recognising DTLS packets and the state of the DTLS transport over an
  ICE channel.  The TLS adapter is a parameter (\<open>dtls_env\<close>: whether it can be created and whether it
  accepts a peer digest).  The methods of \<^verbatim>\<open>StreamInterfaceChannel\<close> have empty bodies.  \<open>None\<close> is a
  null dereference.
\<close>

section \<open>Packets\<close>

abbreviation k_dtls_record_header_len :: nat where "k_dtls_record_header_len \<equiv> 13"

definition byte_at :: "string \<Rightarrow> nat \<Rightarrow> nat" where
  "byte_at s i = of_char (s ! i)"

definition is_dtls_packet :: "string \<Rightarrow> bool" where
  "is_dtls_packet buf \<longleftrightarrow>
     k_dtls_record_header_len \<le> length buf \<and> 19 < byte_at buf 0 \<and> byte_at buf 0 < 64"

definition is_dtls_client_hello_packet :: "string \<Rightarrow> bool" where
  "is_dtls_client_hello_packet buf \<longleftrightarrow>
     is_dtls_packet buf \<and> 17 < length buf \<and> byte_at buf 0 = 22 \<and> byte_at buf 13 < 1"

section \<open>State\<close>

datatype dtls_state = dtls_new | dtls_connecting | dtls_connected | dtls_closed | dtls_failed

datatype dtls_signal = Dtls_state dtls_state | Dtls_writable bool

record dtls_transport =
  dt_name :: string
  dt_component :: ice_component
  dt_state :: dtls_state
  dt_receiving :: bool
  dt_writable :: bool
  dt_adapter :: bool
  dt_cached_client_hello :: string
  dt_local_certificate :: "nat option"
  dt_remote_alg :: string
  dt_remote_value :: string
  dt_active :: bool
  dt_signals :: "dtls_signal list"

definition dtls_transport_new :: "ice_channel \<Rightarrow> dtls_transport" where
  "dtls_transport_new ch =
     \<lparr>dt_name = ch_transport_name ch, dt_component = ch_component ch, dt_state = dtls_new,
      dt_receiving = False, dt_writable = False, dt_adapter = False, dt_cached_client_hello = [],
      dt_local_certificate = None, dt_remote_alg = [], dt_remote_value = [], dt_active = False,
      dt_signals = []\<rparr>"

record dtls_env =
  de_create :: bool
  de_digest :: "string \<Rightarrow> string \<Rightarrow> bool"

definition set_dtls_state :: "dtls_state \<Rightarrow> dtls_transport \<Rightarrow> dtls_transport" where
  "set_dtls_state st d =
     (if dt_state d = st then d else d\<lparr>dt_state := st, dt_signals := dt_signals d @ [Dtls_state st]\<rparr>)"

definition set_writable_state :: "bool \<Rightarrow> dtls_transport \<Rightarrow> dtls_transport" where
  "set_writable_state b d =
     (if dt_writable d = b then d else d\<lparr>dt_writable := b, dt_signals := dt_signals d @ [Dtls_writable b]\<rparr>)"

text \<open>The log tag of a transport.\<close>

definition dtls_to_string :: "dtls_transport \<Rightarrow> string" where
  "dtls_to_string d = ''DtlsTransport['' @ dt_name d @ ''|'' @
     dec_digits (unat (component_id (dt_component d))) @ ''|'' @
     (if dt_receiving d then ''R'' else ''-'') @ ''|'' @ (if dt_writable d then ''R'' else ''-'') @ '']''"

text \<open>
  \<^verbatim>\<open>_setup_dtls\<close>: the adapter is created (or not), then given the local certificate without a
  check, then the remote digest if there is one.  \<^verbatim>\<open>_maybe_start_dtls\<close> does nothing.
\<close>

definition setup_dtls :: "dtls_env \<Rightarrow> dtls_transport \<Rightarrow> (bool \<times> dtls_transport) option" where
  "setup_dtls env d =
     (let d = d\<lparr>dt_adapter := de_create env\<rparr> in
      if \<not> de_create env then Some (False, d)
      else case dt_local_certificate d of
        None \<Rightarrow> None
      | Some cert \<Rightarrow>
          if dt_remote_value d \<noteq> [] \<and> \<not> de_digest env (dt_remote_alg d) (dt_remote_value d)
          then Some (False, d)
          else Some (True, d))"

definition dtls_on_read_packet :: "dtls_env \<Rightarrow> string \<Rightarrow> dtls_transport \<Rightarrow> dtls_transport option" where
  "dtls_on_read_packet env buf d =
     (if dt_state d \<noteq> dtls_new then Some d
      else if is_dtls_client_hello_packet buf then
        let d = d\<lparr>dt_cached_client_hello := buf\<rparr> in
        if \<not> dt_adapter d \<and> dt_local_certificate d \<noteq> None
        then do { (_, d) \<leftarrow> setup_dtls env d; Some d } else Some d
      else Some d)"

definition dtls_set_local_certificate :: "nat option \<Rightarrow> dtls_transport \<Rightarrow> bool \<times> dtls_transport" where
  "dtls_set_local_certificate cert d =
     (if dt_active d then (cert = dt_local_certificate d, d)
      else case cert of
        None \<Rightarrow> (True, d)
      | Some c \<Rightarrow> (True, d\<lparr>dt_local_certificate := Some c, dt_active := True\<rparr>))"

text \<open>
  \<^verbatim>\<open>set_remote_fingerprint\<close>: \<open>g\<close> is whether the uninitialised local \<^verbatim>\<open>err\<close> happens to hold
  \<^verbatim>\<open>VERIFICATION_FAILED\<close>.
\<close>

definition set_remote_fingerprint ::
    "dtls_env \<Rightarrow> bool \<Rightarrow> string \<Rightarrow> string \<Rightarrow> dtls_transport \<Rightarrow> (bool \<times> dtls_transport) option" where
  "set_remote_fingerprint env g alg digest d =
     (if dt_active d \<and> dt_remote_value d = digest \<and> alg \<noteq> [] then Some (True, d)
      else if alg = [] then Some (False, d\<lparr>dt_active := False\<rparr>)
      else if \<not> dt_active d then Some (False, d)
      else
        let change = dt_remote_value d \<noteq> [];
            d = d\<lparr>dt_remote_value := digest, dt_remote_alg := alg\<rparr>
        in if dt_adapter d \<and> \<not> change \<and> \<not> de_digest env alg digest
           then Some (g, set_dtls_state dtls_failed d)
           else
             let d = (if dt_adapter d \<and> change
                      then set_writable_state False (set_dtls_state dtls_new (d\<lparr>dt_adapter := False\<rparr>))
                      else d)
             in do { (ok, d) \<leftarrow> setup_dtls env d;
                     Some (if \<not> ok then (False, set_dtls_state dtls_failed d) else (True, d)) })"

section \<open>What a transport can reach\<close>

datatype dtls_event =
  Dtls_packet dtls_env string
| Dtls_certificate "nat option"
| Dtls_fingerprint dtls_env bool string string

fun dtls_step :: "dtls_event \<Rightarrow> dtls_transport \<Rightarrow> dtls_transport option" where
  "dtls_step (Dtls_packet env buf) d = dtls_on_read_packet env buf d"
| "dtls_step (Dtls_certificate cert) d = Some (snd (dtls_set_local_certificate cert d))"
| "dtls_step (Dtls_fingerprint env g alg digest) d = map_option snd (set_remote_fingerprint env g alg digest d)"

fun dtls_run :: "dtls_event list \<Rightarrow> dtls_transport \<Rightarrow> dtls_transport option" where
  "dtls_run [] d = Some d"
| "dtls_run (e # es) d = do { d \<leftarrow> dtls_step e d; dtls_run es d }"

definition dtls_inv :: "dtls_transport \<Rightarrow> bool" where
  "dtls_inv d \<longleftrightarrow> (dt_active d \<or> dt_adapter d \<longrightarrow> dt_local_certificate d \<noteq> None) \<and>
     dt_state d \<in> {dtls_new, dtls_failed} \<and> \<not> dt_writable d \<and>
     (dt_cached_client_hello d \<noteq> [] \<longrightarrow> is_dtls_client_hello_packet (dt_cached_client_hello d))"

lemma setup_inv:
  assumes "dtls_inv d" "dt_local_certificate d \<noteq> None"
  shows "\<exists>ok d'. setup_dtls env d = Some (ok, d') \<and> dtls_inv d' \<and> dt_state d' = dt_state d"
  using assms by (auto simp: setup_dtls_def Let_def dtls_inv_def)

lemma set_state_inv:
  "dtls_inv d \<Longrightarrow> st \<in> {dtls_new, dtls_failed} \<Longrightarrow> dtls_inv (set_dtls_state st d)"
  "dtls_inv d \<Longrightarrow> dtls_inv (set_writable_state False d)"
  by (auto simp: dtls_inv_def set_dtls_state_def set_writable_state_def)

lemma set_state_certificate [simp]:
  "dt_local_certificate (set_dtls_state st d) = dt_local_certificate d"
  "dt_local_certificate (set_writable_state b d) = dt_local_certificate d"
  by (simp_all add: set_dtls_state_def set_writable_state_def)

lemma read_packet_inv: "dtls_inv d \<Longrightarrow> \<exists>d'. dtls_on_read_packet env buf d = Some d' \<and> dtls_inv d'"
proof -
  assume d: "dtls_inv d"
  let ?d = "d\<lparr>dt_cached_client_hello := buf\<rparr>"
  show ?thesis
  proof (cases "dt_state d = dtls_new \<and> is_dtls_client_hello_packet buf")
    case True
    then have i: "dtls_inv ?d" using d by (simp add: dtls_inv_def)
    then show ?thesis
      using True setup_inv [OF i, of env] by (auto simp: dtls_on_read_packet_def Let_def)
  qed (use d in \<open>auto simp: dtls_on_read_packet_def\<close>)
qed

lemma fingerprint_inv:
  assumes d: "dtls_inv d"
  shows "\<exists>ok d'. set_remote_fingerprint env g alg digest d = Some (ok, d') \<and> dtls_inv d'"
proof -
  let ?d1 = "d\<lparr>dt_remote_value := digest, dt_remote_alg := alg\<rparr>"
  let ?d2 = "if dt_adapter ?d1 \<and> dt_remote_value d \<noteq> []
    then set_writable_state False (set_dtls_state dtls_new (?d1\<lparr>dt_adapter := False\<rparr>)) else ?d1"
  have d1: "dtls_inv ?d1" "dtls_inv (?d1\<lparr>dt_adapter := False\<rparr>)" "dtls_inv (d\<lparr>dt_active := False\<rparr>)"
    using d by (simp_all add: dtls_inv_def)
  then have d2: "dtls_inv ?d2" by (simp add: set_state_inv)
  show ?thesis
  proof (cases "dt_active d \<and> alg \<noteq> [] \<and> dt_remote_value d \<noteq> digest \<and>
      \<not> (dt_adapter d \<and> dt_remote_value d = [] \<and> \<not> de_digest env alg digest)")
    case True
    then have "dt_local_certificate ?d2 \<noteq> None" using d by (simp add: dtls_inv_def)
    from setup_inv [OF d2 this, of env] obtain ok d3 where
      s: "setup_dtls env ?d2 = Some (ok, d3)" "dtls_inv d3" by blast
    then have "set_remote_fingerprint env g alg digest d =
        Some (if \<not> ok then (False, set_dtls_state dtls_failed d3) else (True, d3))"
      using True unfolding set_remote_fingerprint_def Let_def by auto
    then show ?thesis using s(2) set_state_inv(1) [OF s(2), of dtls_failed] by auto
  next
    case False
    then show ?thesis
      using d d1 set_state_inv(1) [OF d1(1), of dtls_failed] by (auto simp: set_remote_fingerprint_def Let_def)
  qed
qed

lemma dtls_step_inv: "dtls_inv d \<Longrightarrow> \<exists>d'. dtls_step e d = Some d' \<and> dtls_inv d'"
proof (cases e)
  case (Dtls_certificate cert)
  moreover assume "dtls_inv d"
  ultimately show ?thesis
    by (auto simp: dtls_set_local_certificate_def dtls_inv_def split: option.split)
next
  case (Dtls_fingerprint env g alg digest)
  moreover assume "dtls_inv d"
  ultimately show ?thesis using fingerprint_inv [of d env g alg digest] by auto
qed (simp add: read_packet_inv)

lemma dtls_run_inv: "dtls_inv d \<Longrightarrow> \<exists>d'. dtls_run es d = Some d' \<and> dtls_inv d'"
proof (induction es arbitrary: d)
  case (Cons e es)
  from dtls_step_inv [OF Cons.prems, of e] obtain d1 where "dtls_step e d = Some d1" "dtls_inv d1" by blast
  then show ?case using Cons.IH [of d1] by simp
qed simp

text \<open>
  C32: Whatever packets, certificates and remote fingerprints arrive, in any order and with any answers
  of the TLS library, the transport never dereferences a missing certificate and caches nothing but
  a complete ClientHello; but it never gets past \<open>new\<close> or \<open>failed\<close> and never becomes writable: the
  handshake is prepared and not started.\<close>

theorem dtls_never_connects:
  "\<exists>d. dtls_run es (dtls_transport_new ch) = Some d \<and> dt_state d \<in> {dtls_new, dtls_failed} \<and>
    \<not> dt_writable d \<and> (dt_active d \<or> dt_adapter d \<longrightarrow> dt_local_certificate d \<noteq> None) \<and>
    (dt_cached_client_hello d \<noteq> [] \<longrightarrow> is_dtls_client_hello_packet (dt_cached_client_hello d))"
proof -
  have "dtls_inv (dtls_transport_new ch)" by (simp add: dtls_inv_def dtls_transport_new_def)
  from dtls_run_inv [OF this, of es] show ?thesis by (auto simp: dtls_inv_def)
qed

theorem dtls_never_connects_witness:
  "\<exists>d. dtls_run [Dtls_certificate (Some 3), Dtls_fingerprint \<lparr>de_create = True, de_digest = (\<lambda>a v. True)\<rparr> False ''sha-256'' ''AB'']
      (dtls_transport_new (ice_channel_new ''audio'' RTP (\<lambda>n. 0) (\<lambda>n. []))) = Some d \<and> dt_adapter d \<and> \<not> dt_writable d"
proof -
  let ?es = "[Dtls_certificate (Some 3), Dtls_fingerprint \<lparr>de_create = True, de_digest = (\<lambda>a v. True)\<rparr> False ''sha-256'' ''AB'']"
  let ?ch = "ice_channel_new ''audio'' RTP (\<lambda>n. 0) (\<lambda>n. [])"
  have "map_option dt_adapter (dtls_run ?es (dtls_transport_new ?ch)) = Some True"
    by (simp add: dtls_set_local_certificate_def set_remote_fingerprint_def setup_dtls_def
        dtls_transport_new_def Let_def)
  with dtls_never_connects [of ?es ?ch] show ?thesis by auto
qed

end
