(* ===== verification/Session_Description.thy ===== *)
theory Session_Description
  imports Candidate "HOL-Library.List_Lexorder" "HOL-Library.Char_ord"
begin

text \<open>
  \<^verbatim>\<open>src/pc/codec_info.h\<close>, \<^verbatim>\<open>session_description.h\<close> and \<^verbatim>\<open>session_description.cpp\<close>: the model of a
  session description and its text form (SDP).  Fingerprints come from the TLS library: \<open>ssl_lib\<close>
  makes one from a certificate (an address) or from its text form.
\<close>

section \<open>Codecs\<close>

record feedback_param =
  fb_id :: string
  fb_param :: string

text \<open>\<^verbatim>\<open>std::map<std::string, std::string>\<close>: an association list sorted by key.\<close>

fun param_set :: "string \<Rightarrow> string \<Rightarrow> (string \<times> string) list \<Rightarrow> (string \<times> string) list" where
  "param_set k v [] = [(k, v)]"
| "param_set k v ((k', v') # kvs) =
     (if k = k' then (k, v) # kvs
      else if k < k' then (k, v) # (k', v') # kvs
      else (k', v') # param_set k v kvs)"

text \<open>\<^verbatim>\<open>CodecInfo\<close>; only an \<^verbatim>\<open>AudioCodecInfo\<close> has channels.\<close>

record codec_info =
  cd_id :: int
  cd_name :: string
  cd_clockrate :: int
  cd_feedback :: "feedback_param list"
  cd_params :: "(string \<times> string) list"
  cd_channels :: "int option"

definition fb :: "string \<Rightarrow> string \<Rightarrow> feedback_param" where
  "fb i p = \<lparr>fb_id = i, fb_param = p\<rparr>"

definition opus_codec :: codec_info where
  "opus_codec = \<lparr>cd_id = 111, cd_name = ''opus'', cd_clockrate = 48000,
     cd_feedback = [fb ''transport-cc'' []],
     cd_params = param_set ''useinbandfec'' ''1'' (param_set ''minptime'' ''10'' []),
     cd_channels = Some 2\<rparr>"

definition h264_codec :: codec_info where
  "h264_codec = \<lparr>cd_id = 107, cd_name = ''H264'', cd_clockrate = 90000,
     cd_feedback = [fb ''goog-remb'' [], fb ''transport-cc'' [], fb ''ccm'' ''fir'', fb ''nack'' [],
                    fb ''nack'' ''pli''],
     cd_params = param_set ''profile-level-id'' ''42e01f''
       (param_set ''packetization-mode'' ''1'' (param_set ''level-asymmetry-allowed'' ''1'' [])),
     cd_channels = None\<rparr>"

definition rtx_codec :: codec_info where
  "rtx_codec = \<lparr>cd_id = 99, cd_name = ''rtx'', cd_clockrate = 90000, cd_feedback = [],
     cd_params = param_set ''apt'' (dec_int (cd_id h264_codec)) [], cd_channels = None\<rparr>"

section \<open>Media\<close>

datatype sdp_type = k_offer | k_answer
datatype media_type = MEDIA_TYPE_AUDIO | MEDIA_TYPE_VIDEO
datatype rtp_direction = k_send_recv | k_send_only | k_recv_only | k_inactive

record media_content =
  mc_type :: media_type
  mc_codecs :: "codec_info list"
  mc_direction :: rtp_direction
  mc_rtcp_mux :: bool
  mc_candidates :: "candidate list"

text \<open>\<^verbatim>\<open>type()\<close> decides \<^verbatim>\<open>mid()\<close>.\<close>

primrec media_mid :: "media_type \<Rightarrow> string" where
  "media_mid MEDIA_TYPE_AUDIO = ''audio''"
| "media_mid MEDIA_TYPE_VIDEO = ''video''"

abbreviation mc_mid :: "media_content \<Rightarrow> string" where
  "mc_mid c \<equiv> media_mid (mc_type c)"

text \<open>The constructors leave the direction uninitialised (\<open>g\<close>).\<close>

definition audio_content :: "rtp_direction \<Rightarrow> media_content" where
  "audio_content g = \<lparr>mc_type = MEDIA_TYPE_AUDIO, mc_codecs = [opus_codec], mc_direction = g,
     mc_rtcp_mux = True, mc_candidates = []\<rparr>"

definition video_content :: "rtp_direction \<Rightarrow> media_content" where
  "video_content g = \<lparr>mc_type = MEDIA_TYPE_VIDEO, mc_codecs = [h264_codec, rtx_codec], mc_direction = g,
     mc_rtcp_mux = True, mc_candidates = []\<rparr>"

section \<open>Groups and transports\<close>

record content_group =
  cg_semantics :: string
  cg_names :: "string list"

definition has_content_name :: "string \<Rightarrow> content_group \<Rightarrow> bool" where
  "has_content_name name g \<longleftrightarrow> name \<in> set (cg_names g)"

definition add_content_name :: "string \<Rightarrow> content_group \<Rightarrow> content_group" where
  "add_content_name name g =
     (if has_content_name name g then g else g\<lparr>cg_names := cg_names g @ [name]\<rparr>)"

datatype connection_role = NONE | ACTIVE | PASSIVE | ACTPASS | HOLDCONN

record fingerprint =
  fp_algorithm :: string
  fp_text :: string

record ssl_lib =
  ssl_of_certificate :: "nat \<Rightarrow> fingerprint option"
  ssl_of_text :: "string \<Rightarrow> string \<Rightarrow> fingerprint option"

record transport_description =
  td_ice_ufrag :: string
  td_ice_pwd :: string
  td_mid :: string
  td_fingerprint :: "fingerprint option"
  td_role :: connection_role

definition transport_description_new :: transport_description where
  "transport_description_new =
     \<lparr>td_ice_ufrag = [], td_ice_pwd = [], td_mid = [], td_fingerprint = None, td_role = NONE\<rparr>"

section \<open>The description\<close>

record session_description =
  sd_type :: sdp_type
  sd_contents :: "media_content list"
  sd_groups :: "content_group list"
  sd_transports :: "transport_description list"

definition session_description_new :: "sdp_type \<Rightarrow> session_description" where
  "session_description_new t = \<lparr>sd_type = t, sd_contents = [], sd_groups = [], sd_transports = []\<rparr>"

definition add_group :: "content_group \<Rightarrow> session_description \<Rightarrow> session_description" where
  "add_group g sd = sd\<lparr>sd_groups := sd_groups sd @ [g]\<rparr>"

definition add_content :: "media_content \<Rightarrow> session_description \<Rightarrow> session_description" where
  "add_content c sd = sd\<lparr>sd_contents := sd_contents sd @ [c]\<rparr>"

definition get_content :: "string \<Rightarrow> session_description \<Rightarrow> media_content option" where
  "get_content mid sd = find (\<lambda>c. mid = mc_mid c) (sd_contents sd)"

text \<open>Writing through the pointer \<^verbatim>\<open>get_content\<close> returns: the first content of that name.\<close>

fun update_content :: "string \<Rightarrow> (media_content \<Rightarrow> media_content) \<Rightarrow> media_content list \<Rightarrow> media_content list" where
  "update_content mid f [] = []"
| "update_content mid f (c # cs) =
     (if mid = mc_mid c then f c # cs else c # update_content mid f cs)"

definition get_group_by_name :: "string \<Rightarrow> session_description \<Rightarrow> content_group list" where
  "get_group_by_name name sd = filter (\<lambda>g. cg_semantics g = name) (sd_groups sd)"

definition add_transport_info ::
    "ssl_lib \<Rightarrow> string \<Rightarrow> ice_parameters \<Rightarrow> nat option \<Rightarrow> session_description \<Rightarrow> bool \<times> session_description" where
  "add_transport_info ssl mid param certificate sd =
     (let fp = (case certificate of None \<Rightarrow> None | Some cert \<Rightarrow> ssl_of_certificate ssl cert);
          td = \<lparr>td_ice_ufrag = ice_ufrag param, td_ice_pwd = ice_pwd param, td_mid = mid,
                td_fingerprint = fp, td_role = (if sd_type sd = k_offer then ACTPASS else ACTIVE)\<rparr>
      in if certificate \<noteq> None \<and> fp = None then (False, sd)
         else (True, sd\<lparr>sd_transports := sd_transports sd @ [td]\<rparr>))"

definition add_transport_td :: "transport_description \<Rightarrow> session_description \<Rightarrow> session_description" where
  "add_transport_td td sd = sd\<lparr>sd_transports := sd_transports sd @ [td]\<rparr>"

definition get_transport_info :: "string \<Rightarrow> session_description \<Rightarrow> transport_description option" where
  "get_transport_info mid sd = find (\<lambda>td. td_mid td = mid) (sd_transports sd)"

definition is_bundle :: "string \<Rightarrow> session_description \<Rightarrow> bool" where
  "is_bundle mid sd \<longleftrightarrow> list_ex (\<lambda>g. mid \<in> set (cg_names g)) (get_group_by_name ''BUNDLE'' sd)"

text \<open>\<^verbatim>\<open>content_group[0]->content_names()[0]\<close> without a check.\<close>

definition get_first_bundle_mid :: "session_description \<Rightarrow> string option" where
  "get_first_bundle_mid sd =
     (case get_group_by_name ''BUNDLE'' sd of [] \<Rightarrow> Some [] | g # gs \<Rightarrow> at_index (cg_names g) 0)"

section \<open>Text form\<close>

abbreviation crlf :: string where "crlf \<equiv> [CHR 0x0D, CHR 0x0A]"

definition add_rtcp_fb_line :: "codec_info \<Rightarrow> string" where
  "add_rtcp_fb_line c = concat (map (\<lambda>p. ''a=rtcp-fb:'' @ dec_int (cd_id c) @ '' '' @ fb_id p @
     (if fb_param p = [] then [] else '' '' @ fb_param p) @ crlf) (cd_feedback c))"

definition add_fmtp_line :: "codec_info \<Rightarrow> string" where
  "add_fmtp_line c =
     (if cd_params c = [] then []
      else ''a=fmtp:'' @ dec_int (cd_id c) @ '' '' @
        tl (concat (map (\<lambda>(k, v). '';'' @ k @ ''='' @ v) (cd_params c))) @ crlf)"

text \<open>An audio content whose codec is not an audio codec would dereference null.\<close>

definition codec_lines :: "media_type \<Rightarrow> codec_info \<Rightarrow> string option" where
  "codec_lines t c =
     do { chan \<leftarrow> (if t = MEDIA_TYPE_AUDIO then do { n \<leftarrow> cd_channels c; Some (''/'' @ dec_int n) } else Some []);
          Some (''a=rtpmap:'' @ dec_int (cd_id c) @ '' '' @ cd_name c @ ''/'' @ dec_int (cd_clockrate c) @
                chan @ crlf @ add_rtcp_fb_line c @ add_fmtp_line c) }"

fun all_codec_lines :: "media_type \<Rightarrow> codec_info list \<Rightarrow> string option" where
  "all_codec_lines t [] = Some []"
| "all_codec_lines t (c # cs) = do { s \<leftarrow> codec_lines t c; r \<leftarrow> all_codec_lines t cs; Some (s @ r) }"

definition build_rtp_map :: "media_content \<Rightarrow> string option" where
  "build_rtp_map c = all_codec_lines (mc_type c) (mc_codecs c)"

primrec build_rtp_direction :: "rtp_direction \<Rightarrow> string" where
  "build_rtp_direction k_send_recv = ''a=sendrecv'' @ crlf"
| "build_rtp_direction k_send_only = ''a=sendonly'' @ crlf"
| "build_rtp_direction k_recv_only = ''a=recvonly'' @ crlf"
| "build_rtp_direction k_inactive = ''a=inactive'' @ crlf"

primrec connection_role_to_string :: "connection_role \<Rightarrow> string" where
  "connection_role_to_string ACTIVE = ''active''"
| "connection_role_to_string ACTPASS = ''actpass''"
| "connection_role_to_string PASSIVE = ''passive''"
| "connection_role_to_string HOLDCONN = ''holdconn''"
| "connection_role_to_string NONE = ''none''"

text \<open>\<open>server_addr\<close> is \<^verbatim>\<open>g_conf->server_addr\<close>.\<close>

definition candidate_line :: "rtcbase \<Rightarrow> string \<Rightarrow> candidate \<Rightarrow> string" where
  "candidate_line rt server_addr c =
     ''a=candidate:'' @ c_foundation c @ '' '' @ dec_digits (unat (component_id (c_component c))) @
     '' '' @ c_protocol c @ '' '' @ dec_digits (unat (c_priority c)) @
     (if IPIsPrivateNetwork rt (ipaddr (c_address c)) then '' '' @ server_addr
      else '' '' @ HostAsURIString rt (ipaddr (c_address c))) @
     '' '' @ dec_int (c_port c) @ '' typ '' @ c_type c @ crlf"

definition transport_lines :: "transport_description \<Rightarrow> string" where
  "transport_lines td =
     ''a=ice-ufrag:'' @ td_ice_ufrag td @ crlf @ ''a=ice-pwd:'' @ td_ice_pwd td @ crlf @
     (case td_fingerprint td of
        None \<Rightarrow> []
      | Some fp \<Rightarrow> ''a=fingerprint:'' @ fp_algorithm fp @ '' '' @ fp_text fp @ crlf @
          ''a=setup:'' @ connection_role_to_string (td_role td) @ crlf)"

definition content_lines :: "rtcbase \<Rightarrow> string \<Rightarrow> session_description \<Rightarrow> media_content \<Rightarrow> string option" where
  "content_lines rt server_addr sd c =
     do { rtp_map \<leftarrow> build_rtp_map c;
          Some (''m='' @ mc_mid c @ '' 9 UDP/TLS/RTP/SAVPF'' @
            concat (map (\<lambda>codec. '' '' @ dec_int (cd_id codec)) (mc_codecs c)) @ crlf @
            ''c=IN IP4 0.0.0.0'' @ crlf @ ''a=rtcp:9 IN IP4 0.0.0.0'' @ crlf @
            concat (map (candidate_line rt server_addr) (mc_candidates c)) @
            (case get_transport_info (mc_mid c) sd of None \<Rightarrow> [] | Some td \<Rightarrow> transport_lines td) @
            ''a=mid:'' @ mc_mid c @ crlf @ build_rtp_direction (mc_direction c) @
            (if mc_rtcp_mux c then ''a=rtcp-mux'' @ crlf else []) @ rtp_map) }"

fun all_content_lines :: "rtcbase \<Rightarrow> string \<Rightarrow> session_description \<Rightarrow> media_content list \<Rightarrow> string option" where
  "all_content_lines rt addr sd [] = Some []"
| "all_content_lines rt addr sd (c # cs) =
     do { s \<leftarrow> content_lines rt addr sd c; r \<leftarrow> all_content_lines rt addr sd cs; Some (s @ r) }"

definition sdp_to_string :: "rtcbase \<Rightarrow> string \<Rightarrow> session_description \<Rightarrow> string option" where
  "sdp_to_string rt server_addr sd =
     do { contents \<leftarrow> all_content_lines rt server_addr sd (sd_contents sd);
          let groups = get_group_by_name ''BUNDLE'' sd;
          Some (''v=0'' @ crlf @ ''o=- 0 2 IN IP4 127.0.0.1'' @ crlf @ ''s=-'' @ crlf @ ''t=0 0'' @ crlf @
            (if groups = [] then []
             else ''a=group:BUNDLE'' @
               concat (map (\<lambda>g. concat (map (\<lambda>n. '' '' @ n) (cg_names g))) groups) @ crlf) @
            ''a=msid-semantic: WMS'' @ crlf @ contents) }"

section \<open>Facts\<close>

lemma get_content_update:
  "get_content mid (sd\<lparr>sd_contents := update_content mid f (sd_contents sd)\<rparr>) =
     map_option f (get_content mid sd)"
  if "\<And>c. mc_type (f c) = mc_type c"
proof -
  have "find (\<lambda>c. mid = mc_mid c) (update_content mid f cs) =
      map_option f (find (\<lambda>c. mid = mc_mid c) cs)" for cs
    using that by (induction cs) auto
  then show ?thesis by (simp add: get_content_def)
qed

lemma get_transport_added:
  "get_transport_info mid (add_transport_td td sd) =
     (case get_transport_info mid sd of None \<Rightarrow> if td_mid td = mid then Some td else None | Some t \<Rightarrow> Some t)"
  by (simp add: get_transport_info_def add_transport_td_def find_append split: option.split)

end
