(* ===== verification/Transport_Controller.thy ===== *)
theory Transport_Controller
  imports Ice_Agent Ice_Channel_Properties Dtls_Transport Session_Description
begin

text \<open>
  \<^verbatim>\<open>src/pc/transport_controller.cpp\<close>: for every media section that is not bundled into another one, an
  ICE channel and a DTLS transport.  \<open>None\<close> is a null dereference or an access past the end.
\<close>

record transport_controller =
  tr_agent :: ice_agent
  tr_dtls :: "string \<rightharpoonup> dtls_transport"
  tr_certificate :: "nat option"

definition transport_controller_new :: transport_controller where
  "transport_controller_new = \<lparr>tr_agent = [], tr_dtls = Map.empty, tr_certificate = None\<rparr>"

definition tr_set_local_certificate :: "nat option \<Rightarrow> transport_controller \<Rightarrow> transport_controller" where
  "tr_set_local_certificate cert tr = tr\<lparr>tr_certificate := cert\<rparr>"

text \<open>\<^verbatim>\<open>_add_dtls_transport\<close>: the old transport of the name is deleted.\<close>

definition add_dtls_transport :: "dtls_transport \<Rightarrow> transport_controller \<Rightarrow> transport_controller" where
  "add_dtls_transport d tr = tr\<lparr>tr_dtls := (tr_dtls tr)(dt_name d \<mapsto> d)\<rparr>"

text \<open>Is the section carried by another one of its bundle?\<close>

definition bundled_away :: "string \<Rightarrow> session_description \<Rightarrow> bool option" where
  "bundled_away mid sd =
     (if is_bundle mid sd then do { f \<leftarrow> get_first_bundle_mid sd; Some (mid \<noteq> f) } else Some False)"

definition td_ice_parameters :: "transport_description \<Rightarrow> ice_parameters" where
  "td_ice_parameters td = \<lparr>ice_ufrag = td_ice_ufrag td, ice_pwd = td_ice_pwd td\<rparr>"

fun local_contents ::
    "agent_env \<Rightarrow> session_description \<Rightarrow> media_content list \<Rightarrow> transport_controller
      \<Rightarrow> transport_controller option" where
  "local_contents env sd [] tr = Some tr"
| "local_contents env sd (c # cs) tr =
     (let mid = mc_mid c in
      do { skip \<leftarrow> bundled_away mid sd;
           if skip then local_contents env sd cs tr
           else
             do { let ag = snd (create_channel env mid RTP (tr_agent tr));
                  ag \<leftarrow> (case get_transport_info mid sd of
                     None \<Rightarrow> Some ag
                   | Some td \<Rightarrow> agent_set_ice_params mid RTP (td_ice_parameters td) ag);
                  ch \<leftarrow> get_channel mid RTP ag;
                  let d = snd (dtls_set_local_certificate (tr_certificate tr) (dtls_transport_new ch));
                  local_contents env sd cs (add_dtls_transport d (tr\<lparr>tr_agent := ag\<rparr>)) } })"

text \<open>\<^verbatim>\<open>set_local_description\<close>; the candidate signals of gathering are part of the result.\<close>

definition set_local_description ::
    "agent_env \<Rightarrow> port_allocator \<Rightarrow> session_description option \<Rightarrow> transport_controller
      \<Rightarrow> (int \<times> transport_controller \<times> (string \<times> ice_component \<times> candidate list) list) option" where
  "set_local_description env pa desc tr =
     (case desc of
        None \<Rightarrow> Some (-1, tr, [])
      | Some sd \<Rightarrow>
          do { tr \<leftarrow> local_contents env sd (sd_contents sd) tr;
               let (ag, sigs) = agent_gathering env pa (tr_agent tr);
               Some (0, tr\<lparr>tr_agent := ag\<rparr>, sigs) })"

fun remote_contents ::
    "session_description \<Rightarrow> media_content list \<Rightarrow> transport_controller \<Rightarrow> transport_controller option" where
  "remote_contents sd [] tr = Some tr"
| "remote_contents sd (c # cs) tr =
     (let mid = mc_mid c in
      do { skip \<leftarrow> bundled_away mid sd;
           if skip then remote_contents sd cs tr
           else
             do { td \<leftarrow> get_transport_info mid sd;
                  ag \<leftarrow> agent_set_remote_ice_params mid RTP (td_ice_parameters td) (tr_agent tr);
                  remote_contents sd cs (tr\<lparr>tr_agent := ag\<rparr>) } })"

definition set_remote_description ::
    "session_description option \<Rightarrow> transport_controller \<Rightarrow> (int \<times> transport_controller) option" where
  "set_remote_description desc tr =
     (case desc of
        None \<Rightarrow> Some (-1, tr)
      | Some sd \<Rightarrow> do { tr \<leftarrow> remote_contents sd (sd_contents sd) tr; Some (0, tr) })"

section \<open>Channels and transports agree\<close>

text \<open>Every channel has a DTLS transport of its name and the other way round, with the certificate.\<close>

definition controller_inv :: "transport_controller \<Rightarrow> bool" where
  "controller_inv tr \<longleftrightarrow> agent_inv (tr_agent tr) \<and>
     (\<forall>ch \<in> set (tr_agent tr). ch_component ch = RTP) \<and>
     dom (tr_dtls tr) = ch_transport_name ` set (tr_agent tr) \<and>
     (\<forall>name d. tr_dtls tr name = Some d \<longrightarrow> dt_name d = name \<and> dtls_inv d)"

lemma agent_set_ice_params_names:
  "agent_set_ice_params mid cmp ps ag = Some ag' \<Longrightarrow>
     map (\<lambda>w. (ch_transport_name w, ch_component w)) ag' = map (\<lambda>w. (ch_transport_name w, ch_component w)) ag"
  unfolding agent_set_ice_params_def
  by (induction ag arbitrary: ag') (auto simp: set_ice_params_def split: if_splits Option.bind_splits)

lemma agent_set_ice_params_total: "\<exists>ag'. agent_set_ice_params mid cmp ps ag = Some ag'"
  unfolding agent_set_ice_params_def by (induction ag) auto

lemma names_eq:
  "map (\<lambda>w. (ch_transport_name w, ch_component w)) ag' = map (\<lambda>w. (ch_transport_name w, ch_component w)) ag \<Longrightarrow>
     agent_inv ag' = agent_inv ag \<and> ch_transport_name ` set ag' = ch_transport_name ` set ag \<and>
     ch_component ` set ag' = ch_component ` set ag"
proof -
  assume e: "map (\<lambda>w. (ch_transport_name w, ch_component w)) ag' = map (\<lambda>w. (ch_transport_name w, ch_component w)) ag"
  then have "map fst (map (\<lambda>w. (ch_transport_name w, ch_component w)) ag') = map fst (map (\<lambda>w. (ch_transport_name w, ch_component w)) ag)"
    "map snd (map (\<lambda>w. (ch_transport_name w, ch_component w)) ag') = map snd (map (\<lambda>w. (ch_transport_name w, ch_component w)) ag)"
    by simp_all
  then have "map ch_transport_name ag' = map ch_transport_name ag" "map ch_component ag' = map ch_component ag"
    by (simp_all add: comp_def)
  then show ?thesis using e by (metis agent_inv_def list.set_map)
qed

abbreviation channel_names :: "transport_controller \<Rightarrow> string set" where
  "channel_names tr \<equiv> ch_transport_name ` set (tr_agent tr)"

lemma dtls_new_inv:
  "dtls_inv (snd (dtls_set_local_certificate cert (dtls_transport_new ch)))"
  "dt_name (snd (dtls_set_local_certificate cert (dtls_transport_new ch))) = ch_transport_name ch"
  by (auto simp: dtls_inv_def dtls_set_local_certificate_def dtls_transport_new_def split: option.split)

lemma get_channel_Some: "get_channel mid cmp ag = Some ch \<Longrightarrow> ch \<in> set ag \<and> ch_transport_name ch = mid"
  by (auto simp: get_channel_def find_Some_iff is_channel_def)

lemma create_channel_names:
  "ch_transport_name ` set (snd (create_channel env mid cmp ag)) = insert mid (ch_transport_name ` set ag)"
proof (cases "get_channel mid cmp ag")
  case (Some ch)
  then have "mid \<in> ch_transport_name ` set ag" using get_channel_Some by blast
  then show ?thesis using Some by (simp add: create_channel_def insert_absorb)
qed (simp add: create_channel_def ice_channel_new_def)

lemma create_channel_component:
  "\<forall>ch \<in> set ag. ch_component ch = cmp \<Longrightarrow>
     \<forall>ch \<in> set (snd (create_channel env mid cmp ag)). ch_component ch = cmp"
  by (auto simp: create_channel_def ice_channel_new_def)

text \<open>Setting parameters keeps names and components, so a created channel is still found.\<close>

lemma local_channel:
  assumes inv: "agent_inv ag" "\<forall>ch \<in> set ag. ch_component ch = RTP"
  shows "\<exists>ag' ch. (case td of None \<Rightarrow> Some (snd (create_channel env mid RTP ag))
       | Some td \<Rightarrow> agent_set_ice_params mid RTP (td_ice_parameters td) (snd (create_channel env mid RTP ag))) = Some ag' \<and>
    get_channel mid RTP ag' = Some ch \<and> agent_inv ag' \<and> (\<forall>ch \<in> set ag'. ch_component ch = RTP) \<and>
    ch_transport_name ` set ag' = insert mid (ch_transport_name ` set ag)"
proof -
  let ?ag = "snd (create_channel env mid RTP ag)"
  obtain ag' where ag': "(case td of None \<Rightarrow> Some ?ag
      | Some td \<Rightarrow> agent_set_ice_params mid RTP (td_ice_parameters td) ?ag) = Some ag'"
    using agent_set_ice_params_total [of mid RTP "td_ice_parameters (the td)" ?ag] by (cases td) auto
  have n: "map (\<lambda>w. (ch_transport_name w, ch_component w)) ag' =
      map (\<lambda>w. (ch_transport_name w, ch_component w)) ?ag"
    using ag' agent_set_ice_params_names by (cases td) auto
  have i: "agent_inv ag'" "ch_transport_name ` set ag' = insert mid (ch_transport_name ` set ag)"
    "ch_component ` set ag' = ch_component ` set ?ag"
    using names_eq [OF n] create_channel_inv [OF inv(1)] create_channel_names by simp_all
  have c: "\<forall>ch \<in> set ag'. ch_component ch = RTP"
    using i(3) create_channel_component [OF inv(2)] by (metis (no_types, lifting) image_iff)
  obtain ch0 where "get_channel mid RTP ?ag = Some ch0" using get_created by blast
  then have "get_channel mid RTP ag' \<noteq> None"
    using get_channel_None [of mid RTP ag'] get_channel_None [of mid RTP ?ag] unfolding n by simp
  then show ?thesis using ag' i c by blast
qed

lemma local_contents_inv:
  assumes "controller_inv tr" "\<forall>c \<in> set cs. bundled_away (mc_mid c) sd \<noteq> None"
  shows "\<exists>tr'. local_contents env sd cs tr = Some tr' \<and> controller_inv tr' \<and>
    channel_names tr' = channel_names tr \<union> mc_mid ` set (filter (\<lambda>c. bundled_away (mc_mid c) sd = Some False) cs)"
  using assms
proof (induction cs arbitrary: tr)
  case (Cons c cs)
  obtain skip where skip: "bundled_away (mc_mid c) sd = Some skip" using Cons.prems(2) by auto
  show ?case
  proof (cases skip)
    case True
    then show ?thesis using Cons skip by auto
  next
    case False
    have inv: "agent_inv (tr_agent tr)" "\<forall>ch \<in> set (tr_agent tr). ch_component ch = RTP"
      using Cons.prems(1) by (simp_all add: controller_inv_def)
    obtain ag ch where ag: "(case get_transport_info (mc_mid c) sd of
          None \<Rightarrow> Some (snd (create_channel env (mc_mid c) RTP (tr_agent tr)))
        | Some td \<Rightarrow> agent_set_ice_params (mc_mid c) RTP (td_ice_parameters td)
            (snd (create_channel env (mc_mid c) RTP (tr_agent tr)))) = Some ag"
      "get_channel (mc_mid c) RTP ag = Some ch" "agent_inv ag" "\<forall>ch \<in> set ag. ch_component ch = RTP"
      "ch_transport_name ` set ag = insert (mc_mid c) (channel_names tr)"
      using local_channel [OF inv] by blast
    let ?tr = "add_dtls_transport (snd (dtls_set_local_certificate (tr_certificate tr) (dtls_transport_new ch)))
      (tr\<lparr>tr_agent := ag\<rparr>)"
    have "controller_inv ?tr"
      using Cons.prems(1) ag(3-5) get_channel_Some [OF ag(2)] dtls_new_inv
      by (auto simp: controller_inv_def add_dtls_transport_def)
    then obtain tr' where "local_contents env sd cs ?tr = Some tr'" "controller_inv tr'"
      "channel_names tr' = channel_names ?tr \<union> mc_mid ` set (filter (\<lambda>c. bundled_away (mc_mid c) sd = Some False) cs)"
      using Cons.IH [of ?tr] Cons.prems(2) by auto
    then show ?thesis using skip False ag(1,2,5) by (auto simp: add_dtls_transport_def Let_def)
  qed
qed simp

section \<open>Remote parameters\<close>

abbreviation channel_id :: "ice_channel \<Rightarrow> string \<times> ice_component" where
  "channel_id w \<equiv> (ch_transport_name w, ch_component w)"

lemma put_conn_id [simp]: "ch_transport_name (put_conn i c w) = ch_transport_name w" "ch_component (put_conn i c w) = ch_component w"
  by (simp_all add: put_conn_def)

lemma emit_id [simp]: "ch_transport_name (emit es w) = ch_transport_name w" "ch_component (emit es w) = ch_component w"
  by (simp_all add: emit_def)

lemma switch_id: "switch_selected_connection conn w = Some w' \<Longrightarrow> channel_id w' = channel_id w"
  by (auto simp: switch_selected_connection_def Let_def split: option.splits Option.bind_splits)

lemma update_state_id: "channel_update_state w = Some w' \<Longrightarrow> channel_id w' = channel_id w"
  by (auto simp: channel_update_state_def set_writable_def set_receiving_def Let_def
    split: option.splits Option.bind_splits if_splits)

lemma start_pinging_id: "maybe_start_pinging w = Some w' \<Longrightarrow> channel_id w' = channel_id w"
  by (auto simp: maybe_start_pinging_def time_millis_def Let_def split: Option.bind_splits if_splits)

lemma sort_id: "sort_connections_and_update_state w = Some w' \<Longrightarrow> channel_id w' = channel_id w"
proof -
  assume "sort_connections_and_update_state w = Some w'"
  then obtain ctl sw w1 w2 where "maybe_switch_selected_connection sw (w\<lparr>ch_ctl := ctl\<rparr>) = Some w1"
    "channel_update_state w1 = Some w2" "maybe_start_pinging w2 = Some w'"
    by (auto simp: sort_connections_and_update_state_def split: Option.bind_splits)
  then show ?thesis
    using switch_id [of sw "w\<lparr>ch_ctl := ctl\<rparr>" w1] update_state_id [of w1 w2] start_pinging_id [of w2 w']
    by (cases sw) (auto simp: maybe_switch_selected_connection_def)
qed

lemma set_remote_id: "set_remote_ice_params params w = Some w' \<Longrightarrow> channel_id w' = channel_id w"
proof -
  have p: "set_remote_params_of params is w = Some w' \<Longrightarrow> channel_id w' = channel_id w" for "is" w w'
    by (induction "is" arbitrary: w) (auto split: Option.bind_splits)
  assume "set_remote_ice_params params w = Some w'"
  then show ?thesis
    using p [of "ctl_connections (ch_ctl w)" "w\<lparr>ch_remote_params := params\<rparr>"]
    by (auto simp: set_remote_ice_params_def dest!: sort_id split: Option.bind_splits)
qed

text \<open>The invariant of the channels joins that of the controller; every operation keeps both.\<close>

definition transports_ok :: "transport_controller \<Rightarrow> bool" where
  "transports_ok tr \<longleftrightarrow> controller_inv tr \<and> list_all channel_inv (tr_agent tr)"

lemma agent_remote_ok:
  assumes "list_all channel_inv ag"
  shows "\<exists>ag'. agent_set_remote_ice_params mid cmp ps ag = Some ag' \<and> list_all channel_inv ag' \<and>
    map channel_id ag' = map channel_id ag"
  using assms
proof (induction ag)
  case (Cons w ws)
  then obtain ws' where "agent_set_remote_ice_params mid cmp ps ws = Some ws'" "list_all channel_inv ws'"
    "map channel_id ws' = map channel_id ws" by auto
  moreover obtain w' where "set_remote_ice_params ps w = Some w'" "channel_inv w'" "channel_id w' = channel_id w"
    using set_remote_inv [of w ps] set_remote_id [of ps w] Cons.prems by auto
  ultimately show ?case using Cons.prems by (simp add: agent_set_remote_ice_params_def)
qed (simp add: agent_set_remote_ice_params_def)

lemma controller_inv_agent:
  "controller_inv (tr\<lparr>tr_agent := ag\<rparr>) = controller_inv tr" if "map channel_id ag = map channel_id (tr_agent tr)"
proof -
  have "(\<forall>ch \<in> set ag. ch_component ch = RTP) = (\<forall>k \<in> ch_component ` set ag. k = RTP)" by blast
  also have "\<dots> = (\<forall>k \<in> ch_component ` set (tr_agent tr). k = RTP)" using names_eq [OF that] by simp
  also have "\<dots> = (\<forall>ch \<in> set (tr_agent tr). ch_component ch = RTP)" by blast
  finally show ?thesis using names_eq [OF that] by (simp add: controller_inv_def)
qed

lemma remote_contents_ok:
  assumes "transports_ok tr" "\<forall>c \<in> set cs. bundled_away (mc_mid c) sd = Some False"
    "\<forall>c \<in> set cs. get_transport_info (mc_mid c) sd \<noteq> None"
  shows "\<exists>tr'. remote_contents sd cs tr = Some tr' \<and> transports_ok tr' \<and>
    map channel_id (tr_agent tr') = map channel_id (tr_agent tr)"
  using assms
proof (induction cs arbitrary: tr)
  case (Cons c cs)
  obtain td where td: "get_transport_info (mc_mid c) sd = Some td" using Cons.prems(3) by auto
  obtain ag where ag: "agent_set_remote_ice_params (mc_mid c) RTP (td_ice_parameters td) (tr_agent tr) = Some ag"
    "list_all channel_inv ag" "map channel_id ag = map channel_id (tr_agent tr)"
    using agent_remote_ok Cons.prems(1) unfolding transports_ok_def by blast
  have "transports_ok (tr\<lparr>tr_agent := ag\<rparr>)"
    using Cons.prems(1) ag(2) controller_inv_agent [OF ag(3)] by (simp add: transports_ok_def)
  from Cons.IH [OF this] Cons.prems(2,3) show ?case using td ag(1,3) by (auto simp: Let_def)
qed simp


lemma set_ice_params_inv: "channel_inv w \<Longrightarrow> channel_inv (set_ice_params params w)"
  by (rule channel_step_inv [OF step_params])

lemma new_channel_inv: "channel_inv (ice_channel_new name cmp clk rnd)"
  by (rule channel_reach_inv [OF channel_init])

lemma create_channels_ok: "list_all channel_inv ag \<Longrightarrow> list_all channel_inv (snd (create_channel env mid cmp ag))"
  by (simp add: create_channel_def new_channel_inv)

lemma agent_params_ok:
  "list_all channel_inv ag \<Longrightarrow> agent_set_ice_params mid cmp ps ag = Some ag' \<Longrightarrow> list_all channel_inv ag'"
  unfolding agent_set_ice_params_def
  by (induction ag arbitrary: ag') (auto simp: set_ice_params_inv split: if_splits Option.bind_splits)

lemma local_contents_channels:
  "local_contents env sd cs tr = Some tr' \<Longrightarrow> list_all channel_inv (tr_agent tr) \<Longrightarrow>
     list_all channel_inv (tr_agent tr')"
proof (induction cs arbitrary: tr)
  case (Cons c cs)
  obtain skip where skip: "bundled_away (mc_mid c) sd = Some skip"
    using Cons.prems(1) by (auto simp: Let_def split: Option.bind_splits)
  show ?case
  proof (cases skip)
    case False
    with Cons.prems(1) skip obtain ag ch where
      ag: "(case get_transport_info (mc_mid c) sd of
          None \<Rightarrow> Some (snd (create_channel env (mc_mid c) RTP (tr_agent tr)))
        | Some td \<Rightarrow> agent_set_ice_params (mc_mid c) RTP (td_ice_parameters td)
            (snd (create_channel env (mc_mid c) RTP (tr_agent tr)))) = Some ag"
      and rest: "local_contents env sd cs (add_dtls_transport
        (snd (dtls_set_local_certificate (tr_certificate tr) (dtls_transport_new ch))) (tr\<lparr>tr_agent := ag\<rparr>)) = Some tr'"
      by (auto simp: Let_def split: Option.bind_splits)
    have "list_all channel_inv ag"
      using ag agent_params_ok [OF create_channels_ok [OF Cons.prems(2)]] create_channels_ok [OF Cons.prems(2)]
      by (cases "get_transport_info (mc_mid c) sd") auto
    then show ?thesis using Cons.IH [OF rest] by (simp add: add_dtls_transport_def)
  qed (use Cons skip in \<open>auto simp: Let_def\<close>)
qed simp

lemma transports_ok_new: "transports_ok (tr_set_local_certificate cert transport_controller_new)"
  by (simp add: transports_ok_def controller_inv_def transport_controller_new_def tr_set_local_certificate_def
    agent_inv_def)

text \<open>Gathering, then the whole of \<^verbatim>\<open>set_local_description\<close>.\<close>

lemma gather_ports_id: "channel_id (gather_ports rt mn mx nets w) = channel_id w"
  by (induction nets arbitrary: w) (auto simp: Let_def put_port_def split: prod.splits)

lemma gathering_ok:
  "map channel_id (fst (agent_gathering env pa ag)) = map channel_id ag \<and>
   (list_all channel_inv ag \<longrightarrow> list_all channel_inv (fst (agent_gathering env pa ag)))"
proof (induction ag)
  case (Cons w ws)
  have "channel_id (channel_gathering_candidate rt nets mn mx w) = channel_id w" for rt nets mn mx
    using gather_ports_id by (simp add: channel_gathering_candidate_def Let_def)
  then show ?case using Cons gathering_inv by (auto simp: Let_def split: prod.splits)
qed simp

lemma set_local_description_ok:
  assumes "transports_ok tr" "\<forall>c \<in> set (sd_contents sd). bundled_away (mc_mid c) sd \<noteq> None"
  shows "\<exists>tr' sigs. set_local_description env pa (Some sd) tr = Some (0, tr', sigs) \<and> transports_ok tr' \<and>
    channel_names tr' = channel_names tr \<union>
      mc_mid ` set (filter (\<lambda>c. bundled_away (mc_mid c) sd = Some False) (sd_contents sd))"
proof -
  obtain tr1 where tr1: "local_contents env sd (sd_contents sd) tr = Some tr1" "controller_inv tr1"
    "channel_names tr1 = channel_names tr \<union>
       mc_mid ` set (filter (\<lambda>c. bundled_away (mc_mid c) sd = Some False) (sd_contents sd))"
    using local_contents_inv assms unfolding transports_ok_def by blast
  have ch: "list_all channel_inv (tr_agent tr1)"
    using local_contents_channels [OF tr1(1)] assms(1) by (simp add: transports_ok_def)
  obtain ag sigs where g: "agent_gathering env pa (tr_agent tr1) = (ag, sigs)" by fastforce
  have ag: "map channel_id ag = map channel_id (tr_agent tr1)" "list_all channel_inv ag"
    using gathering_ok [of env pa "tr_agent tr1"] ch g by simp_all
  have "transports_ok (tr1\<lparr>tr_agent := ag\<rparr>)"
    using tr1(2) ag(2) controller_inv_agent [OF ag(1)] by (simp add: transports_ok_def)
  moreover have "channel_names (tr1\<lparr>tr_agent := ag\<rparr>) = channel_names tr1" using names_eq [OF ag(1)] by simp
  ultimately show ?thesis using tr1 g by (simp add: set_local_description_def)
qed

end
