(* ===== verification/Peer_Connection.thy ===== *)
theory Peer_Connection
  imports Transport_Controller "HOL-Library.Sublist"
begin

text \<open>
  \<^verbatim>\<open>src/pc/peer_connection.cpp\<close>: creating the offer and reading the answer.  \<open>None\<close> is an uncaught
  exception (\<^verbatim>\<open>std::out_of_range\<close> from \<^verbatim>\<open>substr\<close>) or a fault further down.
\<close>

section \<open>State\<close>

record offer_options =
  recv_audio :: bool
  recv_video :: bool
  use_rtp_mux :: bool
  send_audio :: bool
  send_video :: bool
  use_rtcp_mux :: bool
  dtls_on :: bool

definition offer_options_default :: offer_options where
  "offer_options_default = \<lparr>recv_audio = True, recv_video = True, use_rtp_mux = True,
     send_audio = True, send_video = True, use_rtcp_mux = True, dtls_on = True\<rparr>"

record peer_connection =
  pc_local_desc :: "session_description option"
  pc_remote_desc :: "session_description option"
  pc_certificate :: "nat option"
  pc_transport :: transport_controller

text \<open>
  The surroundings: those of the ICE agent, the TLS library, the port allocator, the two random
  generators of the credentials, the configured server address, and the value of an uninitialised
  direction field.
\<close>

record pc_env =
  pe_agent :: agent_env
  pe_ssl :: ssl_lib
  pe_allocator :: port_allocator
  pe_rand1 :: "nat \<Rightarrow> string"
  pe_rand2 :: "nat \<Rightarrow> string"
  pe_server_addr :: string
  pe_direction :: rtp_direction

abbreviation pe_rt :: "pc_env \<Rightarrow> rtcbase" where "pe_rt env \<equiv> ae_rt (pe_agent env)"

definition peer_connection_new :: peer_connection where
  "peer_connection_new = \<lparr>pc_local_desc = None, pc_remote_desc = None, pc_certificate = None,
     pc_transport = transport_controller_new\<rparr>"

definition pc_init :: "nat option \<Rightarrow> peer_connection \<Rightarrow> int \<times> peer_connection" where
  "pc_init cert pc =
     (0, pc\<lparr>pc_certificate := cert, pc_transport := tr_set_local_certificate cert (pc_transport pc)\<rparr>)"

section \<open>The offer\<close>

definition get_direction :: "bool \<Rightarrow> bool \<Rightarrow> rtp_direction" where
  "get_direction send recv =
     (if send \<and> recv then k_send_recv
      else if send \<and> \<not> recv then k_send_only
      else if \<not> send \<and> recv then k_recv_only
      else k_inactive)"

definition on_candidate_allocate_done ::
    "string \<Rightarrow> ice_component \<Rightarrow> candidate list \<Rightarrow> peer_connection \<Rightarrow> peer_connection" where
  "on_candidate_allocate_done name cmp cs pc =
     (case pc_local_desc pc of
        None \<Rightarrow> pc
      | Some sd \<Rightarrow> pc\<lparr>pc_local_desc := Some (sd\<lparr>sd_contents :=
          update_content name (\<lambda>c. c\<lparr>mc_candidates := cs\<rparr>) (sd_contents sd)\<rparr>)\<rparr>)"

text \<open>One media section of the offer.\<close>

definition offer_media ::
    "ssl_lib \<Rightarrow> offer_options \<Rightarrow> bool \<Rightarrow> bool \<Rightarrow> media_content \<Rightarrow> ice_parameters \<Rightarrow> nat option
      \<Rightarrow> session_description \<Rightarrow> session_description" where
  "offer_media ssl opt send recv content param cert sd =
     (let c = content\<lparr>mc_direction := get_direction send recv, mc_rtcp_mux := use_rtcp_mux opt\<rparr>
      in snd (add_transport_info ssl (mc_mid c) param cert (add_content c sd)))"

definition offer_description ::
    "pc_env \<Rightarrow> offer_options \<Rightarrow> nat option \<Rightarrow> session_description" where
  "offer_description env opt cert =
     (let param = create_random_ice_credentials (pe_rand1 env) (pe_rand2 env);
          sd = session_description_new k_offer;
          sd = (if recv_audio opt
                then offer_media (pe_ssl env) opt (send_audio opt) (recv_audio opt)
                       (audio_content (pe_direction env)) param cert sd else sd);
          sd = (if recv_video opt
                then offer_media (pe_ssl env) opt (send_video opt) (recv_video opt)
                       (video_content (pe_direction env)) param cert sd else sd)
      in if use_rtp_mux opt then
           let g = fold (\<lambda>c. add_content_name (mc_mid c)) (sd_contents sd)
                     \<lparr>cg_semantics = ''BUNDLE'', cg_names = []\<rparr>
           in if cg_names g \<noteq> [] then add_group g sd else sd
         else sd)"

definition pc_create_offer :: "pc_env \<Rightarrow> offer_options \<Rightarrow> peer_connection \<Rightarrow> (string \<times> peer_connection) option" where
  "pc_create_offer env opt pc =
     (if dtls_on opt \<and> pc_certificate pc = None then Some ([], pc)
      else
        let sd = offer_description env opt (pc_certificate pc) in
        do { (_, tr, sigs) \<leftarrow> set_local_description (pe_agent env) (pe_allocator env) (Some sd) (pc_transport pc);
             let pc = fold (\<lambda>(name, cmp, cs). on_candidate_allocate_done name cmp cs) sigs
                        (pc\<lparr>pc_local_desc := Some sd, pc_transport := tr\<rparr>);
             sd \<leftarrow> pc_local_desc pc;
             text \<leftarrow> sdp_to_string (pe_rt env) (pe_server_addr env) sd;
             Some (text, pc) })"

section \<open>The answer\<close>

text \<open>\<^verbatim>\<open>s.find(pat) != npos\<close>, \<^verbatim>\<open>s.substr(pos)\<close> and \<^verbatim>\<open>s.substr(0, s.length() - 1)\<close>.\<close>

definition substr_from :: "nat \<Rightarrow> string \<Rightarrow> string option" where
  "substr_from pos s = (if pos \<le> length s then Some (drop pos s) else None)"

definition chop :: "string \<Rightarrow> string" where
  "chop s = butlast s"

definition to_lower :: "char \<Rightarrow> char" where
  "to_lower c = (let n = of_char c :: nat in if 65 \<le> n \<and> n \<le> 90 then char_of (n + 32) else c)"

definition get_sdp_attribute :: "rtcbase \<Rightarrow> string \<Rightarrow> bool \<Rightarrow> string" where
  "get_sdp_attribute rt line is_rn =
     (case rtc_tokenize rt line (CHR '':'') of
        [f0, f1] \<Rightarrow> if is_rn then chop f1 else f0
      | _ \<Rightarrow> [])"

definition parse_transport_info ::
    "rtcbase \<Rightarrow> ssl_lib \<Rightarrow> transport_description \<Rightarrow> string \<Rightarrow> bool \<Rightarrow> (int \<times> transport_description) option" where
  "parse_transport_info rt ssl td line is_rn =
     (if sublist ''a=ice-ufrag'' line then
        let v = get_sdp_attribute rt line is_rn in
        Some (if v = [] then -1 else 0, td\<lparr>td_ice_ufrag := v\<rparr>)
      else if sublist ''a=ice-pwd'' line then
        let v = get_sdp_attribute rt line is_rn in
        Some (if v = [] then -1 else 0, td\<lparr>td_ice_pwd := v\<rparr>)
      else if sublist ''a=fingerprint'' line then
        (case rtc_tokenize rt line (CHR '' '') of
           [i0, i1] \<Rightarrow>
             do { alg \<leftarrow> substr_from 14 i0;
                  let fp = ssl_of_text ssl (map to_lower alg) (if is_rn then chop i1 else i1);
                  Some (if fp = None then -1 else 0, td\<lparr>td_fingerprint := fp\<rparr>) }
         | _ \<Rightarrow> Some (-1, td))
      else Some (0, td))"

text \<open>What the loop over the lines carries along.\<close>

record answer_state =
  an_media :: string
  an_desc :: session_description
  an_audio_td :: transport_description
  an_video_td :: transport_description

text \<open>
  The two branches on the line.  The branch for \<^verbatim>\<open>m=group:BUNDLE\<close> never fills its \<^verbatim>\<open>items\<close>, so all it
  does is to cut the line.  The result is the line, or an error.
\<close>

definition answer_media_line ::
    "pc_env \<Rightarrow> bool \<Rightarrow> string \<Rightarrow> answer_state \<Rightarrow> (int \<times> string \<times> answer_state) option" where
  "answer_media_line env is_rn field st =
     (if sublist ''m=group:BUNDLE'' field then Some (0, if is_rn then chop field else field, st)
      else if sublist ''m='' field then
        let items = rtc_split (pe_rt env) field (CHR '' '') in
        if length items \<le> 2 then Some (-1, field, st)
        else
          do { media \<leftarrow> substr_from 2 (hd items);
               let st = st\<lparr>an_media := media\<rparr>;
               Some (0, field,
                 if media = ''audio'' then
                   st\<lparr>an_desc := add_content (audio_content (pe_direction env)) (an_desc st),
                      an_audio_td := (an_audio_td st)\<lparr>td_mid := ''audio''\<rparr>\<rparr>
                 else if media = ''video'' then
                   st\<lparr>an_desc := add_content (video_content (pe_direction env)) (an_desc st),
                      an_video_td := (an_video_td st)\<lparr>td_mid := ''video''\<rparr>\<rparr>
                 else st) }
      else Some (0, field, st))"

definition answer_line :: "pc_env \<Rightarrow> bool \<Rightarrow> string \<Rightarrow> answer_state \<Rightarrow> (int \<times> answer_state) option" where
  "answer_line env is_rn field st =
     do { (ret, field, st) \<leftarrow> answer_media_line env is_rn field st;
          if ret \<noteq> 0 then Some (ret, st)
          else if an_media st = ''audio'' then
            do { (ret, td) \<leftarrow> parse_transport_info (pe_rt env) (pe_ssl env) (an_audio_td st) field is_rn;
                 Some (if ret \<noteq> 0 then -1 else 0, st\<lparr>an_audio_td := td\<rparr>) }
          else if an_media st = ''video'' then
            do { (ret, td) \<leftarrow> parse_transport_info (pe_rt env) (pe_ssl env) (an_video_td st) field is_rn;
                 Some (if ret \<noteq> 0 then -1 else 0, st\<lparr>an_video_td := td\<rparr>) }
          else Some (0, st) }"

fun answer_lines :: "pc_env \<Rightarrow> bool \<Rightarrow> string list \<Rightarrow> answer_state \<Rightarrow> (int \<times> answer_state) option" where
  "answer_lines env is_rn [] st = Some (0, st)"
| "answer_lines env is_rn (f # fs) st =
     do { (ret, st) \<leftarrow> answer_line env is_rn f st;
          if ret \<noteq> 0 then Some (ret, st) else answer_lines env is_rn fs st }"

definition answer_start :: answer_state where
  "answer_start = \<lparr>an_media = [], an_desc = session_description_new k_answer,
     an_audio_td = transport_description_new, an_video_td = transport_description_new\<rparr>"

definition set_remote_sdp :: "pc_env \<Rightarrow> string \<Rightarrow> peer_connection \<Rightarrow> (int \<times> peer_connection) option" where
  "set_remote_sdp env sdp pc =
     (let fields = rtc_tokenize (pe_rt env) sdp (CHR 0x0A); is_rn = sublist crlf sdp in
      if fields = [] then Some (-1, pc)
      else
        do { (ret, st) \<leftarrow> answer_lines env is_rn fields answer_start;
             if ret \<noteq> 0 then Some (-1, pc\<lparr>pc_remote_desc := Some (an_desc st)\<rparr>)
             else
               do { let sd = add_transport_td (an_video_td st) (add_transport_td (an_audio_td st) (an_desc st));
                    (_, tr) \<leftarrow> set_remote_description (Some sd) (pc_transport pc);
                    Some (0, pc\<lparr>pc_remote_desc := Some sd, pc_transport := tr\<rparr>) } })"

end
