(* ===== verification/Rtc_Stream.thy ===== *)
theory Rtc_Stream
  imports Peer_Connection Registry
begin

text \<open>
  \<^verbatim>\<open>src/stream/\<close>: a stream owns one peer connection; the manager of a worker keeps the push streams by
  name.  The raw pointers of the map are the streams themselves (a stream is only reachable through
  the map).
\<close>

section \<open>Streams\<close>

record rtc_stream =
  rs_uid :: u64
  rs_name :: string
  rs_audio :: bool
  rs_video :: bool
  rs_log_id :: u32
  rs_pc :: peer_connection

definition push_stream_new :: "u64 \<Rightarrow> string \<Rightarrow> bool \<Rightarrow> bool \<Rightarrow> u32 \<Rightarrow> rtc_stream" where
  "push_stream_new uid name audio video log_id =
     \<lparr>rs_uid = uid, rs_name = name, rs_audio = audio, rs_video = video, rs_log_id = log_id,
      rs_pc = peer_connection_new\<rparr>"

definition stream_start :: "nat option \<Rightarrow> rtc_stream \<Rightarrow> int \<times> rtc_stream" where
  "stream_start cert s = (case pc_init cert (rs_pc s) of (ret, pc) \<Rightarrow> (ret, s\<lparr>rs_pc := pc\<rparr>))"

definition stream_set_remote_sdp :: "pc_env \<Rightarrow> string \<Rightarrow> rtc_stream \<Rightarrow> (int \<times> rtc_stream) option" where
  "stream_set_remote_sdp env sdp s =
     do { (ret, pc) \<leftarrow> set_remote_sdp env sdp (rs_pc s); Some (ret, s\<lparr>rs_pc := pc\<rparr>) }"

text \<open>A push stream only receives.\<close>

definition push_options :: "bool \<Rightarrow> bool \<Rightarrow> offer_options" where
  "push_options audio video = offer_options_default
     \<lparr>send_audio := False, send_video := False, recv_audio := audio, recv_video := video\<rparr>"

definition push_create_offer :: "pc_env \<Rightarrow> rtc_stream \<Rightarrow> (string \<times> rtc_stream) option" where
  "push_create_offer env s =
     do { (offer, pc) \<leftarrow> pc_create_offer env (push_options (rs_audio s) (rs_video s)) (rs_pc s);
          Some (offer, s\<lparr>rs_pc := pc\<rparr>) }"

section \<open>The manager\<close>

record stream_manager =
  sm_streams :: "string \<rightharpoonup> rtc_stream"
  sm_allocator :: port_allocator

text \<open>The constructor: \<open>min_port\<close> and \<open>max_port\<close> are those of \<^verbatim>\<open>g_conf\<close>.\<close>

definition stream_manager_new ::
    "rtcbase \<Rightarrow> if_addr list option \<Rightarrow> int \<Rightarrow> int \<Rightarrow> stream_manager option" where
  "stream_manager_new rt interfaces min_port max_port =
     do { pa \<leftarrow> port_allocator_new rt interfaces;
          Some \<lparr>sm_streams = Map.empty, sm_allocator = set_port_range min_port max_port pa\<rparr> }"

definition find_push_stream :: "string \<Rightarrow> stream_manager \<Rightarrow> rtc_stream option" where
  "find_push_stream name m = sm_streams m name"

definition create_push_stream ::
    "pc_env \<Rightarrow> u64 \<Rightarrow> string \<Rightarrow> bool \<Rightarrow> bool \<Rightarrow> u32 \<Rightarrow> nat option \<Rightarrow> stream_manager
      \<Rightarrow> (int \<times> string \<times> stream_manager) option" where
  "create_push_stream env uid name audio video log_id cert m =
     (let m = (case find_push_stream name m of
                 None \<Rightarrow> m
               | Some _ \<Rightarrow> m\<lparr>sm_streams := (sm_streams m)(name := None)\<rparr>);
          s = snd (stream_start cert (push_stream_new uid name audio video log_id))
      in do { (offer, s) \<leftarrow> push_create_offer (env\<lparr>pe_allocator := sm_allocator m\<rparr>) s;
              Some (0, offer, m\<lparr>sm_streams := (sm_streams m)(name \<mapsto> s)\<rparr>) })"

definition set_answer ::
    "pc_env \<Rightarrow> u64 \<Rightarrow> string \<Rightarrow> string \<Rightarrow> string \<Rightarrow> u32 \<Rightarrow> stream_manager \<Rightarrow> (int \<times> stream_manager) option" where
  "set_answer env uid name answer stream_type log_id m =
     (if stream_type = ''push'' then
        (case find_push_stream name m of
           None \<Rightarrow> Some (-1, m)
         | Some s \<Rightarrow>
             if uid \<noteq> rs_uid s then Some (-1, m)
             else do { (_, s) \<leftarrow> stream_set_remote_sdp env answer s;
                       Some (0, m\<lparr>sm_streams := (sm_streams m)(name \<mapsto> s)\<rparr>) })
      else Some (0, m))"

end
