(* ===== verification/Rtc_Worker.thy ===== *)
theory Rtc_Worker
  imports Rtc_Stream Tcp_Connection
begin

text \<open>
  \<^verbatim>\<open>src/server/rtc_worker.cpp\<close>: a worker thread that owns the streams whose names hash to it.  A
  message for a signaling worker is part of the result: the address of the worker and the message.
\<close>

abbreviation RW_QUIT :: int where "RW_QUIT \<equiv> 0"
abbreviation RW_RTC_MSG :: int where "RW_RTC_MSG \<equiv> 1"

record rtc_worker =
  rw_thread :: bool
  rw_looping :: bool
  rw_pipe_watcher :: "io_watcher option"
  rw_recv_fd :: int
  rw_send_fd :: int
  rw_pipe :: "int list"
  rw_q_msg :: "rtc_msg lfq"
  rw_mgr :: stream_manager
  rw_closed :: "int list"

definition rtc_worker_new :: "nat \<Rightarrow> stream_manager \<Rightarrow> rtc_worker" where
  "rtc_worker_new dummy mgr =
     \<lparr>rw_thread = False, rw_looping = False, rw_pipe_watcher = None, rw_recv_fd = -1, rw_send_fd = -1,
      rw_pipe = [], rw_q_msg = lfq_new dummy rtc_msg_new, rw_mgr = mgr, rw_closed = []\<rparr>"

definition rw_init :: "io_watcher \<Rightarrow> (int \<times> int) option \<Rightarrow> rtc_worker \<Rightarrow> int \<times> rtc_worker" where
  "rw_init u fds w =
     (case fds of
        None \<Rightarrow> (-1, w)
      | Some (r, s) \<Rightarrow>
          (0, w\<lparr>rw_recv_fd := r, rw_send_fd := s,
                rw_pipe_watcher := Some (start_io_event (create_io_event u) r EV_LOOP_READ)\<rparr>))"

definition rw_start :: "rtc_worker \<Rightarrow> bool \<times> rtc_worker" where
  "rw_start w = (if rw_thread w then (False, w) else (True, w\<lparr>rw_thread := True, rw_looping := True\<rparr>))"

definition rw_notify :: "sys_result \<Rightarrow> int \<Rightarrow> rtc_worker \<Rightarrow> int \<times> rtc_worker" where
  "rw_notify r msg w = (notify r, w\<lparr>rw_pipe := pipe_write r msg (rw_pipe w)\<rparr>)"

definition rw_stop :: "sys_result \<Rightarrow> rtc_worker \<Rightarrow> rtc_worker" where
  "rw_stop r w = snd (rw_notify r RW_QUIT w)"

definition rw_push_msg :: "nat \<Rightarrow> rtc_msg \<Rightarrow> rtc_worker \<Rightarrow> rtc_worker option" where
  "rw_push_msg node msg w = do { q \<leftarrow> produce node msg (rw_q_msg w); Some (w\<lparr>rw_q_msg := q\<rparr>) }"

definition rw_pop_msg :: "rtc_worker \<Rightarrow> (rtc_msg option \<times> rtc_worker) option" where
  "rw_pop_msg w = do { (m, q) \<leftarrow> consume (rw_q_msg w); Some (m, w\<lparr>rw_q_msg := q\<rparr>) }"

definition rw_send_rtc_msg :: "nat \<Rightarrow> rtc_msg \<Rightarrow> sys_result \<Rightarrow> rtc_worker \<Rightarrow> (int \<times> rtc_worker) option" where
  "rw_send_rtc_msg node msg r w = do { w \<leftarrow> rw_push_msg node msg w; Some (rw_notify r RW_RTC_MSG w) }"

text \<open>The \<^verbatim>\<open>int\<close> flags of the message become \<^verbatim>\<open>bool\<close> parameters.\<close>

definition rw_process_push ::
    "pc_env \<Rightarrow> rtc_msg \<Rightarrow> rtc_worker \<Rightarrow> (rtc_worker \<times> (nat \<times> rtc_msg) list) option" where
  "rw_process_push env msg w =
     do { (_, offer, mgr) \<leftarrow> create_push_stream env (rm_uid msg) (rm_stream_name msg) (rm_audio msg \<noteq> 0)
            (rm_video msg \<noteq> 0) (rm_log_id msg) (rm_certificate msg) (rw_mgr w);
          let msg = msg\<lparr>rm_sdp := offer\<rparr>;
          Some (w\<lparr>rw_mgr := mgr\<rparr>, case rm_worker msg of None \<Rightarrow> [] | Some a \<Rightarrow> [(a, msg)]) }"

definition rw_process_answer :: "pc_env \<Rightarrow> rtc_msg \<Rightarrow> rtc_worker \<Rightarrow> rtc_worker option" where
  "rw_process_answer env msg w =
     do { (ret, mgr) \<leftarrow> set_answer env (rm_uid msg) (rm_stream_name msg) (rm_sdp msg) (rm_stream_type msg)
            (rm_log_id msg) (rw_mgr w);
          Some (w\<lparr>rw_mgr := mgr\<rparr>) }"

definition rw_process_rtc_msg ::
    "pc_env \<Rightarrow> rtc_worker \<Rightarrow> (rtc_worker \<times> (nat \<times> rtc_msg) list) option" where
  "rw_process_rtc_msg env w =
     do { (m, w) \<leftarrow> rw_pop_msg w;
          (case m of
             None \<Rightarrow> Some (w, [])
           | Some msg \<Rightarrow>
               if rm_cmdno msg = CMDNO_PUSH then rw_process_push env msg w
               else if rm_cmdno msg = CMDNO_ANSWER then do { w \<leftarrow> rw_process_answer env msg w; Some (w, []) }
               else Some (w, [])) }"

definition rw_stop_loop :: "rtc_worker \<Rightarrow> rtc_worker" where
  "rw_stop_loop w =
     (if \<not> rw_thread w then w
      else w\<lparr>rw_pipe_watcher := None, rw_looping := False,
             rw_closed := rw_closed w @ [rw_recv_fd w, rw_send_fd w]\<rparr>)"

definition rw_process_notify ::
    "pc_env \<Rightarrow> int \<Rightarrow> rtc_worker \<Rightarrow> (rtc_worker \<times> (nat \<times> rtc_msg) list) option" where
  "rw_process_notify env msg w =
     (if msg = RW_QUIT then Some (rw_stop_loop w, [])
      else if msg = RW_RTC_MSG then rw_process_rtc_msg env w
      else Some (w, []))"

definition rtc_worker_recv_notify ::
    "pc_env \<Rightarrow> rtc_worker \<Rightarrow> (rtc_worker \<times> (nat \<times> rtc_msg) list) option" where
  "rtc_worker_recv_notify env w =
     (case rw_pipe w of
        [] \<Rightarrow> Some (w, [])
      | msg # rest \<Rightarrow> rw_process_notify env msg (w\<lparr>rw_pipe := rest\<rparr>))"

section \<open>The mailbox\<close>

definition rw_recv :: "rtc_worker \<Rightarrow> (rtc_msg option \<times> rtc_worker) option" where
  "rw_recv w = rw_pop_msg (w\<lparr>rw_pipe := tl (rw_pipe w)\<rparr>)"

definition rw_ready :: "rtc_worker \<Rightarrow> bool" where
  "rw_ready w \<longleftrightarrow> rw_pipe w \<noteq> [] \<and> hd (rw_pipe w) = RW_RTC_MSG"

definition rw_other :: "rtc_worker \<Rightarrow> rtc_worker \<Rightarrow> bool" where
  "rw_other w w' \<longleftrightarrow> rw_q_msg w' = rw_q_msg w \<and>
     count_list (rw_pipe w') RW_RTC_MSG = count_list (rw_pipe w) RW_RTC_MSG"

interpretation rtc_mailbox: mailbox
  "\<lambda>w. lfq_inv (rw_q_msg w)" "\<lambda>w. lfq_contents (rw_q_msg w)"
  "\<lambda>w. count_list (rw_pipe w) RW_RTC_MSG" "\<lambda>a w. a \<notin> dom (nodes (rw_q_msg w))"
  rw_send_rtc_msg rw_ready rw_recv rw_other
proof
  fix w :: rtc_worker and a msg r
  assume "lfq_inv (rw_q_msg w)" "a \<notin> dom (nodes (rw_q_msg w))"
  from lfq.push_ok [OF this, of msg] obtain q' where
    "produce a msg (rw_q_msg w) = Some q'" "lfq_inv q'" "lfq_contents q' = lfq_contents (rw_q_msg w) @ [msg]"
    by blast
  then show "\<exists>s'. rw_send_rtc_msg a msg r w = Some (notify r, s') \<and> lfq_inv (rw_q_msg s') \<and>
      lfq_contents (rw_q_msg s') = lfq_contents (rw_q_msg w) @ [msg] \<and>
      count_list (rw_pipe s') RW_RTC_MSG = count_list (rw_pipe w) RW_RTC_MSG + (if notify r = 0 then 1 else 0)"
    by (simp add: rw_send_rtc_msg_def rw_push_msg_def rw_notify_def pipe_write_def)
next
  fix w :: rtc_worker assume "rw_ready w"
  then show "0 < count_list (rw_pipe w) RW_RTC_MSG" by (cases "rw_pipe w") (auto simp: rw_ready_def)
next
  fix w :: rtc_worker
  assume w: "lfq_inv (rw_q_msg w)" "rw_ready w" "lfq_contents (rw_q_msg w) = []"
  then show "\<exists>s'. rw_recv w = Some (None, s') \<and> lfq_inv (rw_q_msg s') \<and>
      lfq_contents (rw_q_msg s') = [] \<and>
      count_list (rw_pipe s') RW_RTC_MSG = count_list (rw_pipe w) RW_RTC_MSG - 1"
    using lfq.pop_empty [OF w(1,3)]
    by (cases "rw_pipe w") (auto simp: rw_recv_def rw_pop_msg_def rw_ready_def)
next
  fix w :: rtc_worker and x xs
  assume w: "lfq_inv (rw_q_msg w)" "rw_ready w" "lfq_contents (rw_q_msg w) = x # xs"
  from lfq.pop_front [OF w(1,3)] obtain q' where
    "consume (rw_q_msg w) = Some (Some x, q')" "lfq_inv q'" "lfq_contents q' = xs" by blast
  then show "\<exists>s'. rw_recv w = Some (Some x, s') \<and> lfq_inv (rw_q_msg s') \<and>
      lfq_contents (rw_q_msg s') = xs \<and>
      count_list (rw_pipe s') RW_RTC_MSG = count_list (rw_pipe w) RW_RTC_MSG - 1"
    using w(2) by (cases "rw_pipe w") (auto simp: rw_recv_def rw_pop_msg_def rw_ready_def)
qed (simp add: rw_other_def)

end
