(* ===== verification/Rtc_Server.thy ===== *)
theory Rtc_Server
  imports Rtc_Worker
begin

text \<open>
  \<^verbatim>\<open>src/server/rtc_server.cpp\<close>: the thread between the signaling workers and the RTC workers.  It
  hands a message to the worker its stream name hashes to, with the server's certificate.  The
  certificate library, \<^verbatim>\<open>time\<close>, the configuration and the system calls of start-up are parameters.
\<close>

abbreviation RV_QUIT :: int where "RV_QUIT \<equiv> 0"
abbreviation RV_RTC_MSG :: int where "RV_RTC_MSG \<equiv> 1"

record cert_env =
  ce_expired :: "nat \<Rightarrow> int \<Rightarrow> bool"
  ce_time :: int
  ce_generate :: "nat option"

record rtc_server =
  rv_worker_num :: int
  rv_workers :: "rtc_worker list"
  rv_certificate :: "nat option"
  rv_thread :: bool
  rv_looping :: bool
  rv_pipe_watcher :: "io_watcher option"
  rv_recv_fd :: int
  rv_send_fd :: int
  rv_pipe :: "int list"
  rv_q_msg :: "rtc_msg list"
  rv_closed :: "int list"

definition rtc_server_new :: rtc_server where
  "rtc_server_new = \<lparr>rv_worker_num = 0, rv_workers = [], rv_certificate = None, rv_thread = False,
     rv_looping = False, rv_pipe_watcher = None, rv_recv_fd = -1, rv_send_fd = -1, rv_pipe = [],
     rv_q_msg = [], rv_closed = []\<rparr>"

section \<open>Certificate and start-up\<close>

definition generate_and_check_certificate :: "cert_env \<Rightarrow> rtc_server \<Rightarrow> int \<times> rtc_server" where
  "generate_and_check_certificate ce s =
     (let s = (case rv_certificate s of
          None \<Rightarrow> s\<lparr>rv_certificate := ce_generate ce\<rparr>
        | Some c \<Rightarrow> if ce_expired ce c (ce_time ce * 1000) then s\<lparr>rv_certificate := ce_generate ce\<rparr> else s)
      in (if rv_certificate s = None then -1 else 0, s))"

record rtc_env =
  re_load :: "string \<Rightarrow> int option"
  re_cert :: cert_env
  re_pipe :: "(int \<times> int) option"
  re_worker_pipe :: "nat \<Rightarrow> (int \<times> int) option"
  re_dummy :: "nat \<Rightarrow> nat"
  re_uninit :: io_watcher
  re_rt :: rtcbase
  re_interfaces :: "if_addr list option"
  re_min_port :: int
  re_max_port :: int

definition rv_create_worker :: "rtc_env \<Rightarrow> nat \<Rightarrow> rtc_server \<Rightarrow> (int \<times> rtc_server) option" where
  "rv_create_worker env i s =
     do { mgr \<leftarrow> stream_manager_new (re_rt env) (re_interfaces env) (re_min_port env) (re_max_port env);
          Some (case rw_init (re_uninit env) (re_worker_pipe env i) (rtc_worker_new (re_dummy env i) mgr) of
            (ret, w) \<Rightarrow>
              if ret \<noteq> 0 then (-1, s)
              else (case rw_start w of
                      (ok, w) \<Rightarrow> if \<not> ok then (-1, s) else (0, s\<lparr>rv_workers := rv_workers s @ [w]\<rparr>))) }"

fun rv_create_workers :: "rtc_env \<Rightarrow> nat list \<Rightarrow> rtc_server \<Rightarrow> (int \<times> rtc_server) option" where
  "rv_create_workers env [] s = Some (0, s)"
| "rv_create_workers env (i # is) s =
     do { (ret, s) \<leftarrow> rv_create_worker env i s;
          if ret \<noteq> 0 then Some (-1, s) else rv_create_workers env is s }"

text \<open>Here the handler catches \<^verbatim>\<open>YAML::Exception&\<close>, so a bad configuration is an error return.\<close>

definition rv_init :: "rtc_env \<Rightarrow> string option \<Rightarrow> rtc_server \<Rightarrow> (int \<times> rtc_server) option" where
  "rv_init env conf_path s =
     (case conf_path of
        None \<Rightarrow> Some (-1, s)
      | Some path \<Rightarrow>
        (case re_load env path of
           None \<Rightarrow> Some (-1, s)
         | Some worker_num \<Rightarrow>
           (case generate_and_check_certificate (re_cert env) (s\<lparr>rv_worker_num := worker_num\<rparr>) of
              (ret, s) \<Rightarrow>
                if ret \<noteq> 0 then Some (-1, s)
                else case re_pipe env of
                  None \<Rightarrow> Some (-1, s)
                | Some (r, w) \<Rightarrow>
                    rv_create_workers env [0 ..< nat worker_num]
                      (s\<lparr>rv_recv_fd := r, rv_send_fd := w,
                         rv_pipe_watcher := Some (start_io_event (create_io_event (re_uninit env)) r EV_LOOP_READ)\<rparr>))))"

definition rv_start :: "rtc_server \<Rightarrow> bool \<times> rtc_server" where
  "rv_start s = (if rv_thread s then (False, s) else (True, s\<lparr>rv_thread := True, rv_looping := True\<rparr>))"

section \<open>Messages\<close>

definition rv_notify :: "sys_result \<Rightarrow> int \<Rightarrow> rtc_server \<Rightarrow> int \<times> rtc_server" where
  "rv_notify r msg s = (notify r, s\<lparr>rv_pipe := pipe_write r msg (rv_pipe s)\<rparr>)"

definition rv_stop :: "sys_result \<Rightarrow> rtc_server \<Rightarrow> rtc_server" where
  "rv_stop r s = snd (rv_notify r RV_QUIT s)"

definition rv_push_msg :: "rtc_msg \<Rightarrow> rtc_server \<Rightarrow> rtc_server" where
  "rv_push_msg msg s = s\<lparr>rv_q_msg := rv_q_msg s @ [msg]\<rparr>"

definition rv_pop_msg :: "rtc_server \<Rightarrow> rtc_msg option \<times> rtc_server" where
  "rv_pop_msg s = (case rv_q_msg s of [] \<Rightarrow> (None, s) | m # ms \<Rightarrow> (Some m, s\<lparr>rv_q_msg := ms\<rparr>))"

definition rv_send_rtc_msg :: "rtc_msg \<Rightarrow> sys_result \<Rightarrow> rtc_server \<Rightarrow> int \<times> rtc_server" where
  "rv_send_rtc_msg msg r s = rv_notify r RV_RTC_MSG (rv_push_msg msg s)"

text \<open>\<^verbatim>\<open>_get_worker\<close>: the index of the worker; \<open>None\<close> is \<^verbatim>\<open>nullptr\<close>.\<close>

definition rv_get_worker :: "rtcbase \<Rightarrow> string \<Rightarrow> rtc_server \<Rightarrow> nat option" where
  "rv_get_worker rt stream_name s =
     (if length (rv_workers s) = 0 \<or> int (length (rv_workers s)) \<noteq> rv_worker_num s then None
      else Some (unat (ComputeCrc32 rt stream_name mod word_of_int (rv_worker_num s))))"

text \<open>\<^verbatim>\<open>_process_rtc_msg\<close>: \<open>node\<close> and \<open>r\<close> are what the queue and the pipe of the worker use.\<close>

definition rv_process_rtc_msg ::
    "rtcbase \<Rightarrow> cert_env \<Rightarrow> nat \<Rightarrow> sys_result \<Rightarrow> rtc_server \<Rightarrow> rtc_server option" where
  "rv_process_rtc_msg rt ce node r s =
     (case rv_pop_msg s of
        (None, s) \<Rightarrow> Some s
      | (Some msg, s) \<Rightarrow>
        (case generate_and_check_certificate ce s of
           (ret, s) \<Rightarrow>
             if ret \<noteq> 0 then Some s
             else
               let msg = msg\<lparr>rm_certificate := rv_certificate s\<rparr> in
               case rv_get_worker rt (rm_stream_name msg) s of
                 None \<Rightarrow> Some s
               | Some index \<Rightarrow>
                   do { w \<leftarrow> at_index (rv_workers s) index;
                        (_, w) \<leftarrow> rw_send_rtc_msg node msg r w;
                        Some (s\<lparr>rv_workers := (rv_workers s)[index := w]\<rparr>) }))"

definition rv_stop_loop :: "sys_result \<Rightarrow> rtc_server \<Rightarrow> rtc_server" where
  "rv_stop_loop r s =
     (if \<not> rv_thread s then s
      else s\<lparr>rv_pipe_watcher := None, rv_looping := False,
             rv_closed := rv_closed s @ [rv_recv_fd s, rv_send_fd s],
             rv_workers := map (rw_stop r) (rv_workers s)\<rparr>)"

definition rv_process_notify ::
    "rtcbase \<Rightarrow> cert_env \<Rightarrow> nat \<Rightarrow> sys_result \<Rightarrow> int \<Rightarrow> rtc_server \<Rightarrow> rtc_server option" where
  "rv_process_notify rt ce node r msg s =
     (if msg = RV_QUIT then Some (rv_stop_loop r s)
      else if msg = RV_RTC_MSG then rv_process_rtc_msg rt ce node r s
      else Some s)"

text \<open>The callback of the pipe goes on after a failed \<^verbatim>\<open>read\<close> with the uninitialised \<^verbatim>\<open>msg\<close> (\<open>g\<close>).\<close>

definition rtc_server_recv_notify ::
    "rtcbase \<Rightarrow> cert_env \<Rightarrow> nat \<Rightarrow> sys_result \<Rightarrow> int \<Rightarrow> rtc_server \<Rightarrow> rtc_server option" where
  "rtc_server_recv_notify rt ce node r g s =
     (case rv_pipe s of
        [] \<Rightarrow> rv_process_notify rt ce node r g s
      | msg # rest \<Rightarrow> rv_process_notify rt ce node r msg (s\<lparr>rv_pipe := rest\<rparr>))"

section \<open>The mailbox\<close>

definition rv_recv :: "rtc_server \<Rightarrow> (rtc_msg option \<times> rtc_server) option" where
  "rv_recv s = Some (rv_pop_msg (s\<lparr>rv_pipe := tl (rv_pipe s)\<rparr>))"

definition rv_ready :: "rtc_server \<Rightarrow> bool" where
  "rv_ready s \<longleftrightarrow> rv_pipe s \<noteq> [] \<and> hd (rv_pipe s) = RV_RTC_MSG"

definition rv_other :: "rtc_server \<Rightarrow> rtc_server \<Rightarrow> bool" where
  "rv_other s s' \<longleftrightarrow> rv_q_msg s' = rv_q_msg s \<and>
     count_list (rv_pipe s') RV_RTC_MSG = count_list (rv_pipe s) RV_RTC_MSG"

interpretation server_mailbox: mailbox
  "\<lambda>s. True" rv_q_msg "\<lambda>s. count_list (rv_pipe s) RV_RTC_MSG" "\<lambda>(_ :: unit) s. True"
  "\<lambda>_ msg r s. Some (rv_send_rtc_msg msg r s)" rv_ready rv_recv rv_other
proof
  fix s :: rtc_server assume "rv_ready s"
  then show "0 < count_list (rv_pipe s) RV_RTC_MSG" by (cases "rv_pipe s") (auto simp: rv_ready_def)
next
  fix s :: rtc_server assume "rv_ready s" "rv_q_msg s = []"
  then show "\<exists>s'. rv_recv s = Some (None, s') \<and> True \<and> rv_q_msg s' = [] \<and>
      count_list (rv_pipe s') RV_RTC_MSG = count_list (rv_pipe s) RV_RTC_MSG - 1"
    by (cases "rv_pipe s") (auto simp: rv_ready_def rv_recv_def rv_pop_msg_def)
next
  fix s :: rtc_server and x xs assume "rv_ready s" "rv_q_msg s = x # xs"
  then show "\<exists>s'. rv_recv s = Some (Some x, s') \<and> True \<and> rv_q_msg s' = xs \<and>
      count_list (rv_pipe s') RV_RTC_MSG = count_list (rv_pipe s) RV_RTC_MSG - 1"
    by (cases "rv_pipe s") (auto simp: rv_ready_def rv_recv_def rv_pop_msg_def)
qed (simp_all add: rv_send_rtc_msg_def rv_notify_def rv_push_msg_def pipe_write_def rv_other_def)

section \<open>Routing\<close>

lemma get_worker_index:
  "rv_get_worker rt name s = Some i \<Longrightarrow> length (rv_workers s) < 2 ^ 31 \<Longrightarrow>
     i = unat (ComputeCrc32 rt name) mod length (rv_workers s) \<and> i < length (rv_workers s)"
proof -
  assume g: "rv_get_worker rt name s = Some i" and l: "length (rv_workers s) < 2 ^ 31"
  then have n: "rv_worker_num s = int (length (rv_workers s))" "0 < length (rv_workers s)"
    and i: "i = unat (ComputeCrc32 rt name mod word_of_int (rv_worker_num s))"
    by (auto simp: rv_get_worker_def split: if_splits)
  have "unat (word_of_int (rv_worker_num s) :: u32) = length (rv_workers s)"
    using n(1) l by (simp add: unat_of_nat take_bit_nat_eq_self)
  then have "i = unat (ComputeCrc32 rt name) mod length (rv_workers s)"
    using i by (simp add: unat_mod)
  with n(2) show ?thesis by simp
qed

lemma process_rtc_msg_spec:
  assumes "rv_q_msg s = msg # rest" "rv_workers s \<noteq> []"
    "rv_worker_num s = int (length (rv_workers s))" "length (rv_workers s) < 2 ^ 31"
    "\<forall>w \<in> set (rv_workers s). lfq_inv (rw_q_msg w) \<and> node \<notin> dom (nodes (rw_q_msg w))"
    "generate_and_check_certificate ce (s\<lparr>rv_q_msg := rest\<rparr>) = (ret, s2)"
    "i = unat (ComputeCrc32 rt (rm_stream_name msg)) mod length (rv_workers s)"
  shows "\<exists>w'. rw_send_rtc_msg node (msg\<lparr>rm_certificate := rv_certificate s2\<rparr>) r (rv_workers s ! i) = Some (notify r, w') \<and>
    lfq_inv (rw_q_msg w') \<and> lfq_contents (rw_q_msg w') =
      lfq_contents (rw_q_msg (rv_workers s ! i)) @ [msg\<lparr>rm_certificate := rv_certificate s2\<rparr>] \<and>
    rv_process_rtc_msg rt ce node r s =
      Some (if ret \<noteq> 0 then s2 else s2\<lparr>rv_workers := (rv_workers s)[i := w']\<rparr>) \<and>
    i < length (rv_workers s) \<and> rv_workers s2 = rv_workers s \<and> rv_q_msg s2 = rest \<and>
    (ret = 0 \<longrightarrow> rv_certificate s2 \<noteq> None) \<and> fst (generate_and_check_certificate ce s) = ret"
proof -
  have s2: "rv_workers s2 = rv_workers s" "rv_q_msg s2 = rest" "rv_worker_num s2 = rv_worker_num s"
    "ret = 0 \<longrightarrow> rv_certificate s2 \<noteq> None" "fst (generate_and_check_certificate ce s) = ret"
    using assms(6) by (auto simp: generate_and_check_certificate_def Let_def split: option.splits if_splits)
  have "\<exists>i. rv_get_worker rt (rm_stream_name msg) s2 = Some i"
    using assms(2,3) s2 by (simp add: rv_get_worker_def)
  then have g: "rv_get_worker rt (rm_stream_name msg) s2 = Some i" and i: "i < length (rv_workers s)"
    using get_worker_index [of rt "rm_stream_name msg" s2] s2(1) assms(4,7) by auto
  let ?w = "rv_workers s ! i" and ?m = "msg\<lparr>rm_certificate := rv_certificate s2\<rparr>"
  have "lfq_inv (rw_q_msg ?w)" "node \<notin> dom (nodes (rw_q_msg ?w))" using assms(5) i nth_mem by blast+
  then obtain w' where w': "rw_send_rtc_msg node ?m r ?w = Some (notify r, w')" "lfq_inv (rw_q_msg w')"
    "lfq_contents (rw_q_msg w') = lfq_contents (rw_q_msg ?w) @ [?m]"
    using rtc_mailbox.send_ok [of ?w node ?m r] by blast
  have "rv_process_rtc_msg rt ce node r s =
      Some (if ret \<noteq> 0 then s2 else s2\<lparr>rv_workers := (rv_workers s)[i := w']\<rparr>)"
    using assms(1,6) s2(1) g i w'(1) by (simp add: rv_process_rtc_msg_def rv_pop_msg_def Let_def)
  then show ?thesis using w' i s2 by blast
qed


definition sample_manager :: stream_manager where
  "sample_manager = \<lparr>sm_streams = Map.empty, sm_allocator = \<lparr>pa_networks = [], pa_min_port = 0, pa_max_port = 0\<rparr>\<rparr>"

definition sample_rtc_server :: rtc_server where
  "sample_rtc_server = rtc_server_new\<lparr>rv_worker_num := 1, rv_workers := [rtc_worker_new 0 sample_manager],
     rv_certificate := Some 8, rv_q_msg := [rtc_msg_new]\<rparr>"

definition sample_cert :: cert_env where
  "sample_cert = \<lparr>ce_expired = (\<lambda>c t. False), ce_time = 0, ce_generate = None\<rparr>"


end
