(* ===== verification/Grtc_Main.thy ===== *)
theory Grtc_Main
  imports Base_Log Base_Conf Signaling_Server Rtc_Server
begin

text \<open>
  \<^verbatim>\<open>src/main.cpp\<close>: start-up of the whole program up to the two joins, and the signal handler.  The
  globals of the file are the record \<open>prog\<close>; what the configuration files contain and what the system
  answers is the record \<open>main_env\<close>.  \<open>None\<close> is an exception nobody catches.
\<close>

record 's prog =
  g_conf :: "general_conf option"
  g_log :: "grtc_log option"
  g_signaling_server :: "'s sig_server option"
  g_rtc_server :: "rtc_server option"
  log_to_stderr :: bool

definition prog_new :: "'s prog" where
  "prog_new = \<lparr>g_conf = None, g_log = None, g_signaling_server = None, g_rtc_server = None,
     log_to_stderr = False\<rparr>"

record main_env =
  me_load :: "string \<Rightarrow> yaml option"
  me_mkdir :: sys_result
  me_open :: bool
  me_open_wf :: bool
  me_signaling :: server_env
  me_rtc :: rtc_env

definition init_general_conf :: "main_env \<Rightarrow> string option \<Rightarrow> 's prog \<Rightarrow> (int \<times> 's prog) option" where
  "init_general_conf env filename p =
     (if filename = None then Some (-1, p)
      else
        do { (ret, c) \<leftarrow> load_general_conf (me_load env) filename (Some general_conf_new);
             Some (if ret \<noteq> 0 then -1 else 0, p\<lparr>g_conf := c\<rparr>) })"

definition init_log :: "main_env \<Rightarrow> string \<Rightarrow> string \<Rightarrow> string \<Rightarrow> 's prog \<Rightarrow> int \<times> 's prog" where
  "init_log env dir name level p =
     (case log_init (me_mkdir env) (me_open env) (me_open_wf env) (grtc_log_new dir name level) of
        (ret, l) \<Rightarrow> (if ret \<noteq> 0 then -1 else 0, p\<lparr>g_log := Some l\<rparr>))"

definition init_signaling_server :: "main_env \<Rightarrow> string option \<Rightarrow> 's prog \<Rightarrow> (int \<times> 's prog) option" where
  "init_signaling_server env conf_path p =
     do { (ret, s) \<leftarrow> ss_init (me_signaling env) conf_path sig_server_new;
          Some (ret, p\<lparr>g_signaling_server := Some s\<rparr>) }"

text \<open>The port range of the stream managers is that of \<^verbatim>\<open>g_conf\<close>.\<close>

definition init_rtc_server :: "main_env \<Rightarrow> general_conf \<Rightarrow> string option \<Rightarrow> 's prog \<Rightarrow> (int \<times> 's prog) option" where
  "init_rtc_server env c conf_path p =
     do { (ret, s) \<leftarrow> rv_init ((me_rtc env)\<lparr>re_min_port := cf_ice_min_port c, re_max_port := cf_ice_max_port c\<rparr>)
            conf_path rtc_server_new;
          Some (if ret \<noteq> 0 then -1 else 0, p\<lparr>g_rtc_server := Some s\<rparr>) }"

text \<open>\<open>r\<close> is the result of the write to a pipe; the numbers are those of Linux.\<close>

abbreviation SIGINT :: int where "SIGINT \<equiv> 2"
abbreviation SIGTERM :: int where "SIGTERM \<equiv> 15"

definition process_signal :: "sys_result \<Rightarrow> int \<Rightarrow> 's prog \<Rightarrow> 's prog" where
  "process_signal r sig p =
     (if sig = SIGINT \<or> sig = SIGTERM then p\<lparr>g_signaling_server := map_option (ss_stop r) (g_signaling_server p),
                     g_rtc_server := map_option (rv_stop r) (g_rtc_server p)\<rparr>
      else p)"

text \<open>
  \<^verbatim>\<open>main\<close> up to the joins, as one function per stage.  The log thread is started before the result of
  \<^verbatim>\<open>init_log\<close> is looked at.
\<close>

definition main_start :: "'s prog \<Rightarrow> 's prog" where
  "main_start p = p\<lparr>g_signaling_server := map_option (snd \<circ> ss_start) (g_signaling_server p),
     g_rtc_server := map_option (snd \<circ> rv_start) (g_rtc_server p)\<rparr>"

definition main_servers :: "main_env \<Rightarrow> general_conf \<Rightarrow> 's prog \<Rightarrow> (int \<times> 's prog) option" where
  "main_servers env c p =
     do { (ret, p) \<leftarrow> init_signaling_server env (Some ''./conf/signaling_server.yaml'') p;
          if ret \<noteq> 0 then Some (-1, p)
          else
            do { (ret, p) \<leftarrow> init_rtc_server env c (Some ''./conf/rtc_server.yaml'') p;
                 if ret \<noteq> 0 then Some (-1, p) else Some (0, main_start p) } }"

definition main_log :: "main_env \<Rightarrow> general_conf \<Rightarrow> 's prog \<Rightarrow> (int \<times> 's prog) option" where
  "main_log env c p =
     (let (ret, p) = init_log env (cf_log_dir c) (cf_log_name c) (cf_log_level c) p;
          p = p\<lparr>g_log := map_option (snd \<circ> log_start) (g_log p)\<rparr>
      in if ret \<noteq> 0 then Some (-1, p) else main_servers env c (p\<lparr>log_to_stderr := cf_log_to_stderr c\<rparr>))"

definition grtc_main :: "main_env \<Rightarrow> (int \<times> 's prog) option" where
  "grtc_main env =
     do { (ret, p) \<leftarrow> init_general_conf env (Some ''./conf/general.yaml'') prog_new;
          if ret \<noteq> 0 then Some (-1, p) else do { c \<leftarrow> g_conf p; main_log env c p } }"

section \<open>Start and shut-down\<close>

definition worker_up :: "'s sig_worker \<Rightarrow> bool" where
  "worker_up w \<longleftrightarrow> sw_thread w \<and> sw_looping w \<and> sw_pipe w = []"

definition rtc_worker_up :: "rtc_worker \<Rightarrow> bool" where
  "rtc_worker_up w \<longleftrightarrow> rw_thread w \<and> rw_looping w \<and> rw_pipe w = []"

definition signaling_up :: "'s sig_server \<Rightarrow> bool" where
  "signaling_up s \<longleftrightarrow> ss_pipe s = [] \<and> length (ss_workers s) = nat (ss_worker_num s) \<and>
     list_all worker_up (ss_workers s)"

definition rtc_up :: "rtc_server \<Rightarrow> bool" where
  "rtc_up s \<longleftrightarrow> rv_pipe s = [] \<and> length (rv_workers s) = nat (rv_worker_num s) \<and>
     list_all rtc_worker_up (rv_workers s) \<and> rv_certificate s \<noteq> None"

lemma ss_create_worker_ok:
  "ss_create_worker env i s = (0, s') \<Longrightarrow> \<exists>w. s' = s\<lparr>ss_workers := ss_workers s @ [w]\<rparr> \<and> worker_up w"
  by (auto simp: ss_create_worker_def sw_init_def sw_start_def sig_worker_new_def worker_up_def
    split: prod.splits option.splits if_splits)

lemma ss_create_workers_ok:
  "ss_create_workers env is s = (0, s') \<Longrightarrow>
     \<exists>ws. s' = s\<lparr>ss_workers := ss_workers s @ ws\<rparr> \<and> length ws = length is \<and> list_all worker_up ws"
proof (induction "is" arbitrary: s)
  case (Cons i "is")
  obtain ret s1 where r: "ss_create_worker env i s = (ret, s1)" by fastforce
  with Cons.prems have ret: "ret = 0" and rest: "ss_create_workers env is s1 = (0, s')"
    by (auto split: if_splits)
  obtain w where w: "s1 = s\<lparr>ss_workers := ss_workers s @ [w]\<rparr>" "worker_up w"
    using ss_create_worker_ok r ret by blast
  obtain ws where "s' = s1\<lparr>ss_workers := ss_workers s1 @ ws\<rparr>" "length ws = length is" "list_all worker_up ws"
    using Cons.IH [OF rest] by blast
  then show ?case using w by (intro exI [of _ "w # ws"]) simp
qed simp

lemma ss_init_up: "ss_init env path sig_server_new = Some (0, s) \<Longrightarrow> signaling_up s"
  by (auto simp: ss_init_def signaling_up_def sig_server_new_def Let_def
    split: option.splits prod.splits if_splits Option.bind_splits dest!: ss_create_workers_ok)

lemma rv_create_worker_ok:
  "rv_create_worker env i s = Some (0, s') \<Longrightarrow>
     \<exists>w. s' = s\<lparr>rv_workers := rv_workers s @ [w]\<rparr> \<and> rtc_worker_up w"
  by (auto simp: rv_create_worker_def rw_init_def rw_start_def rtc_worker_new_def rtc_worker_up_def
    split: prod.splits option.splits if_splits Option.bind_splits)

lemma rv_create_workers_ok:
  "rv_create_workers env is s = Some (0, s') \<Longrightarrow>
     \<exists>ws. s' = s\<lparr>rv_workers := rv_workers s @ ws\<rparr> \<and> length ws = length is \<and> list_all rtc_worker_up ws"
proof (induction "is" arbitrary: s)
  case (Cons i "is")
  then obtain s1 where r: "rv_create_worker env i s = Some (0, s1)" and rest: "rv_create_workers env is s1 = Some (0, s')"
    by (auto split: Option.bind_splits if_splits)
  obtain w where w: "s1 = s\<lparr>rv_workers := rv_workers s @ [w]\<rparr>" "rtc_worker_up w"
    using rv_create_worker_ok r by blast
  obtain ws where "s' = s1\<lparr>rv_workers := rv_workers s1 @ ws\<rparr>" "length ws = length is" "list_all rtc_worker_up ws"
    using Cons.IH [OF rest] by blast
  then show ?case using w by (intro exI [of _ "w # ws"]) simp
qed simp

lemma rv_init_up: "rv_init env path rtc_server_new = Some (0, s) \<Longrightarrow> rtc_up s"
  by (auto simp: rv_init_def rtc_up_def rtc_server_new_def generate_and_check_certificate_def Let_def
    split: option.splits prod.splits if_splits Option.bind_splits dest!: rv_create_workers_ok)

text \<open>Both servers take the QUIT off their pipe, leave their loops and make every worker leave its own.\<close>

definition signaling_stops :: "int \<Rightarrow> ('j, 's::zero) sw_env \<Rightarrow> 's sig_server \<Rightarrow> bool" where
  "signaling_stops g wenv s \<longleftrightarrow>
     (let s' = signaling_server_recv_notify g (Done 4) s
      in \<not> ss_looping s' \<and> list_all (\<lambda>w. case signaling_worker_recv_notify wenv w of
           None \<Rightarrow> False | Some w' \<Rightarrow> \<not> sw_looping w') (ss_workers s'))"

definition rtc_stops :: "rtcbase \<Rightarrow> cert_env \<Rightarrow> nat \<Rightarrow> int \<Rightarrow> pc_env \<Rightarrow> rtc_server \<Rightarrow> bool" where
  "rtc_stops rt ce node g wenv s \<longleftrightarrow>
     (case rtc_server_recv_notify rt ce node (Done 4) g s of
        None \<Rightarrow> False
      | Some s' \<Rightarrow> \<not> rv_looping s' \<and> list_all (\<lambda>w. case rtc_worker_recv_notify wenv w of
           None \<Rightarrow> False | Some (w', _) \<Rightarrow> \<not> rw_looping w') (rv_workers s'))"

lemma notify_Done: "notify (Done 4) = 0" "pipe_write (Done 4) m xs = xs @ [m]"
  by (simp_all add: notify_def pipe_write_def)

lemma signaling_up_stops:
  "signaling_up s \<Longrightarrow> ss_thread s \<Longrightarrow> signaling_stops g wenv (ss_stop (Done 4) s)"
  by (auto simp: signaling_stops_def signaling_up_def ss_stop_def ss_notify_def notify_Done worker_up_def
      signaling_server_recv_notify_def ss_process_notify_def ss_stop_loop_def sw_stop_def sw_notify_def
      signaling_worker_recv_notify_def sw_process_notify_def sw_stop_loop_def list_all_iff)

lemma rtc_up_stops:
  "rtc_up s \<Longrightarrow> rv_thread s \<Longrightarrow> rtc_stops rt ce node g wenv (rv_stop (Done 4) s)"
  by (auto simp: rtc_stops_def rtc_up_def rv_stop_def rv_notify_def notify_Done rtc_worker_up_def
      rtc_server_recv_notify_def rv_process_notify_def rv_stop_loop_def rw_stop_def rw_notify_def
      rtc_worker_recv_notify_def rw_process_notify_def rw_stop_loop_def list_all_iff)

lemma ss_start_up: "signaling_up s \<Longrightarrow> signaling_up (snd (ss_start s)) \<and> ss_thread (snd (ss_start s))"
  by (simp add: ss_start_def signaling_up_def)

lemma rv_start_up: "rtc_up s \<Longrightarrow> rtc_up (snd (rv_start s)) \<and> rv_thread (snd (rv_start s))"
  by (simp add: rv_start_def rtc_up_def)

lemma ss_start_running: "\<not> ss_thread s \<Longrightarrow> ss_looping (snd (ss_start s))"
  by (simp add: ss_start_def)

lemma rv_start_running: "\<not> rv_thread s \<Longrightarrow> rv_looping (snd (rv_start s))"
  by (simp add: rv_start_def)

lemma ss_init_not_started: "ss_init env path sig_server_new = Some (ret, s) \<Longrightarrow> \<not> ss_thread s"
proof -
  have w: "ss_thread s' = ss_thread s" if "ss_create_workers e is s = (r, s')" for e "is" r and s s' :: "'a sig_server"
    using that by (induction "is" arbitrary: s)
      (auto simp: ss_create_worker_def split: prod.splits if_splits)
  assume "ss_init env path sig_server_new = Some (ret, s)"
  then show ?thesis
    by (auto simp: ss_init_def sig_server_new_def Let_def
      split: option.splits prod.splits if_splits Option.bind_splits dest!: w)
qed

lemma rv_init_not_started: "rv_init env path rtc_server_new = Some (ret, s) \<Longrightarrow> \<not> rv_thread s"
proof -
  have w: "rv_thread s' = rv_thread s" if "rv_create_workers e is s = Some (r, s')" for e "is" r s s'
    using that by (induction "is" arbitrary: s)
      (auto simp: rv_create_worker_def split: prod.splits if_splits Option.bind_splits)
  assume "rv_init env path rtc_server_new = Some (ret, s)"
  then show ?thesis
    by (auto simp: rv_init_def rtc_server_new_def generate_and_check_certificate_def Let_def
      split: option.splits prod.splits if_splits Option.bind_splits dest!: w)
qed

text \<open>No server was started, or both are up and a QUIT ends them.\<close>

definition not_started :: "'s prog \<Rightarrow> bool" where
  "not_started p \<longleftrightarrow> pred_option (\<lambda>s. \<not> ss_thread s) (g_signaling_server p) \<and>
     pred_option (\<lambda>s. \<not> rv_thread s) (g_rtc_server p)"

definition serving :: "'s prog \<Rightarrow> bool" where
  "serving p \<longleftrightarrow> (\<exists>s r. g_signaling_server p = Some s \<and> ss_looping s \<and> ss_thread s \<and> signaling_up s \<and>
     g_rtc_server p = Some r \<and> rv_looping r \<and> rv_thread r \<and> rtc_up r)"

lemma main_servers_result:
  fixes p p' :: "'s prog"
  assumes "main_servers env c p = Some (ret, p')" "g_rtc_server p = None"
  shows "g_conf p' = g_conf p \<and> g_log p' = g_log p \<and>
    (ret = -1 \<and> not_started p' \<or> ret = 0 \<and> serving p')"
proof -
  obtain sr s where s: "ss_init (me_signaling env) (Some ''./conf/signaling_server.yaml'') (sig_server_new :: 's sig_server) = Some (sr, s)"
    using assms by (auto simp: main_servers_def init_signaling_server_def split: Option.bind_splits)
  have s0: "\<not> ss_thread s" by (rule ss_init_not_started [OF s])
  show ?thesis
  proof (cases "sr = 0")
    case False
    then show ?thesis using assms s s0 by (auto simp: main_servers_def init_signaling_server_def not_started_def)
  next
    case sr: True
    let ?re = "(me_rtc env)\<lparr>re_min_port := cf_ice_min_port c, re_max_port := cf_ice_max_port c\<rparr>"
    obtain rr r where r: "rv_init ?re (Some ''./conf/rtc_server.yaml'') rtc_server_new = Some (rr, r)"
      using assms s sr
      by (auto simp: main_servers_def init_signaling_server_def init_rtc_server_def split: Option.bind_splits)
    have r0: "\<not> rv_thread r" by (rule rv_init_not_started [OF r])
    have main: "main_servers env c p = Some (if rr \<noteq> 0
        then (-1, p\<lparr>g_signaling_server := Some s, g_rtc_server := Some r\<rparr>)
        else (0, main_start (p\<lparr>g_signaling_server := Some s, g_rtc_server := Some r\<rparr>)))"
      using s sr r by (simp add: main_servers_def init_signaling_server_def init_rtc_server_def)
    show ?thesis
    proof (cases "rr = 0")
      case True
      then show ?thesis using assms(1) main ss_start_up [OF ss_init_up [OF s [unfolded sr]]]
          rv_start_up [OF rv_init_up [OF r [unfolded True]]] ss_start_running [OF s0] rv_start_running [OF r0]
        by (auto simp: main_start_def serving_def)
    qed (use assms(1) main s0 r0 in \<open>auto simp: not_started_def\<close>)
  qed
qed

lemma main_log_result:
  assumes "main_log env c p = Some (ret, p')" "g_rtc_server p = None" "g_signaling_server p = None"
  shows "g_conf p' = g_conf p \<and> (\<exists>l. g_log p' = Some l \<and> lg_running l \<and>
    (ret = -1 \<and> not_started p' \<or> ret = 0 \<and> streams_ok l \<and> serving p'))"
proof -
  obtain lr l where l: "log_init (me_mkdir env) (me_open env) (me_open_wf env)
      (grtc_log_new (cf_log_dir c) (cf_log_name c) (cf_log_level c)) = (lr, l)" by fastforce
  have run: "lg_running (snd (log_start l))" by (simp add: log_start_def)
  show ?thesis
  proof (cases "lr = 0")
    case True
    then have "streams_ok (snd (log_start l))" using l log_init_ok log_start_total(1) by metis
    then show ?thesis
      using main_servers_result [of env c "p\<lparr>g_log := Some (snd (log_start l)), log_to_stderr := cf_log_to_stderr c\<rparr>"]
        assms l run True by (auto simp: main_log_def init_log_def)
  qed (use assms l run in \<open>auto simp: main_log_def init_log_def not_started_def\<close>)
qed


text \<open>A configuration with one worker of each kind, on a machine where every call succeeds.\<close>

definition sample_watcher :: io_watcher where
  "sample_watcher = \<lparr>w_active = False, w_fd = 0, w_events = 0\<rparr>"

definition sample_main_env :: main_env where
  "sample_main_env = \<lparr>me_load = (\<lambda>_. Some \<lparr>y_string = (\<lambda>_. Some ''x''), y_int = (\<lambda>_. Some 10000), y_bool = (\<lambda>_. Some True)\<rparr>),
     me_mkdir = Fail EEXIST, me_open = True, me_open_wf = True,
     me_signaling = \<lparr>sv_load = (\<lambda>_. Some (''0.0.0.0'', 9000, 60, 1)), sv_pipe = Some (5, 6), sv_socket = Done 7,
       sv_setsockopt = Done 0, sv_bind = (\<lambda>_ _. Done 0), sv_listen = Done 0, sv_aton = (\<lambda>_. Some 0),
       sv_worker_pipe = (\<lambda>_. Some (8, 9)), sv_dummy = (\<lambda>_. 0), sv_uninit = sample_watcher\<rparr>,
     me_rtc = \<lparr>re_load = (\<lambda>_. Some 1),
       re_cert = \<lparr>ce_expired = (\<lambda>_ _. False), ce_time = 0, ce_generate = Some 1\<rparr>,
       re_pipe = Some (10, 11), re_worker_pipe = (\<lambda>_. Some (12, 13)), re_dummy = (\<lambda>_. 0),
       re_uninit = sample_watcher, re_rt = ref_rtc, re_interfaces = Some [], re_min_port = 0, re_max_port = 0\<rparr>\<rparr>"

lemma sample_main_serves: "\<exists>p. grtc_main sample_main_env = Some (0, p)"
  by (simp add: grtc_main_def main_log_def main_servers_def init_general_conf_def init_log_def
    init_signaling_server_def init_rtc_server_def sample_main_env_def load_general_conf_def read_conf_def
    log_init_def grtc_log_new_def ofstream_new_def of_do_open_def ss_init_def create_tcp_server_def
    ss_create_worker_def sw_init_def sw_start_def sig_worker_new_def rv_init_def rtc_server_new_def
    generate_and_check_certificate_def rv_create_worker_def rw_init_def rw_start_def rtc_worker_new_def
    stream_manager_new_def port_allocator_new_def create_networks_def Let_def)


end
