(* ===== verification/Rtc_Worker_Properties.thy ===== *)
theory Rtc_Worker_Properties
  imports Rtc_Worker
begin

text \<open>
  What an RTC worker does with the two kinds of messages: a push always yields an offer that goes back to
  where the push came from, and an answer reaches only the stream it belongs to.
\<close>

section \<open>The offer\<close>

definition wanted :: "bool \<Rightarrow> bool \<Rightarrow> media_type list" where
  "wanted audio video = (if audio then [MEDIA_TYPE_AUDIO] else []) @ (if video then [MEDIA_TYPE_VIDEO] else [])"

definition receive_only :: "media_content \<Rightarrow> bool" where
  "receive_only c \<longleftrightarrow> mc_direction c = k_recv_only \<and> mc_rtcp_mux c \<and>
     mc_codecs c = (case mc_type c of MEDIA_TYPE_AUDIO \<Rightarrow> [opus_codec] | MEDIA_TYPE_VIDEO \<Rightarrow> [h264_codec, rtx_codec])"

lemma add_transport_contents:
  "sd_contents (snd (add_transport_info ssl mid param cert sd)) = sd_contents sd"
  "sd_groups (snd (add_transport_info ssl mid param cert sd)) = sd_groups sd"
  by (simp_all add: add_transport_info_def Let_def)

lemma offer_contents:
  "sd_contents (offer_description env (push_options audio video) cert) =
     (if audio then [(audio_content (pe_direction env))\<lparr>mc_direction := k_recv_only, mc_rtcp_mux := True\<rparr>] else []) @
     (if video then [(video_content (pe_direction env))\<lparr>mc_direction := k_recv_only, mc_rtcp_mux := True\<rparr>] else [])"
  by (simp add: offer_description_def offer_media_def push_options_def offer_options_default_def
    get_direction_def add_group_def add_transport_contents add_content_def session_description_new_def Let_def)

lemma offer_groups:
  "sd_groups (offer_description env (push_options audio video) cert) =
     (if wanted audio video = [] then []
      else [\<lparr>cg_semantics = ''BUNDLE'', cg_names = map media_mid (wanted audio video)\<rparr>])"
  by (simp add: offer_description_def offer_media_def push_options_def offer_options_default_def wanted_def
    get_direction_def add_group_def add_transport_contents add_content_def session_description_new_def Let_def
    audio_content_def video_content_def add_content_name_def has_content_name_def)

definition offer_shape :: "pc_env \<Rightarrow> bool \<Rightarrow> bool \<Rightarrow> nat option \<Rightarrow> session_description \<Rightarrow> bool" where
  "offer_shape env audio video cert sd \<longleftrightarrow>
     map mc_type (sd_contents sd) = wanted audio video \<and> list_all receive_only (sd_contents sd) \<and>
     sd_groups sd = sd_groups (offer_description env (push_options audio video) cert) \<and>
     sd_transports sd = sd_transports (offer_description env (push_options audio video) cert)"

lemma offer_shape_new: "offer_shape env audio video cert (offer_description env (push_options audio video) cert)"
  by (simp add: offer_shape_def offer_contents wanted_def receive_only_def audio_content_def video_content_def)

lemma update_content_shape:
  assumes "\<And>c. mc_type (f c) = mc_type c" "\<And>c. receive_only c \<Longrightarrow> receive_only (f c)"
  shows "map mc_type (update_content mid f cs) = map mc_type cs \<and>
    (list_all receive_only cs \<longrightarrow> list_all receive_only (update_content mid f cs))"
  using assms by (induction cs) auto

lemma candidates_shape:
  assumes "pc_local_desc pc = Some sd" "offer_shape env audio video cert sd"
  shows "\<exists>sd'. pc_local_desc (fold (\<lambda>(name, cmp, cs). on_candidate_allocate_done name cmp cs) sigs pc) = Some sd' \<and>
    offer_shape env audio video cert sd' \<and>
    pc_transport (fold (\<lambda>(name, cmp, cs). on_candidate_allocate_done name cmp cs) sigs pc) = pc_transport pc \<and>
    pc_certificate (fold (\<lambda>(name, cmp, cs). on_candidate_allocate_done name cmp cs) sigs pc) = pc_certificate pc"
  using assms
proof (induction sigs arbitrary: pc sd)
  case (Cons x sigs)
  obtain name cmp cs where x: "x = (name, cmp, cs)" by (cases x)
  let ?sd = "sd\<lparr>sd_contents := update_content name (\<lambda>c. c\<lparr>mc_candidates := cs\<rparr>) (sd_contents sd)\<rparr>"
  have "offer_shape env audio video cert ?sd"
    using Cons.prems(2) update_content_shape [of "\<lambda>c. c\<lparr>mc_candidates := cs\<rparr>" name "sd_contents sd"]
    by (auto simp: offer_shape_def receive_only_def)
  then show ?case
    using Cons.IH [of "on_candidate_allocate_done name cmp cs pc" ?sd] Cons.prems(1) x
    by (simp add: on_candidate_allocate_done_def)
qed auto

lemma receive_only_lines: "receive_only c \<Longrightarrow> \<exists>s. content_lines rt addr sd c = Some s"
  by (cases "mc_type c")
    (simp_all add: content_lines_def build_rtp_map_def receive_only_def codec_lines_def opus_codec_def)

lemma receive_only_contents: "list_all receive_only cs \<Longrightarrow> \<exists>s. all_content_lines rt addr sd cs = Some s"
proof (induction cs)
  case (Cons c cs)
  then show ?case using receive_only_lines [of c rt addr sd] by auto
qed simp

lemma receive_only_text: "list_all receive_only (sd_contents sd) \<Longrightarrow> \<exists>s. sdp_to_string rt addr sd = Some s"
  using receive_only_contents [of "sd_contents sd" rt addr sd] unfolding sdp_to_string_def Let_def by auto

lemma offer_bundled_away:
  assumes "c \<in> set (sd_contents (offer_description env (push_options audio video) cert))"
  shows "bundled_away (mc_mid c) (offer_description env (push_options audio video) cert) =
    Some (mc_type c \<noteq> hd (wanted audio video))"
  using assms
  by (auto simp: bundled_away_def is_bundle_def get_first_bundle_mid_def get_group_by_name_def offer_groups
    offer_contents wanted_def audio_content_def video_content_def split: if_splits)


text \<open>The offer of a push stream exists, and the channel and the transport are those of its first section.\<close>

lemma push_offer_exists:
  fixes env audio video cert
  defines "pc \<equiv> snd (pc_init cert peer_connection_new)"
  shows "\<exists>offer pc'. pc_create_offer env (push_options audio video) pc = Some (offer, pc') \<and>
    pc_certificate pc' = cert \<and> transports_ok (pc_transport pc') \<and>
    (if cert = None then offer = [] \<and> pc_local_desc pc' = None
     else channel_names (pc_transport pc') = media_mid ` set (take 1 (wanted audio video)) \<and>
       (\<exists>sd. pc_local_desc pc' = Some sd \<and> offer_shape env audio video cert sd \<and>
         sdp_to_string (pe_rt env) (pe_server_addr env) sd = Some offer))"
proof (cases cert)
  case None
  then show ?thesis
    by (simp add: pc_create_offer_def pc_def pc_init_def peer_connection_new_def push_options_def
      offer_options_default_def transports_ok_new)
next
  case (Some a)
  let ?sd = "offer_description env (push_options audio video) cert"
  have pc: "pc_certificate pc = cert" "transports_ok (pc_transport pc)" "channel_names (pc_transport pc) = {}"
    by (simp_all add: pc_def pc_init_def peer_connection_new_def transports_ok_new)
      (simp add: tr_set_local_certificate_def transport_controller_new_def)
  have away: "\<forall>c \<in> set (sd_contents ?sd). bundled_away (mc_mid c) ?sd \<noteq> None"
    using offer_bundled_away by blast
  obtain tr sigs where tr: "set_local_description (pe_agent env) (pe_allocator env) (Some ?sd) (pc_transport pc) =
      Some (0, tr, sigs)" "transports_ok tr"
    "channel_names tr = mc_mid ` set (filter (\<lambda>c. bundled_away (mc_mid c) ?sd = Some False) (sd_contents ?sd))"
    using set_local_description_ok [OF pc(2) away, of "pe_agent env" "pe_allocator env"] pc(3) by auto
  have first: "filter (\<lambda>c. bundled_away (mc_mid c) ?sd = Some False) (sd_contents ?sd) =
      filter (\<lambda>c. mc_type c = hd (wanted audio video)) (sd_contents ?sd)"
    by (rule filter_cong [OF refl]) (simp add: offer_bundled_away)
  have names: "mc_mid ` set (filter (\<lambda>c. bundled_away (mc_mid c) ?sd = Some False) (sd_contents ?sd)) =
      media_mid ` set (take 1 (wanted audio video))"
    unfolding first by (simp add: offer_contents wanted_def audio_content_def video_content_def del: set_filter)
  let ?pc = "pc\<lparr>pc_local_desc := Some ?sd, pc_transport := tr\<rparr>"
  obtain sd where sd: "pc_local_desc (fold (\<lambda>(name, cmp, cs). on_candidate_allocate_done name cmp cs) sigs ?pc) = Some sd"
    "offer_shape env audio video cert sd"
    "pc_transport (fold (\<lambda>(name, cmp, cs). on_candidate_allocate_done name cmp cs) sigs ?pc) = tr"
    "pc_certificate (fold (\<lambda>(name, cmp, cs). on_candidate_allocate_done name cmp cs) sigs ?pc) = cert"
    using candidates_shape [of ?pc ?sd env audio video cert sigs] offer_shape_new pc(1) by auto
  obtain offer where "sdp_to_string (pe_rt env) (pe_server_addr env) sd = Some offer"
    using receive_only_text sd(2) unfolding offer_shape_def by blast
  then show ?thesis using Some pc(1) tr sd names by (simp add: pc_create_offer_def Let_def)
qed

section \<open>Pushes\<close>

definition mgr_ok :: "stream_manager \<Rightarrow> bool" where
  "mgr_ok m \<longleftrightarrow> (\<forall>name s. sm_streams m name = Some s \<longrightarrow>
     rs_name s = name \<and> transports_ok (pc_transport (rs_pc s)))"

text \<open>What a push stream is after its offer was made.\<close>

definition offered :: "pc_env \<Rightarrow> rtc_msg \<Rightarrow> string \<Rightarrow> rtc_stream \<Rightarrow> bool" where
  "offered env msg offer s \<longleftrightarrow>
     rs_uid s = rm_uid msg \<and> rs_name s = rm_stream_name msg \<and> pc_certificate (rs_pc s) = rm_certificate msg \<and>
     transports_ok (pc_transport (rs_pc s)) \<and>
     (let audio = rm_audio msg \<noteq> 0; video = rm_video msg \<noteq> 0 in
      if rm_certificate msg = None then offer = [] \<and> pc_local_desc (rs_pc s) = None
      else channel_names (pc_transport (rs_pc s)) = media_mid ` set (take 1 (wanted audio video)) \<and>
        (\<exists>sd. pc_local_desc (rs_pc s) = Some sd \<and> offer_shape env audio video (rm_certificate msg) sd \<and>
          sdp_to_string (pe_rt env) (pe_server_addr env) sd = Some offer))"

lemma offer_description_allocator [simp]:
  "offer_description (env\<lparr>pe_allocator := pa\<rparr>) opt cert = offer_description env opt cert"
  by (simp add: offer_description_def Let_def)

lemma offer_shape_allocator [simp]:
  "offer_shape (env\<lparr>pe_allocator := pa\<rparr>) audio video cert sd = offer_shape env audio video cert sd"
  by (simp add: offer_shape_def)

lemma create_push_stream_offers:
  "\<exists>offer s. create_push_stream env (rm_uid msg) (rm_stream_name msg) (rm_audio msg \<noteq> 0) (rm_video msg \<noteq> 0)
      (rm_log_id msg) (rm_certificate msg) m =
      Some (0, offer, m\<lparr>sm_streams := (sm_streams m)(rm_stream_name msg \<mapsto> s)\<rparr>) \<and> offered env msg offer s"
proof -
  let ?a = "rm_audio msg \<noteq> 0" and ?v = "rm_video msg \<noteq> 0" and ?n = "rm_stream_name msg"
  let ?env = "env\<lparr>pe_allocator := sm_allocator m\<rparr>"
  let ?m = "case find_push_stream ?n m of None \<Rightarrow> m | Some _ \<Rightarrow> m\<lparr>sm_streams := (sm_streams m)(?n := None)\<rparr>"
  obtain offer pc where pc: "pc_create_offer ?env (push_options ?a ?v)
      (snd (pc_init (rm_certificate msg) peer_connection_new)) = Some (offer, pc)"
    "pc_certificate pc = rm_certificate msg" "transports_ok (pc_transport pc)"
    "if rm_certificate msg = None then offer = [] \<and> pc_local_desc pc = None
     else channel_names (pc_transport pc) = media_mid ` set (take 1 (wanted ?a ?v)) \<and>
       (\<exists>sd. pc_local_desc pc = Some sd \<and> offer_shape env ?a ?v (rm_certificate msg) sd \<and>
         sdp_to_string (pe_rt env) (pe_server_addr env) sd = Some offer)"
    using push_offer_exists [of ?env ?a ?v "rm_certificate msg"] by (auto cong: if_cong)
  let ?s = "(push_stream_new (rm_uid msg) ?n ?a ?v (rm_log_id msg))\<lparr>rs_pc := pc\<rparr>"
  have "sm_allocator ?m = sm_allocator m" by (simp split: option.split)
  then have "create_push_stream env (rm_uid msg) ?n ?a ?v (rm_log_id msg) (rm_certificate msg) m =
      Some (0, offer, ?m\<lparr>sm_streams := (sm_streams ?m)(?n \<mapsto> ?s)\<rparr>)"
    using pc(1) by (simp add: create_push_stream_def push_create_offer_def stream_start_def push_stream_new_def
      pc_init_def Let_def)
  moreover have "?m\<lparr>sm_streams := (sm_streams ?m)(?n \<mapsto> ?s)\<rparr> = m\<lparr>sm_streams := (sm_streams m)(?n \<mapsto> ?s)\<rparr>"
    by (simp split: option.split)
  moreover have "offered env msg offer ?s" using pc by (simp add: offered_def push_stream_new_def)
  ultimately show ?thesis by auto
qed

lemma push_core:
  "\<exists>offer s. rw_process_push env msg w =
      Some (w\<lparr>rw_mgr := (rw_mgr w)\<lparr>sm_streams := (sm_streams (rw_mgr w))(rm_stream_name msg \<mapsto> s)\<rparr>\<rparr>,
            case rm_worker msg of None \<Rightarrow> [] | Some a \<Rightarrow> [(a, msg\<lparr>rm_sdp := offer\<rparr>)]) \<and> offered env msg offer s"
proof -
  obtain offer s where "create_push_stream env (rm_uid msg) (rm_stream_name msg) (rm_audio msg \<noteq> 0)
      (rm_video msg \<noteq> 0) (rm_log_id msg) (rm_certificate msg) (rw_mgr w) =
      Some (0, offer, (rw_mgr w)\<lparr>sm_streams := (sm_streams (rw_mgr w))(rm_stream_name msg \<mapsto> s)\<rparr>)"
    "offered env msg offer s"
    using create_push_stream_offers by blast
  then show ?thesis by (intro exI [of _ offer] exI [of _ s]) (simp add: rw_process_push_def Let_def)
qed

lemma pop_msg_keeps: "rw_pop_msg w = Some (m, w') \<Longrightarrow> rw_mgr w' = rw_mgr w"
  by (auto simp: rw_pop_msg_def split: Option.bind_splits)

lemma offered_keeps_ok:
  "mgr_ok m \<Longrightarrow> offered env msg offer s \<Longrightarrow> mgr_ok (m\<lparr>sm_streams := (sm_streams m)(rm_stream_name msg \<mapsto> s)\<rparr>)"
  by (auto simp: mgr_ok_def offered_def)

text \<open>
  C9: A push message never fails.  The worker replaces the stream of that name by one with the client's
  uid, the server's certificate, sane ICE channels and DTLS transports, and no other stream changes;
  the message goes back to the signaling worker it came from, unchanged except for the offer.  The
  offer is the text form of the stream's description: one receive-only section per medium asked for,
  audio first, all bundled on one channel named after the first; without a certificate it is empty.\<close>

theorem push_answered_with_offer:
  assumes "mgr_ok (rw_mgr w)" "rm_cmdno msg = CMDNO_PUSH" "rw_pop_msg w = Some (Some msg, w1)"
  shows "\<exists>offer s w'. rw_process_rtc_msg env w =
      Some (w', case rm_worker msg of None \<Rightarrow> [] | Some a \<Rightarrow> [(a, msg\<lparr>rm_sdp := offer\<rparr>)]) \<and>
    sm_streams (rw_mgr w') = (sm_streams (rw_mgr w))(rm_stream_name msg \<mapsto> s) \<and>
    offered env msg offer s \<and> mgr_ok (rw_mgr w') \<and> rw_q_msg w' = rw_q_msg w1 \<and> rw_pipe w' = rw_pipe w1"
proof -
  obtain offer s where s: "offered env msg offer s" "rw_process_push env msg w1 =
      Some (w1\<lparr>rw_mgr := (rw_mgr w)\<lparr>sm_streams := (sm_streams (rw_mgr w))(rm_stream_name msg \<mapsto> s)\<rparr>\<rparr>,
            case rm_worker msg of None \<Rightarrow> [] | Some a \<Rightarrow> [(a, msg\<lparr>rm_sdp := offer\<rparr>)])"
    using push_core [of env msg w1] pop_msg_keeps [OF assms(3)] by auto
  then show ?thesis using assms offered_keeps_ok [OF assms(1) s(1)]
    by (auto simp: rw_process_rtc_msg_def)
qed

definition sample_pc_env :: pc_env where
  "sample_pc_env = \<lparr>
     pe_agent = \<lparr>ae_rt = ref_rtc, ae_clk = (\<lambda>_ _. 0), ae_rnd = (\<lambda>_ _. ''id''),
       ae_os = (\<lambda>_ _. \<lparr>po_socket = Fail EOTHER, po_getfl = Done 0, po_setfl = (\<lambda>_. Done 0),
          po_bind = (\<lambda>_. 0), po_garbage = 0, po_name = (\<lambda>_. None)\<rparr>)\<rparr>,
     pe_ssl = \<lparr>ssl_of_certificate = (\<lambda>_. Some \<lparr>fp_algorithm = ''sha-256'', fp_text = ''AB''\<rparr>),
       ssl_of_text = (\<lambda>alg text. Some \<lparr>fp_algorithm = alg, fp_text = text\<rparr>)\<rparr>,
     pe_allocator = \<lparr>pa_networks = [], pa_min_port = 0, pa_max_port = 0\<rparr>,
     pe_rand1 = (\<lambda>n. replicate n (CHR ''u'')), pe_rand2 = (\<lambda>n. replicate n (CHR ''p'')),
     pe_server_addr = ''10.0.0.1'', pe_direction = k_inactive\<rparr>"

definition sample_manager :: stream_manager where
  "sample_manager = \<lparr>sm_streams = Map.empty, sm_allocator = \<lparr>pa_networks = [], pa_min_port = 0, pa_max_port = 0\<rparr>\<rparr>"

definition sample_push :: rtc_msg where
  "sample_push = rtc_msg_new\<lparr>rm_cmdno := CMDNO_PUSH, rm_uid := 5, rm_stream_name := ''s'', rm_audio := 1,
     rm_worker := Some 7, rm_certificate := Some 3\<rparr>"

lemma pushed_message_popped:
  "\<exists>w w1. rw_push_msg 1 msg (rtc_worker_new 0 m) = Some w \<and> rw_mgr w = m \<and> rw_pop_msg w = Some (Some msg, w1)"
proof -
  let ?w = "rtc_worker_new 0 m"
  have i: "lfq_inv (rw_q_msg ?w)" "lfq_contents (rw_q_msg ?w) = []" by (simp_all add: rtc_worker_new_def)
  have "1 \<notin> dom (nodes (rw_q_msg ?w))" by (simp add: rtc_worker_new_def lfq_new_def)
  from lfq.push_ok [OF i(1) this] obtain q where q: "produce 1 msg (rw_q_msg ?w) = Some q" "lfq_inv q"
    "lfq_contents q = [msg]" using i(2) by auto
  from lfq.pop_front [OF q(2,3)] obtain q' where "consume q = Some (Some msg, q')" by blast
  then show ?thesis
    using q(1) by (simp add: rw_push_msg_def rw_pop_msg_def) (simp add: rtc_worker_new_def)
qed

theorem push_answered_with_offer_witness:
  "\<exists>w offer s w'. rw_process_rtc_msg sample_pc_env w = Some (w', [(7, sample_push\<lparr>rm_sdp := offer\<rparr>)]) \<and>
     sm_streams (rw_mgr w') = [''s'' \<mapsto> s] \<and> offered sample_pc_env sample_push offer s"
proof -
  obtain w w1 where w: "rw_mgr w = sample_manager" "rw_pop_msg w = Some (Some sample_push, w1)"
    using pushed_message_popped [of sample_push sample_manager] by blast
  have "mgr_ok (rw_mgr w)" "rm_cmdno sample_push = CMDNO_PUSH"
    by (simp_all add: w(1) mgr_ok_def sample_manager_def sample_push_def)
  from push_answered_with_offer [OF this w(2), of sample_pc_env] show ?thesis
    by (simp add: w(1) sample_manager_def) (simp add: sample_push_def, blast)
qed

section \<open>Answers\<close>

text \<open>The lines on which the two calls of \<^verbatim>\<open>substr\<close> stay inside their string.\<close>

definition media_line_ok :: "rtcbase \<Rightarrow> string \<Rightarrow> bool" where
  "media_line_ok rt line \<longleftrightarrow> (sublist ''m=group:BUNDLE'' line \<or> \<not> sublist ''m='' line \<or>
     length (rtc_split rt line (CHR '' '')) \<le> 2 \<or> 2 \<le> length (hd (rtc_split rt line (CHR '' ''))))"

definition fingerprint_line_ok :: "rtcbase \<Rightarrow> string \<Rightarrow> bool" where
  "fingerprint_line_ok rt line \<longleftrightarrow> (\<not> sublist ''a=fingerprint'' line \<or>
     (\<forall>i0 i1. rtc_tokenize rt line (CHR '' '') = [i0, i1] \<longrightarrow> 14 \<le> length i0))"

definition line_ok :: "rtcbase \<Rightarrow> string \<Rightarrow> bool" where
  "line_ok rt line \<longleftrightarrow> media_line_ok rt line \<and> fingerprint_line_ok rt line \<and> fingerprint_line_ok rt (chop line)"

text \<open>The sections seen so far are those whose transport has its name.\<close>

definition answer_ok :: "answer_state \<Rightarrow> bool" where
  "answer_ok st \<longleftrightarrow> sd_groups (an_desc st) = [] \<and> sd_transports (an_desc st) = [] \<and>
     td_mid (an_audio_td st) \<in> {[], ''audio''} \<and> td_mid (an_video_td st) \<in> {[], ''video''} \<and>
     (\<forall>c \<in> set (sd_contents (an_desc st)).
        (mc_type c = MEDIA_TYPE_AUDIO \<longrightarrow> td_mid (an_audio_td st) = ''audio'') \<and>
        (mc_type c = MEDIA_TYPE_VIDEO \<longrightarrow> td_mid (an_video_td st) = ''video''))"

lemma parse_transport_total:
  assumes "fingerprint_line_ok rt line"
  shows "\<exists>ret td'. parse_transport_info rt ssl td line is_rn = Some (ret, td') \<and> td_mid td' = td_mid td"
proof (cases "\<exists>i0 i1. rtc_tokenize rt line (CHR '' '') = [i0, i1]")
  case True
  then obtain i0 i1 where i: "rtc_tokenize rt line (CHR '' '') = [i0, i1]" by blast
  then have "sublist ''a=fingerprint'' line \<Longrightarrow> 14 \<le> length i0"
    using assms by (auto simp: fingerprint_line_ok_def)
  then show ?thesis using i by (auto simp: parse_transport_info_def substr_from_def Let_def)
next
  case False
  then have "(case rtc_tokenize rt line (CHR '' '') of [i0, i1] \<Rightarrow> f i0 i1 | _ \<Rightarrow> x) = x"
    for f :: "string \<Rightarrow> string \<Rightarrow> (int \<times> transport_description) option" and x
    by (auto split: list.split)
  then show ?thesis unfolding parse_transport_info_def Let_def by auto
qed

lemma media_line_total:
  assumes "media_line_ok (pe_rt env) field" "answer_ok st"
  shows "\<exists>ret field' st'. answer_media_line env is_rn field st = Some (ret, field', st') \<and> answer_ok st' \<and>
    field' \<in> {field, chop field}"
proof (cases "sublist ''m=group:BUNDLE'' field \<or> \<not> sublist ''m='' field \<or> length (rtc_split (pe_rt env) field (CHR '' '')) \<le> 2")
  case True
  then show ?thesis using assms(2) by (auto simp: answer_media_line_def Let_def)
next
  case False
  then have "substr_from 2 (hd (rtc_split (pe_rt env) field (CHR '' ''))) =
      Some (drop 2 (hd (rtc_split (pe_rt env) field (CHR '' ''))))"
    using assms(1) by (auto simp: media_line_ok_def substr_from_def)
  moreover have "answer_ok (st\<lparr>an_media := x\<rparr>) = answer_ok st" for x by (simp add: answer_ok_def)
  moreover have "answer_ok (st\<lparr>an_media := x, an_desc := add_content (audio_content g) (an_desc st),
      an_audio_td := (an_audio_td st)\<lparr>td_mid := ''audio''\<rparr>\<rparr>)" for x g
    using assms(2) by (auto simp: answer_ok_def add_content_def audio_content_def)
  moreover have "answer_ok (st\<lparr>an_media := x, an_desc := add_content (video_content g) (an_desc st),
      an_video_td := (an_video_td st)\<lparr>td_mid := ''video''\<rparr>\<rparr>)" for x g
    using assms(2) by (auto simp: answer_ok_def add_content_def video_content_def)
  ultimately show ?thesis using False assms(2) by (simp add: answer_media_line_def Let_def)
qed

lemma answer_line_total:
  assumes "line_ok (pe_rt env) field" "answer_ok st"
  shows "\<exists>ret st'. answer_line env is_rn field st = Some (ret, st') \<and> answer_ok st'"
proof -
  obtain ret f st1 where m: "answer_media_line env is_rn field st = Some (ret, f, st1)" "answer_ok st1"
    "f \<in> {field, chop field}"
    using media_line_total [OF _ assms(2)] assms(1) unfolding line_ok_def by blast
  then have f: "fingerprint_line_ok (pe_rt env) f" using assms(1) by (auto simp: line_ok_def)
  obtain r1 t1 where p1: "parse_transport_info (pe_rt env) (pe_ssl env) (an_audio_td st1) f is_rn = Some (r1, t1)"
    "td_mid t1 = td_mid (an_audio_td st1)" using parse_transport_total [OF f] by blast
  obtain r2 t2 where p2: "parse_transport_info (pe_rt env) (pe_ssl env) (an_video_td st1) f is_rn = Some (r2, t2)"
    "td_mid t2 = td_mid (an_video_td st1)" using parse_transport_total [OF f] by blast
  have "answer_ok (st1\<lparr>an_audio_td := t1\<rparr>)" "answer_ok (st1\<lparr>an_video_td := t2\<rparr>)"
    using m(2) p1(2) p2(2) by (simp_all add: answer_ok_def)
  then show ?thesis using m p1(1) p2(1) by (simp add: answer_line_def)
qed

lemma answer_lines_total:
  assumes "list_all (line_ok (pe_rt env)) ls" "answer_ok st"
  shows "\<exists>ret st'. answer_lines env is_rn ls st = Some (ret, st') \<and> answer_ok st'"
  using assms
proof (induction ls arbitrary: st)
  case (Cons f fs)
  obtain ret st1 where "answer_line env is_rn f st = Some (ret, st1)" "answer_ok st1"
    using answer_line_total Cons.prems by fastforce
  then show ?case using Cons.IH [of st1] Cons.prems(1) by auto
qed auto


lemma added_transports:
  assumes "answer_ok st" "sd = add_transport_td (an_video_td st) (add_transport_td (an_audio_td st) (an_desc st))"
    "c \<in> set (sd_contents sd)"
  shows "bundled_away (mc_mid c) sd = Some False \<and> get_transport_info (mc_mid c) sd \<noteq> None"
proof -
  have c: "c \<in> set (sd_contents (an_desc st))" and g: "sd_groups sd = []"
    using assms by (simp_all add: add_transport_td_def answer_ok_def)
  have "td_mid (an_audio_td st) = mc_mid c \<or> td_mid (an_video_td st) = mc_mid c"
    using assms(1) c by (cases "mc_type c") (auto simp: answer_ok_def)
  then have "get_transport_info (mc_mid c) sd \<noteq> None"
    by (auto simp: assms(2) get_transport_added split: option.split)
  then show ?thesis using g by (simp add: bundled_away_def is_bundle_def get_group_by_name_def)
qed

lemma answer_accepted:
  assumes "transports_ok tr" "answer_ok st"
  shows "\<exists>tr'. set_remote_description (Some (add_transport_td (an_video_td st) (add_transport_td (an_audio_td st) (an_desc st)))) tr =
      Some (0, tr') \<and> transports_ok tr' \<and> map channel_id (tr_agent tr') = map channel_id (tr_agent tr)"
proof -
  define sd where "sd = add_transport_td (an_video_td st) (add_transport_td (an_audio_td st) (an_desc st))"
  obtain tr' where "remote_contents sd (sd_contents sd) tr = Some tr'" "transports_ok tr'"
    "map channel_id (tr_agent tr') = map channel_id (tr_agent tr)"
    using remote_contents_ok [OF assms(1), of "sd_contents sd" sd] added_transports [OF assms(2) sd_def] by blast
  then show ?thesis by (simp add: sd_def set_remote_description_def)
qed

lemma answer_ok_start: "answer_ok answer_start"
  by (simp add: answer_ok_def answer_start_def session_description_new_def transport_description_new_def)

lemma set_remote_sdp_total:
  assumes "transports_ok (pc_transport pc)" "list_all (line_ok (pe_rt env)) (rtc_tokenize (pe_rt env) sdp (CHR 0x0A))"
  shows "\<exists>ret pc'. set_remote_sdp env sdp pc = Some (ret, pc') \<and> transports_ok (pc_transport pc') \<and>
    map channel_id (tr_agent (pc_transport pc')) = map channel_id (tr_agent (pc_transport pc))"
proof -
  from answer_lines_total [OF assms(2) answer_ok_start] obtain ret st where
    st: "answer_lines env (sublist crlf sdp) (rtc_tokenize (pe_rt env) sdp (CHR 0x0A)) answer_start = Some (ret, st)"
    "answer_ok st" by blast
  then show ?thesis
    using answer_accepted [OF assms(1) st(2)] assms(1) by (auto simp: set_remote_sdp_def Let_def)
qed

text \<open>The stream an answer belongs to.\<close>

definition addressee :: "rtc_msg \<Rightarrow> stream_manager \<Rightarrow> rtc_stream option" where
  "addressee msg m =
     (if rm_stream_type msg = ''push'' then
        (case find_push_stream (rm_stream_name msg) m of
           Some s \<Rightarrow> if rm_uid msg = rs_uid s then Some s else None
         | None \<Rightarrow> None)
      else None)"

lemma process_answer_cases:
  "rw_process_answer env msg w =
     (case addressee msg (rw_mgr w) of
        None \<Rightarrow> Some w
      | Some s \<Rightarrow> do { (_, pc) \<leftarrow> set_remote_sdp env (rm_sdp msg) (rs_pc s);
          Some (w\<lparr>rw_mgr := (rw_mgr w)\<lparr>sm_streams := (sm_streams (rw_mgr w))
            (rm_stream_name msg \<mapsto> s\<lparr>rs_pc := pc\<rparr>)\<rparr>\<rparr>) })"
  by (simp add: rw_process_answer_def addressee_def set_answer_def stream_set_remote_sdp_def
    split: option.split Option.bind_split)

text \<open>
  C10: An answer reaches the push stream of its name only with the uid that stream was pushed with;
  every other answer changes nothing.  One that reaches its stream changes only that stream's peer
  connection, keeps every channel and transport sane and always returns, if no line makes \<^verbatim>\<open>substr\<close>
  leave its string.  If the first line has \<^verbatim>\<open>m=\<close> outside its first item and that item is shorter than
  two characters, the exception is not caught: the answer ends the whole server.\<close>

theorem answer_reaches_own_stream:
  assumes "mgr_ok (rw_mgr w)"
  shows "case addressee msg (rw_mgr w) of
      None \<Rightarrow> rw_process_answer env msg w = Some w
    | Some s \<Rightarrow> sm_streams (rw_mgr w) (rm_stream_name msg) = Some s \<and> rs_uid s = rm_uid msg \<and>
        (list_all (line_ok (pe_rt env)) (rtc_tokenize (pe_rt env) (rm_sdp msg) (CHR 0x0A)) \<longrightarrow>
           (\<exists>w' pc. rw_process_answer env msg w = Some w' \<and> mgr_ok (rw_mgr w') \<and>
              sm_streams (rw_mgr w') = (sm_streams (rw_mgr w))(rm_stream_name msg \<mapsto> s\<lparr>rs_pc := pc\<rparr>))) \<and>
        (\<forall>line rest. rtc_tokenize (pe_rt env) (rm_sdp msg) (CHR 0x0A) = line # rest \<and>
             \<not> media_line_ok (pe_rt env) line \<longrightarrow>
           rw_process_answer env msg w = None)"
proof (cases "addressee msg (rw_mgr w)")
  case None
  then show ?thesis by (simp add: process_answer_cases)
next
  case (Some s)
  then have s: "sm_streams (rw_mgr w) (rm_stream_name msg) = Some s" "rs_uid s = rm_uid msg"
    by (auto simp: addressee_def find_push_stream_def split: if_splits option.splits)
  then have ok: "transports_ok (pc_transport (rs_pc s))" "rs_name s = rm_stream_name msg"
    using assms by (auto simp: mgr_ok_def)
  have "\<exists>w' pc. rw_process_answer env msg w = Some w' \<and> mgr_ok (rw_mgr w') \<and>
      sm_streams (rw_mgr w') = (sm_streams (rw_mgr w))(rm_stream_name msg \<mapsto> s\<lparr>rs_pc := pc\<rparr>)"
    if "list_all (line_ok (pe_rt env)) (rtc_tokenize (pe_rt env) (rm_sdp msg) (CHR 0x0A))"
    using set_remote_sdp_total [OF ok(1) that] ok(2) assms
    by (auto simp: process_answer_cases Some mgr_ok_def)
  moreover have "rw_process_answer env msg w = None"
    if "rtc_tokenize (pe_rt env) (rm_sdp msg) (CHR 0x0A) = line # rest" "\<not> media_line_ok (pe_rt env) line" for line rest
    using that by (simp add: process_answer_cases Some set_remote_sdp_def Let_def answer_line_def
      answer_media_line_def media_line_ok_def substr_from_def)
  ultimately show ?thesis using Some s by auto
qed

definition sample_stream :: rtc_stream where
  "sample_stream = push_stream_new 5 ''s'' True True 0"

definition sample_answer :: "u64 \<Rightarrow> string \<Rightarrow> rtc_msg" where
  "sample_answer uid sdp = rtc_msg_new\<lparr>rm_cmdno := CMDNO_ANSWER, rm_uid := uid, rm_stream_name := ''s'',
     rm_stream_type := ''push'', rm_sdp := sdp\<rparr>"

definition sample_rtc_worker :: rtc_worker where
  "sample_rtc_worker = rtc_worker_new 0 (sample_manager\<lparr>sm_streams := [''s'' \<mapsto> sample_stream]\<rparr>)"

theorem answer_reaches_own_stream_witness:
  "rw_process_answer sample_pc_env (sample_answer 6 ''v=0'') sample_rtc_worker = Some sample_rtc_worker \<and>
   rw_process_answer sample_pc_env (sample_answer 5 ''x m= y'') sample_rtc_worker = None \<and>
   (\<exists>w'. rw_process_answer sample_pc_env (sample_answer 5 ''v=0'') sample_rtc_worker = Some w')"
proof -
  have new: "tr_set_local_certificate None transport_controller_new = transport_controller_new"
    by (simp add: tr_set_local_certificate_def transport_controller_new_def)
  have mgr: "mgr_ok (rw_mgr sample_rtc_worker)"
    using transports_ok_new [of None]
    by (simp add: mgr_ok_def sample_rtc_worker_def rtc_worker_new_def sample_stream_def push_stream_new_def
      peer_connection_new_def new)
  have a: "addressee (sample_answer uid sdp) (rw_mgr sample_rtc_worker) =
      (if uid = 5 then Some sample_stream else None)" for uid sdp
    by (simp add: addressee_def sample_answer_def sample_rtc_worker_def rtc_worker_new_def find_push_stream_def
      sample_stream_def push_stream_new_def)
  have sdp: "rm_sdp (sample_answer uid sdp) = sdp" for uid sdp by (simp add: sample_answer_def)
  have rt: "pe_rt sample_pc_env = ref_rtc" by (simp add: sample_pc_env_def)
  have bad: "rtc_tokenize ref_rtc ''x m= y'' (CHR 0x0A) = [''x m= y'']"
    "\<not> media_line_ok ref_rtc ''x m= y''"
    by (simp_all add: ref_rtc_def media_line_ok_def) code_simp
  have good: "list_all (line_ok ref_rtc) (rtc_tokenize ref_rtc ''v=0'' (CHR 0x0A))"
    by (simp add: ref_rtc_def line_ok_def media_line_ok_def fingerprint_line_ok_def chop_def)
  have "rw_process_answer sample_pc_env (sample_answer 6 ''v=0'') sample_rtc_worker = Some sample_rtc_worker"
    using answer_reaches_own_stream [OF mgr, where msg = "sample_answer 6 ''v=0''" and env = sample_pc_env] by (simp add: a)
  moreover have "rw_process_answer sample_pc_env (sample_answer 5 ''x m= y'') sample_rtc_worker = None"
    using answer_reaches_own_stream [OF mgr, where msg = "sample_answer 5 ''x m= y''" and env = sample_pc_env] bad by (simp add: a sdp rt)
  moreover have "\<exists>w'. rw_process_answer sample_pc_env (sample_answer 5 ''v=0'') sample_rtc_worker = Some w'"
    using answer_reaches_own_stream [OF mgr, where msg = "sample_answer 5 ''v=0''" and env = sample_pc_env] good by (auto simp: a sdp rt)
  ultimately show ?thesis by blast
qed

end
