(* ===== verification/Server_System.thy ===== *)
theory Server_System
  imports Signaling_Worker_Properties Rtc_Server Rtc_Worker_Properties
begin

text \<open>
  The threads put together: one signaling worker, the RTC server and its workers.  A step is one
  callback of one of the event loops; what it sends goes into the queue and the pipe of the receiver.
  The pointer to the signaling worker that messages carry is \<open>sy_addr\<close>.
\<close>

section \<open>Steps\<close>

record 's system =
  sy_addr :: nat
  sy_sig :: "'s sig_worker"
  sy_rtc :: rtc_server

record ('j, 's) sys_env =
  sx_sw :: "('j, 's) sw_env"
  sx_pc :: pc_env
  sx_cert :: cert_env
  sx_node :: nat
  sx_write :: "nat \<Rightarrow> sys_result"

text \<open>The client's socket is readable; every message is sent as \<^verbatim>\<open>g_rtc_server->send_rtc_msg\<close> does.\<close>

definition sys_read ::
    "('j, 's) sys_env \<Rightarrow> string \<Rightarrow> int \<Rightarrow> 's system \<Rightarrow> 's system option" where
  "sys_read env bytes fd sy =
     do { (w, ms) \<leftarrow> read_query (sx_sw env) (\<lambda>_. (Done (int (length bytes)), bytes)) fd (sy_sig sy);
          Some (sy\<lparr>sy_sig := w,
                   sy_rtc := fold (\<lambda>m s. snd (rv_send_rtc_msg m (se_pipe (en_req (sx_sw env)) m) s)) ms (sy_rtc sy)\<rparr>) }"

text \<open>The RTC server reads its pipe.\<close>

definition sys_server :: "('j, 's) sys_env \<Rightarrow> int \<Rightarrow> 's system \<Rightarrow> 's system option" where
  "sys_server env g sy =
     do { s \<leftarrow> rtc_server_recv_notify (pe_rt (sx_pc env)) (sx_cert env) (sx_node env) (Done 4) g (sy_rtc sy);
          Some (sy\<lparr>sy_rtc := s\<rparr>) }"

text \<open>RTC worker \<open>i\<close> reads its pipe; what it has for the signaling worker is handed over.\<close>

definition sys_worker :: "('j, 's) sys_env \<Rightarrow> nat \<Rightarrow> 's system \<Rightarrow> 's system option" where
  "sys_worker env i sy =
     do { w \<leftarrow> at_index (rv_workers (sy_rtc sy)) i;
          (w', out) \<leftarrow> rtc_worker_recv_notify (sx_pc env) w;
          Some (sy\<lparr>sy_rtc := (sy_rtc sy)\<lparr>rv_workers := (rv_workers (sy_rtc sy))[i := w']\<rparr>,
                   sy_sig := fold (\<lambda>(a, m) s. if a = sy_addr sy then snd (sw_send_rtc_msg m (Done 4) s) else s)
                     out (sy_sig sy)\<rparr>) }"

text \<open>The signaling worker reads its pipe, and later the client's socket is writable.\<close>

definition sys_notify :: "('j, 's::zero) sys_env \<Rightarrow> 's system \<Rightarrow> 's system option" where
  "sys_notify env sy =
     do { w \<leftarrow> signaling_worker_recv_notify (sx_sw env) (sy_sig sy); Some (sy\<lparr>sy_sig := w\<rparr>) }"

definition sys_write :: "('j, 's) sys_env \<Rightarrow> int \<Rightarrow> 's system \<Rightarrow> ('s system \<times> string) option" where
  "sys_write env fd sy =
     do { (w, wire) \<leftarrow> write_reply (sx_write env) fd (sy_sig sy); Some (sy\<lparr>sy_sig := w\<rparr>, wire) }"

text \<open>The way of one request: header and body arrive, the message goes through the threads, the reply leaves.\<close>

definition sys_push :: "('j, 's::zero) sys_env \<Rightarrow> string \<Rightarrow> string \<Rightarrow> nat \<Rightarrow> int \<Rightarrow> int \<Rightarrow> 's system
    \<Rightarrow> ('s system \<times> string) option" where
  "sys_push env header body i g fd sy =
     do { sy \<leftarrow> sys_read env header fd sy;
          sy \<leftarrow> sys_read env body fd sy;
          sy \<leftarrow> sys_server env g sy;
          sy \<leftarrow> sys_worker env i sy;
          sy \<leftarrow> sys_notify env sy;
          sys_write env fd sy }"

section \<open>Reading the request\<close>

text \<open>A header that announces the body, and a body that is a push.\<close>

definition push_request ::
    "'j sig_env \<Rightarrow> string \<Rightarrow> string \<Rightarrow> u64 \<Rightarrow> string \<Rightarrow> int \<Rightarrow> int \<Rightarrow> bool" where
  "push_request env h b uid name audio video \<longleftrightarrow>
     length h = GHEAD_SIZE \<and> gh_magic_num (ghead_of h) = GHEAD_MAGIC_NUM \<and>
     unat (gh_body_len (ghead_of h)) = length b \<and> b \<noteq> [] \<and> GHEAD_SIZE + length b < 65535 \<and>
     (\<exists>root. js_parse (se_json env) b = Some root \<and> js_int (se_json env) root ''cmdno'' = Some CMDNO_PUSH \<and>
        js_uint64 (se_json env) root ''uid'' = Some uid \<and>
        js_string (se_json env) root ''stream_name'' = Some name \<and>
        js_int (se_json env) root ''audio'' = Some audio \<and> js_int (se_json env) root ''video'' = Some video)"

definition push_msg :: "'j sig_env \<Rightarrow> string \<Rightarrow> nat \<Rightarrow> int \<Rightarrow> u64 \<Rightarrow> string \<Rightarrow> int \<Rightarrow> int \<Rightarrow> rtc_msg" where
  "push_msg env h a fd uid name audio video =
     rtc_msg_new\<lparr>rm_cmdno := CMDNO_PUSH, rm_stream_name := name, rm_uid := uid, rm_audio := audio,
       rm_video := video, rm_log_id := gh_log_id (ghead_of h), rm_worker := Some (se_worker env),
       rm_conn := Some a, rm_fd := fd\<rparr>"

lemma push_header_read:
  assumes "fresh_conn c" "push_request env h b uid name audio video"
  shows "feed env a h c = Some (0, c\<lparr>tc_state := STATE_BODY, tc_expected := length b, tc_processed := GHEAD_SIZE,
    tc_querybuf := h\<rparr>, [])"
proof -
  have "request_of env a c [] = (0, c, [])" by (rule request_of_Nil [OF assms(1)])
  then obtain ret c' ms where "feed env a h c = Some (ret, c', ms)" "request_of env a c h = (ret, c', ms)"
    using feed_request_of [OF assms(1), of env a "[]" c "[]" h] assms(2) by (auto simp: push_request_def)
  then show ?thesis using assms(2) by (auto simp: push_request_def request_of_def Let_def)
qed

lemma push_body_read:
  assumes "fresh_conn c" "push_request env h b uid name audio video"
    "se_pipe env (push_msg env h a (tc_fd c) uid name audio video) = Done 4"
  shows "feed env a b (c\<lparr>tc_state := STATE_BODY, tc_expected := length b, tc_processed := GHEAD_SIZE,
      tc_querybuf := h\<rparr>) =
    Some (0, c\<lparr>tc_state := STATE_BODY, tc_expected := length b, tc_processed := 65535, tc_querybuf := h @ b\<rparr>,
      [push_msg env h a (tc_fd c) uid name audio video])"
proof -
  let ?c1 = "c\<lparr>tc_state := STATE_BODY, tc_expected := length b, tc_processed := GHEAD_SIZE, tc_querybuf := h\<rparr>"
  have "request_of env a c h = (0, ?c1, [])"
    using assms(2) by (auto simp: push_request_def request_of_def Let_def)
  then obtain ret c' ms where "feed env a b ?c1 = Some (ret, c', ms)" "request_of env a c (h @ b) = (ret, c', ms)"
    using feed_request_of [OF assms(1), of env a h ?c1 "[]" b] assms(2) by (auto simp: push_request_def)
  moreover have "request_of env a c (h @ b) =
      (0, c\<lparr>tc_state := STATE_BODY, tc_expected := length b, tc_processed := 65535, tc_querybuf := h @ b\<rparr>,
        [push_msg env h a (tc_fd c) uid name audio video])"
    using assms(2,3)
    by (auto simp: push_request_def request_of_def Let_def process_request_def signaling_process_push_def
      push_msg_def notify_def)
  ultimately show ?thesis by simp
qed

abbreviation read_header :: "string \<Rightarrow> string \<Rightarrow> 's tcp_conn \<Rightarrow> 's tcp_conn" where
  "read_header h b c \<equiv> c\<lparr>tc_state := STATE_BODY, tc_expected := length b, tc_processed := GHEAD_SIZE, tc_querybuf := h\<rparr>"

abbreviation read_body :: "string \<Rightarrow> string \<Rightarrow> 's tcp_conn \<Rightarrow> 's tcp_conn" where
  "read_body h b c \<equiv> c\<lparr>tc_state := STATE_BODY, tc_expected := length b, tc_processed := 65535, tc_querybuf := h @ b\<rparr>"

lemma read_some:
  assumes "sw_inv w" "sw_heap w a = Some c" "en_room env (to_int32 (int (tc_expected c)))" "bytes \<noteq> []"
    "feed (en_req env) a bytes (c\<lparr>tc_last := sw_now w\<rparr>) = Some (0, c', ms)"
  shows "read_query env (\<lambda>_. (Done (int (length bytes)), bytes)) (tc_fd c) w =
    Some (w\<lparr>sw_heap := (sw_heap w)(a \<mapsto> c')\<rparr>, ms)"
  using assms sw_inv_at [OF assms(1,2)] by (simp add: read_query_def sock_read_data_def Let_def)

lemma push_reads:
  assumes "sw_inv w" "sw_heap w a = Some c" "fresh_conn c" "\<forall>n. en_room env n"
    "push_request (en_req env) h b uid name audio video"
    "se_pipe (en_req env) (push_msg (en_req env) h a (tc_fd c) uid name audio video) = Done 4"
  defines "d \<equiv> c\<lparr>tc_last := sw_now w\<rparr>"
  shows "read_query env (\<lambda>_. (Done (int (length h)), h)) (tc_fd c) w =
      Some (w\<lparr>sw_heap := (sw_heap w)(a \<mapsto> read_header h b d)\<rparr>, [])"
    and "sw_inv (w\<lparr>sw_heap := (sw_heap w)(a \<mapsto> read_header h b d)\<rparr>)"
    and "read_query env (\<lambda>_. (Done (int (length b)), b)) (tc_fd c) (w\<lparr>sw_heap := (sw_heap w)(a \<mapsto> read_header h b d)\<rparr>) =
      Some (w\<lparr>sw_heap := (sw_heap w)(a \<mapsto> read_body h b d)\<rparr>, [push_msg (en_req env) h a (tc_fd c) uid name audio video])"
    and "sw_inv (w\<lparr>sw_heap := (sw_heap w)(a \<mapsto> read_body h b d)\<rparr>)"
proof -
  have l: "h \<noteq> []" "b \<noteq> []" "length h = 36" "36 + length b < 65535"
    "unat (gh_body_len (ghead_of h)) = length b"
    using assms(5) by (auto simp: push_request_def)
  have f: "fresh_conn d" "tc_fd d = tc_fd c" using assms(3) by (simp_all add: d_def fresh_conn_def)
  have io: "io_ok d" using sw_inv_at(4) [OF assms(1,2)] by (simp add: d_def)
  have ok: "io_ok (read_header h b d)" "stream_ok (read_header h b d)" "io_ok (read_body h b d)"
    "stream_ok (read_body h b d)"
    using io l by (simp_all add: stream_ok_def Let_def)
  let ?w1 = "w\<lparr>sw_heap := (sw_heap w)(a \<mapsto> read_header h b d)\<rparr>"
  show "read_query env (\<lambda>_. (Done (int (length h)), h)) (tc_fd c) w = Some (?w1, [])"
    using read_some [OF assms(1,2) _ l(1) push_header_read [OF f(1) assms(5), of a, unfolded d_def]] assms(4)
    by (simp add: d_def)
  show i1: "sw_inv ?w1" using sw_inv_update [OF assms(1,2), of "read_header h b d"] ok f(2) by simp
  have "(read_header h b d)\<lparr>tc_last := sw_now ?w1\<rparr> = read_header h b d" by (simp add: d_def)
  then have "feed (en_req env) a b ((read_header h b d)\<lparr>tc_last := sw_now ?w1\<rparr>) =
      Some (0, read_body h b d, [push_msg (en_req env) h a (tc_fd c) uid name audio video])"
    using push_body_read [OF f(1) assms(5)] assms(6) f(2) by metis
  from read_some [OF i1 _ _ l(2) this] assms(4) f(2)
  show "read_query env (\<lambda>_. (Done (int (length b)), b)) (tc_fd c) ?w1 =
      Some (w\<lparr>sw_heap := (sw_heap w)(a \<mapsto> read_body h b d)\<rparr>, [push_msg (en_req env) h a (tc_fd c) uid name audio video])"
    by simp
  show "sw_inv (w\<lparr>sw_heap := (sw_heap w)(a \<mapsto> read_body h b d)\<rparr>)"
    using sw_inv_update [OF assms(1,2), of "read_body h b d"] ok f(2) by simp
qed

section \<open>Through the threads\<close>

definition rtc_worker_quiet :: "rtc_worker \<Rightarrow> bool" where
  "rtc_worker_quiet w \<longleftrightarrow> lfq_inv (rw_q_msg w) \<and> lfq_contents (rw_q_msg w) = [] \<and> rw_pipe w = [] \<and> mgr_ok (rw_mgr w)"

text \<open>Nothing is under way and every component is consistent.\<close>

definition quiet :: "'s system \<Rightarrow> bool" where
  "quiet sy \<longleftrightarrow> sw_inv (sy_sig sy) \<and> sw_pipe (sy_sig sy) = [] \<and> sw_q_msg (sy_sig sy) = [] \<and>
     rv_pipe (sy_rtc sy) = [] \<and> rv_q_msg (sy_rtc sy) = [] \<and> rv_workers (sy_rtc sy) \<noteq> [] \<and>
     rv_worker_num (sy_rtc sy) = int (length (rv_workers (sy_rtc sy))) \<and>
     length (rv_workers (sy_rtc sy)) < 2 ^ 31 \<and> list_all rtc_worker_quiet (rv_workers (sy_rtc sy))"

text \<open>The RTC server takes the only message and hands it to the worker of its stream.\<close>

lemma server_hands_over:
  assumes "rv_pipe s = []" "rv_q_msg s = []" "rv_workers s \<noteq> []"
    "rv_worker_num s = int (length (rv_workers s))" "length (rv_workers s) < 2 ^ 31"
    "list_all rtc_worker_quiet (rv_workers s)" "\<forall>w \<in> set (rv_workers s). node \<notin> dom (nodes (rw_q_msg w))"
    "fst (generate_and_check_certificate ce s) = 0"
    "i = unat (ComputeCrc32 rt (rm_stream_name msg)) mod length (rv_workers s)"
  shows "\<exists>s' w' cert. rtc_server_recv_notify rt ce node (Done 4) g (snd (rv_send_rtc_msg msg (Done 4) s)) = Some s' \<and>
    i < length (rv_workers s) \<and> rv_workers s' = (rv_workers s)[i := w'] \<and>
    rv_pipe s' = [] \<and> rv_q_msg s' = [] \<and> rv_worker_num s' = rv_worker_num s \<and>
    rw_pipe w' = [RW_RTC_MSG] \<and> lfq_inv (rw_q_msg w') \<and> rw_mgr w' = rw_mgr (rv_workers s ! i) \<and>
    lfq_contents (rw_q_msg w') = [msg\<lparr>rm_certificate := Some cert\<rparr>]"
proof -
  let ?s = "s\<lparr>rv_q_msg := [msg], rv_pipe := []\<rparr>"
  obtain ret s2 where c: "generate_and_check_certificate ce (?s\<lparr>rv_q_msg := []\<rparr>) = (ret, s2)" by fastforce
  have same: "fst (generate_and_check_certificate ce ?s) = fst (generate_and_check_certificate ce s)"
    by (simp add: generate_and_check_certificate_def Let_def split: option.split)
  have q: "\<forall>w \<in> set (rv_workers ?s). lfq_inv (rw_q_msg w) \<and> node \<notin> dom (nodes (rw_q_msg w))"
    using assms(6,7) by (auto simp: list_all_iff rtc_worker_quiet_def)
  obtain w' where w': "rw_send_rtc_msg node (msg\<lparr>rm_certificate := rv_certificate s2\<rparr>) (Done 4) (rv_workers s ! i) =
      Some (notify (Done 4), w')" "lfq_inv (rw_q_msg w')" "lfq_contents (rw_q_msg w') =
      lfq_contents (rw_q_msg (rv_workers s ! i)) @ [msg\<lparr>rm_certificate := rv_certificate s2\<rparr>]"
    "rv_process_rtc_msg rt ce node (Done 4) ?s = Some (s2\<lparr>rv_workers := (rv_workers s)[i := w']\<rparr>)"
    "i < length (rv_workers s)" "rv_workers s2 = rv_workers s" "rv_q_msg s2 = []" "rv_certificate s2 \<noteq> None"
    using process_rtc_msg_spec [where s = ?s and msg = msg and rest = "[]" and node = node and ce = ce and
        r = "Done 4" and rt = rt and i = i, OF _ _ _ _ q c] assms(3-5,8,9) same by auto
  have p2: "rv_pipe s2 = []" "rv_worker_num s2 = rv_worker_num s"
    using c by (auto simp: generate_and_check_certificate_def Let_def split: option.splits if_splits)
  have wq: "rtc_worker_quiet (rv_workers s ! i)" using assms(6) w'(5) by (simp add: list_all_length)
  then have "rw_pipe w' = [RW_RTC_MSG]" "rw_mgr w' = rw_mgr (rv_workers s ! i)"
    using w'(1) by (auto simp: rw_send_rtc_msg_def rw_push_msg_def rw_notify_def pipe_write_def notify_def
      rtc_worker_quiet_def split: Option.bind_splits)
  moreover have "rtc_server_recv_notify rt ce node (Done 4) g (snd (rv_send_rtc_msg msg (Done 4) s)) =
      rv_process_rtc_msg rt ce node (Done 4) ?s"
    using assms(1,2) by (simp add: rtc_server_recv_notify_def rv_send_rtc_msg_def rv_notify_def rv_push_msg_def
      pipe_write_def notify_def rv_process_notify_def)
  moreover obtain cert where "rv_certificate s2 = Some cert" using w'(8) by blast
  ultimately show ?thesis
    using w' p2 wq by (intro exI [of _ "s2\<lparr>rv_workers := (rv_workers s)[i := w']\<rparr>"] exI [of _ w'] exI [of _ cert])
      (simp add: rtc_worker_quiet_def)
qed

text \<open>The worker takes the message, makes the stream and sends the offer back.\<close>

lemma worker_offers:
  assumes "rw_pipe w = [RW_RTC_MSG]" "lfq_inv (rw_q_msg w)" "lfq_contents (rw_q_msg w) = [msg]" "mgr_ok (rw_mgr w)"
    "rm_cmdno msg = CMDNO_PUSH" "rm_worker msg = Some a"
  shows "\<exists>w' offer s. rtc_worker_recv_notify env w = Some (w', [(a, msg\<lparr>rm_sdp := offer\<rparr>)]) \<and>
    offered env msg offer s \<and> rtc_worker_quiet w' \<and>
    sm_streams (rw_mgr w') = (sm_streams (rw_mgr w))(rm_stream_name msg \<mapsto> s)"
proof -
  obtain q where q: "consume (rw_q_msg w) = Some (Some msg, q)" "lfq_inv q" "lfq_contents q = []"
    using lfq.pop_front [OF assms(2,3)] by blast
  let ?w = "w\<lparr>rw_pipe := [], rw_q_msg := q\<rparr>"
  obtain offer s where s: "rw_process_push env msg ?w =
      Some (?w\<lparr>rw_mgr := (rw_mgr ?w)\<lparr>sm_streams := (sm_streams (rw_mgr ?w))(rm_stream_name msg \<mapsto> s)\<rparr>\<rparr>,
            case rm_worker msg of None \<Rightarrow> [] | Some a \<Rightarrow> [(a, msg\<lparr>rm_sdp := offer\<rparr>)])" "offered env msg offer s"
    using push_core [of env msg ?w] by blast
  have "rtc_worker_recv_notify env w = rw_process_push env msg ?w"
    using assms(1,5) q(1) by (simp add: rtc_worker_recv_notify_def rw_process_notify_def rw_process_rtc_msg_def
      rw_pop_msg_def)
  then show ?thesis
    using s q(2,3) assms(6) offered_keeps_ok [OF assms(4) s(2)]
    by (intro exI [of _ "?w\<lparr>rw_mgr := (rw_mgr ?w)\<lparr>sm_streams := (sm_streams (rw_mgr ?w))(rm_stream_name msg \<mapsto> s)\<rparr>\<rparr>"]
        exI [of _ offer] exI [of _ s]) (simp add: rtc_worker_quiet_def)
qed

section \<open>Answering the client\<close>

text \<open>The socket of a client that keeps reading.\<close>

definition keeps_reading :: "(nat \<Rightarrow> sys_result) \<Rightarrow> bool" where
  "keeps_reading res \<longleftrightarrow> (\<forall>j. 0 \<le> sock_write_data (res j)) \<and> (\<forall>k. \<exists>j\<ge>k. sock_write_data (res j) \<noteq> 0)"

lemma write_loop_survives:
  assumes "write_loop res k c wire = Some (alive, c', out)" "\<forall>j. 0 \<le> sock_write_data (res j)"
  shows "alive"
proof -
  have "All (\<lambda>j. 0 \<le> sock_write_data (res j)) \<longrightarrow> fst (alive, c', out)"
  proof (rule write_loop.raw_induct [where P = "\<lambda>res k c wire v.
      All (\<lambda>j. 0 \<le> sock_write_data (res j)) \<longrightarrow> fst v", OF _ assms(1)])
    fix f res k c wire v
    assume IH: "\<And>res k c wire v. f res k c wire = Some v \<Longrightarrow>
        (\<forall>j. 0 \<le> sock_write_data (res j)) \<longrightarrow> fst v"
      and eq: "(case tc_replies c of
          [] \<Rightarrow> Some (True, c, wire)
        | r # rs \<Rightarrow>
            do { bs \<leftarrow> reply_bytes r (tc_resp_pos c);
                 let n = sock_write_data (res k);
                 if n = -1 then Some (False, c, wire)
                 else if n = 0 then f res (Suc k) c wire
                 else if rp_size r \<le> nat n + tc_resp_pos c
                 then f res (Suc k) (c\<lparr>tc_replies := rs, tc_resp_pos := 0\<rparr>) (wire @ bs)
                 else f res (Suc k) (c\<lparr>tc_resp_pos := tc_resp_pos c + nat n\<rparr>)
                        (wire @ take (nat n) bs) }) = Some v"
    show "(\<forall>j. 0 \<le> sock_write_data (res j)) \<longrightarrow> fst v"
    proof
      assume z: "\<forall>j. 0 \<le> sock_write_data (res j)"
      then have "sock_write_data (res k) \<noteq> -1" by (metis neg_0_le_iff_le not_one_le_zero)
      then show "fst v"
        using eq IH [THEN mp, OF _ z] by (auto simp: Let_def split: list.splits Option.bind_splits if_splits)
    qed
  qed
  then show ?thesis using assms(2) by simp
qed

lemma write_reply_all:
  assumes "sw_inv w" "sw_heap w a = Some c" "keeps_reading res"
  shows "\<exists>w'. write_reply res (tc_fd c) w = Some (w', owed c) \<and> sw_inv w' \<and>
    sw_pipe w' = sw_pipe w \<and> sw_q_msg w' = sw_q_msg w"
proof -
  note at = sw_inv_at [OF assms(1,2)]
  have rok: "replies_ok c" using at(4) by (simp add: io_ok_def)
  have pos: "\<forall>j. -1 \<le> sock_write_data (res j)" "\<forall>k. \<exists>j\<ge>k. sock_write_data (res j) \<noteq> 0"
    using assms(3) by (auto simp: keeps_reading_def intro: order_trans [of "-1" 0])
  obtain alive d wire where wl: "write_loop res 0 c [] = Some (alive, d, wire)"
    "wire @ owed d = owed c" "alive \<longrightarrow> tc_replies d = []"
    using write_loop_ok [where res = res and k = 0 and wire = "[]", OF rok] pos by (auto simp only: append_Nil)
  have "alive" using write_loop_survives [OF wl(1)] assms(3) by (simp add: keeps_reading_def)
  then have "wire = owed c" using wl by (simp add: owed_def)
  moreover obtain w' out where "write_reply res (tc_fd c) w = Some (w', out)" "sw_inv w'"
    using write_reply_inv [OF assms(1,2) refl pos] by blast
  ultimately show ?thesis
    using at wl(1) assms(2) \<open>alive\<close> by (auto simp: write_reply_def Let_def)
qed

lemma reply_returned:
  assumes "sw_inv w" "sw_heap w a = Some c" "sw_pipe w = []" "sw_q_msg w = []" "36 \<le> length (tc_querybuf c)"
    "rm_cmdno msg = CMDNO_PUSH" "rm_conn msg = Some a" "rm_fd msg = tc_fd c" "en_zmalloc env"
  defines "r \<equiv> build_reply (take GHEAD_SIZE (tc_querybuf c)) (offer_json (se_json (en_req env)) msg)"
  shows "signaling_worker_recv_notify env (snd (sw_send_rtc_msg msg (Done 4) w)) =
      Some (w\<lparr>sw_heap := (sw_heap w)(a \<mapsto> add_reply c r)\<rparr>)"
  using assms sw_inv_at [OF assms(1,2)]
  by (simp add: signaling_worker_recv_notify_def sw_send_rtc_msg_def sw_notify_def sw_push_msg_def pipe_write_def
    notify_def sw_process_notify_def sw_process_rtc_msg_def sw_pop_msg_def response_server_offer_def Let_def)


section \<open>A whole request\<close>

text \<open>What a push needs to get through: the pipes and the certificate are there and memory is left.\<close>

definition serviceable :: "('j, 's::zero) sys_env \<Rightarrow> 's system \<Rightarrow> rtc_msg \<Rightarrow> bool" where
  "serviceable env sy msg \<longleftrightarrow>
     (\<forall>n. en_room (sx_sw env) n) \<and> en_zmalloc (sx_sw env) \<and> se_pipe (en_req (sx_sw env)) msg = Done 4 \<and>
     se_worker (en_req (sx_sw env)) = sy_addr sy \<and>
     fst (generate_and_check_certificate (sx_cert env) (sy_rtc sy)) = 0 \<and>
     list_all (\<lambda>w. sx_node env \<notin> dom (nodes (rw_q_msg w))) (rv_workers (sy_rtc sy)) \<and> keeps_reading (sx_write env)"

text \<open>The state in which the reply is queued and everything else has been worked off.\<close>

lemma push_path:
  assumes "quiet sy" "sw_heap (sy_sig sy) a = Some c" "fresh_conn c"
    "push_request (en_req (sx_sw env)) h b uid name audio video"
    "serviceable env sy (push_msg (en_req (sx_sw env)) h a (tc_fd c) uid name audio video)"
    "i = unat (ComputeCrc32 (pe_rt (sx_pc env)) name) mod length (rv_workers (sy_rtc sy))"
  defines "d \<equiv> read_body h b (c\<lparr>tc_last := sw_now (sy_sig sy)\<rparr>)"
  shows "\<exists>cert offer s w' rtc.
    offered (sx_pc env)
      ((push_msg (en_req (sx_sw env)) h a (tc_fd c) uid name audio video)\<lparr>rm_certificate := Some cert\<rparr>) offer s \<and>
    rtc_worker_quiet w' \<and>
    sm_streams (rw_mgr w') = (sm_streams (rw_mgr (rv_workers (sy_rtc sy) ! i)))(name \<mapsto> s) \<and>
    i < length (rv_workers (sy_rtc sy)) \<and>
    rv_workers rtc = (rv_workers (sy_rtc sy))[i := w'] \<and> rv_pipe rtc = [] \<and> rv_q_msg rtc = [] \<and>
    rv_worker_num rtc = rv_worker_num (sy_rtc sy) \<and>
    sys_push env h b i g (tc_fd c) sy = sys_write env (tc_fd c)
      (sy\<lparr>sy_rtc := rtc,
          sy_sig := (sy_sig sy)\<lparr>sw_heap := (sw_heap (sy_sig sy))(a \<mapsto>
            add_reply d (build_reply h (offer_json (se_json (en_req (sx_sw env)))
              ((push_msg (en_req (sx_sw env)) h a (tc_fd c) uid name audio video)\<lparr>rm_sdp := offer\<rparr>))))\<rparr>\<rparr>)"
proof -
  let ?m = "push_msg (en_req (sx_sw env)) h a (tc_fd c) uid name audio video"
  let ?w = "sy_sig sy" and ?r = "sy_rtc sy"
  have q: "sw_inv ?w" "sw_pipe ?w = []" "sw_q_msg ?w = []" using assms(1) by (simp_all add: quiet_def)
  have sv: "\<forall>n. en_room (sx_sw env) n" "en_zmalloc (sx_sw env)" "se_pipe (en_req (sx_sw env)) ?m = Done 4"
    "se_worker (en_req (sx_sw env)) = sy_addr sy" using assms(5) by (simp_all add: serviceable_def)
  note rd = push_reads [OF q(1) assms(2,3) sv(1) assms(4) sv(3)]
  have m: "rm_cmdno ?m = CMDNO_PUSH" "rm_worker ?m = Some (sy_addr sy)" "rm_stream_name ?m = name"
    "rm_conn ?m = Some a" "rm_fd ?m = tc_fd c" using sv(4) by (simp_all add: push_msg_def)
  obtain s1 w1 cert where s1: "rtc_server_recv_notify (pe_rt (sx_pc env)) (sx_cert env) (sx_node env) (Done 4) g
      (snd (rv_send_rtc_msg ?m (Done 4) ?r)) = Some s1" "i < length (rv_workers ?r)"
    "rv_workers s1 = (rv_workers ?r)[i := w1]" "rv_pipe s1 = []" "rv_q_msg s1 = []"
    "rv_worker_num s1 = rv_worker_num ?r"
    "rw_pipe w1 = [RW_RTC_MSG]" "lfq_inv (rw_q_msg w1)" "rw_mgr w1 = rw_mgr (rv_workers ?r ! i)"
    "lfq_contents (rw_q_msg w1) = [?m\<lparr>rm_certificate := Some cert\<rparr>]"
    using server_hands_over [where s = ?r and msg = ?m and i = i and ce = "sx_cert env" and g = g
        and node = "sx_node env" and rt = "pe_rt (sx_pc env)"] assms(1,5,6) m(3)
    by (auto simp: quiet_def serviceable_def list_all_iff)
  have "mgr_ok (rw_mgr w1)" using assms(1) s1(2,9) by (simp add: quiet_def rtc_worker_quiet_def list_all_length)
  from worker_offers [OF s1(7,8,10) this, of "sy_addr sy" "sx_pc env"] m
  obtain w' offer s where o: "rtc_worker_recv_notify (sx_pc env) w1 =
      Some (w', [(sy_addr sy, ?m\<lparr>rm_certificate := Some cert, rm_sdp := offer\<rparr>)])"
    "offered (sx_pc env) (?m\<lparr>rm_certificate := Some cert\<rparr>) offer s" "rtc_worker_quiet w'"
    "sm_streams (rw_mgr w') = (sm_streams (rw_mgr (rv_workers ?r ! i)))(name \<mapsto> s)"
    using s1(9) by auto
  let ?w2 = "?w\<lparr>sw_heap := (sw_heap ?w)(a \<mapsto> d)\<rparr>"
  let ?s2 = "s1\<lparr>rv_workers := (rv_workers ?r)[i := w']\<rparr>"
  have i2: "sw_inv ?w2" using rd(4) by (simp add: d_def)
  have h: "length h = 36" using assms(4) by (simp add: push_request_def)
  have ret: "signaling_worker_recv_notify (sx_sw env) (snd (sw_send_rtc_msg
        (?m\<lparr>rm_certificate := Some cert, rm_sdp := offer\<rparr>) (Done 4) ?w2)) =
      Some (?w\<lparr>sw_heap := (sw_heap ?w)(a \<mapsto> add_reply d (build_reply h
        (offer_json (se_json (en_req (sx_sw env))) (?m\<lparr>rm_sdp := offer\<rparr>))))\<rparr>)"
    using reply_returned [OF i2, where a = a and c = d and env = "sx_sw env" and
        msg = "?m\<lparr>rm_certificate := Some cert, rm_sdp := offer\<rparr>"] q m sv(2) h
    by (simp add: d_def offer_json_def)
  have "sys_push env h b i g (tc_fd c) sy = sys_write env (tc_fd c)
      (sy\<lparr>sy_rtc := ?s2, sy_sig := ?w\<lparr>sw_heap := (sw_heap ?w)(a \<mapsto> add_reply d (build_reply h
        (offer_json (se_json (en_req (sx_sw env))) (?m\<lparr>rm_sdp := offer\<rparr>))))\<rparr>\<rparr>)"
    using rd(1,3) sv(3) s1(1,2,3) o(1) ret
    by (simp add: sys_push_def sys_read_def sys_server_def sys_worker_def sys_notify_def at_index_def d_def)
  then show ?thesis using o(2-4) s1(2-6) by (intro exI [of _ cert] exI [of _ offer] exI [of _ s] exI [of _ w'] exI [of _ ?s2]) simp
qed


lemma pushed_conn_owes:
  assumes "quiet sy" "sw_heap (sy_sig sy) a = Some c" "tc_replies c = []"
    "push_request env h b uid name audio video" "short_json json"
  defines "e \<equiv> add_reply (read_body h b (c\<lparr>tc_last := sw_now (sy_sig sy)\<rparr>)) (build_reply h json)"
  shows "owed e = set_body_len (length json) h @ json" "tc_fd e = tc_fd c"
    "sw_inv ((sy_sig sy)\<lparr>sw_heap := (sw_heap (sy_sig sy))(a \<mapsto> e)\<rparr>)"
proof -
  have inv: "sw_inv (sy_sig sy)" using assms(1) by (simp add: quiet_def)
  note at = sw_inv_at [OF inv assms(2)]
  have h: "length h = 36" "36 + length b < 65535" "unat (gh_body_len (ghead_of h)) = length b"
    using assms(4) by (auto simp: push_request_def)
  have pos: "tc_resp_pos c = 0" using at(4) assms(3) by (simp add: io_ok_def replies_ok_def)
  show "owed e = set_body_len (length json) h @ json"
    using assms(3,5) pos reply_bytes_small [OF h(1), of json]
    by (simp add: e_def owed_def add_reply_def reply_text_def short_json_def)
  show fd: "tc_fd e = tc_fd c" by (simp add: e_def)
  have "io_ok (read_body h b (c\<lparr>tc_last := sw_now (sy_sig sy)\<rparr>))" using at(4) by simp
  then have "io_ok e" unfolding e_def by (rule add_reply_ok) (rule build_reply_ok [OF h(1) assms(5)])
  moreover have "stream_ok e" using h by (simp add: e_def stream_ok_def Let_def add_reply_def)
  ultimately show "sw_inv ((sy_sig sy)\<lparr>sw_heap := (sw_heap (sy_sig sy))(a \<mapsto> e)\<rparr>)"
    using sw_inv_update [OF inv assms(2) fd] by blast
qed

lemma unwritable_reply:
  assumes "quiet sy" "sw_heap (sy_sig sy) a = Some c" "tc_replies c = []" "length h = 36"
    "MAX_RES_BUF < length json" "length json < 2 ^ 31"
  shows "sys_write env (tc_fd c) (sy\<lparr>sy_rtc := rtc, sy_sig := (sy_sig sy)\<lparr>sw_heap := (sw_heap (sy_sig sy))(a \<mapsto>
    add_reply (read_body h b (c\<lparr>tc_last := sw_now (sy_sig sy)\<rparr>)) (build_reply h json))\<rparr>\<rparr>) = None"
proof -
  have "sw_inv (sy_sig sy)" using assms(1) by (simp add: quiet_def)
  note at = sw_inv_at [OF this assms(2)]
  have "write_loop (sx_write env) 0 (add_reply (read_body h b (c\<lparr>tc_last := sw_now (sy_sig sy)\<rparr>)) (build_reply h json)) [] = None"
    using assms(3) reply_bytes_over [OF assms(4-6)] by (subst write_loop.simps) (simp add: add_reply_def)
  then show ?thesis using at by (simp add: sys_write_def write_reply_def)
qed

text \<open>
  C4: A push through the whole server.  With nothing else under way, the header and the body of a
  push, the passes of the RTC server, of the worker the stream name hashes to and of the signaling
  worker, and a writable socket bring the client exactly one reply: the header it sent with the new
  body length, then the JSON text of the offer.  The stream of that name is in just that worker, and
  the system is quiet again.  An offer whose JSON text is longer than the reply buffer is never sent:
  the write reads past the buffer.\<close>

theorem push_round_trip:
  assumes "quiet sy" "sw_heap (sy_sig sy) a = Some c" "fresh_conn c" "tc_replies c = []"
    "push_request (en_req (sx_sw env)) h b uid name audio video"
    "serviceable env sy (push_msg (en_req (sx_sw env)) h a (tc_fd c) uid name audio video)"
    "i = unat (ComputeCrc32 (pe_rt (sx_pc env)) name) mod length (rv_workers (sy_rtc sy))"
  shows "\<exists>cert offer s. let msg = push_msg (en_req (sx_sw env)) h a (tc_fd c) uid name audio video;
      json = offer_json (se_json (en_req (sx_sw env))) (msg\<lparr>rm_sdp := offer\<rparr>)
    in offered (sx_pc env) (msg\<lparr>rm_certificate := Some cert\<rparr>) offer s \<and>
       (short_json json \<longrightarrow>
         (\<exists>sy' w'. sys_push env h b i g (tc_fd c) sy = Some (sy', set_body_len (length json) h @ json) \<and> quiet sy' \<and>
            rv_workers (sy_rtc sy') = (rv_workers (sy_rtc sy))[i := w'] \<and> i < length (rv_workers (sy_rtc sy)) \<and>
            sm_streams (rw_mgr w') = (sm_streams (rw_mgr (rv_workers (sy_rtc sy) ! i)))(name \<mapsto> s))) \<and>
       (MAX_RES_BUF < length json \<and> length json < 2 ^ 31 \<longrightarrow> sys_push env h b i g (tc_fd c) sy = None)"
proof -
  let ?m = "push_msg (en_req (sx_sw env)) h a (tc_fd c) uid name audio video"
  let ?js = "\<lambda>offer. offer_json (se_json (en_req (sx_sw env))) (?m\<lparr>rm_sdp := offer\<rparr>)"
  obtain cert offer s w' rtc where p: "offered (sx_pc env) (?m\<lparr>rm_certificate := Some cert\<rparr>) offer s"
    "rtc_worker_quiet w'" "sm_streams (rw_mgr w') = (sm_streams (rw_mgr (rv_workers (sy_rtc sy) ! i)))(name \<mapsto> s)"
    "i < length (rv_workers (sy_rtc sy))" "rv_workers rtc = (rv_workers (sy_rtc sy))[i := w']" "rv_pipe rtc = []"
    "rv_q_msg rtc = []" "rv_worker_num rtc = rv_worker_num (sy_rtc sy)"
    "sys_push env h b i g (tc_fd c) sy = sys_write env (tc_fd c)
      (sy\<lparr>sy_rtc := rtc, sy_sig := (sy_sig sy)\<lparr>sw_heap := (sw_heap (sy_sig sy))(a \<mapsto>
         add_reply (read_body h b (c\<lparr>tc_last := sw_now (sy_sig sy)\<rparr>)) (build_reply h (?js offer)))\<rparr>\<rparr>)"
    using push_path [OF assms(1-3,5-7), of g] by blast
  have h: "length h = 36" using assms(5) by (simp add: push_request_def)
  have "\<exists>sy' w'. sys_push env h b i g (tc_fd c) sy = Some (sy', set_body_len (length (?js offer)) h @ ?js offer) \<and>
      quiet sy' \<and> rv_workers (sy_rtc sy') = (rv_workers (sy_rtc sy))[i := w'] \<and>
      sm_streams (rw_mgr w') = (sm_streams (rw_mgr (rv_workers (sy_rtc sy) ! i)))(name \<mapsto> s)"
    if sh: "short_json (?js offer)"
  proof -
    note e = pushed_conn_owes [OF assms(1,2,4,5) sh]
    have kr: "keeps_reading (sx_write env)" using assms(6) by (simp add: serviceable_def)
    obtain x where x: "write_reply (sx_write env) (tc_fd c) ((sy_sig sy)\<lparr>sw_heap := (sw_heap (sy_sig sy))(a \<mapsto>
           add_reply (read_body h b (c\<lparr>tc_last := sw_now (sy_sig sy)\<rparr>)) (build_reply h (?js offer)))\<rparr>) =
        Some (x, set_body_len (length (?js offer)) h @ ?js offer)" "sw_inv x"
      "sw_pipe x = sw_pipe (sy_sig sy)" "sw_q_msg x = sw_q_msg (sy_sig sy)"
      using write_reply_all [OF e(3) _ kr, of a] e(1,2) by auto
    then have "sys_push env h b i g (tc_fd c) sy =
        Some (sy\<lparr>sy_rtc := rtc, sy_sig := x\<rparr>, set_body_len (length (?js offer)) h @ ?js offer)"
      unfolding p(9) by (simp add: sys_write_def)
    moreover have "quiet (sy\<lparr>sy_rtc := rtc, sy_sig := x\<rparr>)"
      using assms(1) x p by (auto simp: quiet_def list_all_iff dest: set_update_subset_insert [THEN subsetD])
    ultimately show ?thesis using p by (intro exI [of _ "sy\<lparr>sy_rtc := rtc, sy_sig := x\<rparr>"] exI [of _ w']) simp
  qed
  moreover have "sys_push env h b i g (tc_fd c) sy = None"
    if "MAX_RES_BUF < length (?js offer)" "length (?js offer) < 2 ^ 31"
    unfolding p(9) by (rule unwritable_reply [OF assms(1,2,4) h that])
  ultimately show ?thesis using p by (intro exI [of _ cert] exI [of _ offer] exI [of _ s]) (simp add: Let_def)
qed


definition sample_sys_env :: "(unit, int) sys_env" where
  "sample_sys_env = \<lparr>sx_sw = (sample_sw_env 1)\<lparr>en_req := ref_env\<lparr>se_json := ref_json\<lparr>js_int :=
       (\<lambda>j k. Some (if k = ''cmdno'' then CMDNO_PUSH else 1))\<rparr>\<rparr>\<rparr>,
     sx_pc = sample_pc_env, sx_cert = sample_cert, sx_node = 1, sx_write = (\<lambda>k. Done 100)\<rparr>"

definition sample_system :: "int sig_worker \<Rightarrow> int system" where
  "sample_system w = \<lparr>sy_addr = 1, sy_sig = w, sy_rtc = sample_rtc_server\<lparr>rv_q_msg := []\<rparr>\<rparr>"

lemma sample_system_quiet:
  assumes "sw_inv w" "sw_pipe w = []" "sw_q_msg w = []"
  shows "quiet (sample_system w)"
  using assms
  by (simp add: quiet_def sample_system_def sample_rtc_server_def rtc_worker_quiet_def rtc_worker_new_def mgr_ok_def
    Rtc_Server.sample_manager_def rtc_server_new_def)

theorem push_round_trip_witness:
  "\<exists>w sy'. new_conn (sample_sw_env 1) 5 (sig_worker_new 60 0) = Some w \<and>
     sys_push sample_sys_env (take 36 Signaling_Request.sample_request) ''{}'' 0 7 5 (sample_system w) =
       Some (sy', set_body_len 2 (take 36 Signaling_Request.sample_request) @ ''{}'') \<and> quiet sy'"
proof -
  let ?w0 = "sig_worker_new 60 0 :: int sig_worker"
  have en: "enabled (Ev_accept (sample_sw_env 1) 5) ?w0"
    by (simp add: sig_worker_new_def sample_sw_env_def)
  obtain w where w: "new_conn (sample_sw_env 1) 5 ?w0 = Some w" "sw_inv w"
    using new_conn_inv [OF sw_inv_new en] by blast
  then obtain c where c: "sw_heap w 1 = Some c" using new_conn_sample [OF w(1)] by auto
  have "sw_conns w ! 5 = Some 1" "length (sw_conns w) = 10" using new_conn_sample [OF w(1)] by auto
  then have fd: "tc_fd c = 5" using sw_inv_slot [OF w(2), of 5 1] c by auto
  have new: "fresh_conn c" "tc_replies c = []" "sw_pipe w = []" "sw_q_msg w = []"
    using w(1) c by (auto simp: new_conn_def Let_def sample_sw_env_def sig_worker_new_def tcp_conn_new_def
      fresh_conn_def)
  have "push_request (en_req (sx_sw sample_sys_env)) (take 36 Signaling_Request.sample_request) ''{}'' 7 ''live'' 1 1"
    by (simp add: push_request_def ghead_sample_request sample_sys_env_def ref_env_def ref_json_def)
  moreover have "serviceable sample_sys_env (sample_system w) (push_msg (en_req (sx_sw sample_sys_env))
      (take 36 Signaling_Request.sample_request) 1 (tc_fd c) 7 ''live'' 1 1)"
    by (simp add: serviceable_def sample_sys_env_def sample_sw_env_def ref_env_def sample_system_def
      generate_and_check_certificate_def sample_cert_def sample_rtc_server_def rtc_worker_new_def lfq_new_def
      keeps_reading_def sock_write_data_def) blast
  moreover have "sw_heap (sy_sig (sample_system w)) 1 = Some c" "length (rv_workers (sy_rtc (sample_system w))) = 1"
    using c by (simp_all add: sample_system_def sample_rtc_server_def)
  moreover have js: "offer_json (se_json (en_req (sx_sw sample_sys_env))) msg = ''{}''" for msg
    by (simp add: sample_sys_env_def ref_env_def ref_json_def offer_json_def)
  ultimately obtain sy' where
    "sys_push sample_sys_env (take 36 Signaling_Request.sample_request) ''{}'' 0 7 (tc_fd c) (sample_system w) =
       Some (sy', set_body_len 2 (take 36 Signaling_Request.sample_request) @ ''{}'')" "quiet sy'"
    using push_round_trip [OF sample_system_quiet [OF w(2) new(3,4)], of 1 c sample_sys_env
        "take 36 Signaling_Request.sample_request" "''{}''" 7 "''live''" 1 1 0 7] new(1,2)
    unfolding js Let_def by (auto simp: short_json_def numeral_2_eq_2)
  then show ?thesis using w fd by auto
qed

end
