(* ===== verification/Refinement.thy ===== *)
theory Refinement
  imports Prelude "HOL-Library.Multiset"
begin

text \<open>
  Forward simulation between a component and its specification: the code's step may fault (\<open>None\<close>) and
  is driven by events that the environment keeps within its promises (\<open>fine\<close>); the specification's step
  is total.  Both yield messages, compared through \<open>view\<close>.
\<close>

primrec steps :: "('e \<Rightarrow> 'c \<Rightarrow> ('c \<times> 'o list) option) \<Rightarrow> 'e list \<Rightarrow> 'c \<Rightarrow> ('c \<times> 'o list) option" where
  "steps step [] c = Some (c, [])"
| "steps step (e # es) c =
     do { (c, out) \<leftarrow> step e c; (c, out') \<leftarrow> steps step es c; Some (c, out @ out') }"

primrec spec_steps :: "('e \<Rightarrow> 'a \<Rightarrow> 'a \<times> 'o list) \<Rightarrow> 'e list \<Rightarrow> 'a \<Rightarrow> 'a \<times> 'o list" where
  "spec_steps step [] a = (a, [])"
| "spec_steps step (e # es) a =
     (let (a, out) = step e a; (a, out') = spec_steps step es a in (a, out @ out'))"

primrec all_fine ::
    "('e \<Rightarrow> 'c \<Rightarrow> bool) \<Rightarrow> ('e \<Rightarrow> 'c \<Rightarrow> ('c \<times> 'o list) option) \<Rightarrow> 'e list \<Rightarrow> 'c \<Rightarrow> bool" where
  "all_fine fine step [] c \<longleftrightarrow> True"
| "all_fine fine step (e # es) c \<longleftrightarrow>
     fine e c \<and> (case step e c of None \<Rightarrow> True | Some (c', _) \<Rightarrow> all_fine fine step es c')"

locale simulation =
  fixes cstep :: "'e \<Rightarrow> 'c \<Rightarrow> ('c \<times> 'o list) option"
    and astep :: "'e \<Rightarrow> 'a \<Rightarrow> 'a \<times> 'o list"
    and inv :: "'c \<Rightarrow> bool"
    and fine :: "'e \<Rightarrow> 'c \<Rightarrow> bool"
    and abst :: "'c \<Rightarrow> 'a"
    and view :: "'o \<Rightarrow> 'v"
  assumes step_ok: "inv c \<Longrightarrow> fine e c \<Longrightarrow>
      \<exists>c' out. cstep e c = Some (c', out) \<and> inv c' \<and> fst (astep e (abst c)) = abst c' \<and>
        map view out = map view (snd (astep e (abst c)))"
begin

lemma run_ok:
  assumes "inv c" "all_fine fine cstep es c"
  shows "\<exists>c' out. steps cstep es c = Some (c', out) \<and> inv c' \<and> abst c' = fst (spec_steps astep es (abst c)) \<and>
    map view out = map view (snd (spec_steps astep es (abst c)))"
  using assms
proof (induction es arbitrary: c)
  case (Cons e es)
  obtain c1 out1 where s: "cstep e c = Some (c1, out1)" "inv c1" "fst (astep e (abst c)) = abst c1"
    "map view out1 = map view (snd (astep e (abst c)))"
    using step_ok [OF Cons.prems(1), of e] Cons.prems(2) by auto
  then obtain c' out where r: "steps cstep es c1 = Some (c', out)" "inv c'"
    "abst c' = fst (spec_steps astep es (abst c1))" "map view out = map view (snd (spec_steps astep es (abst c1)))"
    using Cons.IH [OF s(2)] Cons.prems(2) by auto
  obtain o1 where "astep e (abst c) = (abst c1, o1)" using s(3) by (cases "astep e (abst c)") auto
  then show ?case using s(1,4) r by (auto simp: Let_def split: prod.split)
qed simp

end

text \<open>
  Book-keeping along a run: what every step pays out of what it holds and of what is charged to it.  What
  has been paid in the end, with what is still held, never exceeds what was charged and held at the start.
\<close>

locale ledger =
  fixes step :: "'e \<Rightarrow> 'c \<Rightarrow> ('c \<times> 'o list) option"
    and inv :: "'c \<Rightarrow> bool"
    and fine :: "'e \<Rightarrow> 'c \<Rightarrow> bool"
    and held :: "'c \<Rightarrow> 'b multiset"
    and paid :: "'o list \<Rightarrow> 'b multiset"
    and charged :: "'o list \<Rightarrow> 'b multiset"
  assumes step_kept: "inv c \<Longrightarrow> fine e c \<Longrightarrow>
      \<exists>c' out. step e c = Some (c', out) \<and> inv c' \<and> paid out + held c' \<subseteq># charged out + held c"
    and paid_simps: "paid [] = {#}" "paid (xs @ ys) = paid xs + paid ys"
    and charged_simps: "charged [] = {#}" "charged (xs @ ys) = charged xs + charged ys"
begin

lemma run_kept:
  assumes "inv c" "all_fine fine step es c"
  shows "\<exists>c' out. steps step es c = Some (c', out) \<and> inv c' \<and> paid out + held c' \<subseteq># charged out + held c"
  using assms
proof (induction es arbitrary: c)
  case Nil
  then show ?case by (simp add: paid_simps charged_simps)
next
  case (Cons e es)
  obtain c1 out1 where s: "step e c = Some (c1, out1)" "inv c1" "paid out1 + held c1 \<subseteq># charged out1 + held c"
    using step_kept [OF Cons.prems(1), of e] Cons.prems(2) by auto
  then obtain c' out where r: "steps step es c1 = Some (c', out)" "inv c'" "paid out + held c' \<subseteq># charged out + held c1"
    using Cons.IH [OF s(2)] Cons.prems(2) by auto
  have "paid (out1 @ out) + held c' \<subseteq># paid out1 + (charged out + held c1)"
    using r(3) by (simp add: paid_simps add.assoc)
  also have "\<dots> = charged out + (paid out1 + held c1)" by (simp add: ac_simps)
  also have "\<dots> \<subseteq># charged out + (charged out1 + held c)" using s(3) by (rule subset_mset.add_left_mono)
  finally have "paid (out1 @ out) + held c' \<subseteq># charged (out1 @ out) + held c" by (simp add: charged_simps ac_simps)
  then show ?case using s(1) r(1,2) by auto
qed

end

end
