(* ===== verification/Rtc_Worker_Spec.thy ===== *)
theory Rtc_Worker_Spec
  imports Rtc_Worker_Properties Refinement
begin

text \<open>
  What an RTC worker promises, without queues on the heap, peer connections and transports: messages
  are taken in order, a push makes the client the owner of the stream of that name and is answered, an
  answer changes no owner.  The worker's code refines this specification.
\<close>

section \<open>The specification\<close>

record worker_spec =
  ws_pipe :: "int list"
  ws_queue :: "rtc_msg list"
  ws_owner :: "string \<Rightarrow> u64 option"

text \<open>What the RTC server does to the worker (with the node allocated), and the wake-ups of its loop.\<close>

datatype worker_event = Msg_sent nat rtc_msg sys_result | Stopped sys_result | Woken

definition spec_msg :: "rtc_msg \<Rightarrow> worker_spec \<Rightarrow> worker_spec \<times> (nat \<times> rtc_msg) list" where
  "spec_msg msg a =
     (if rm_cmdno msg = CMDNO_PUSH then
        (a\<lparr>ws_owner := (ws_owner a)(rm_stream_name msg \<mapsto> rm_uid msg)\<rparr>,
         case rm_worker msg of None \<Rightarrow> [] | Some s \<Rightarrow> [(s, msg)])
      else (a, []))"

fun spec_step :: "worker_event \<Rightarrow> worker_spec \<Rightarrow> worker_spec \<times> (nat \<times> rtc_msg) list" where
  "spec_step (Msg_sent n msg r) a =
     (a\<lparr>ws_queue := ws_queue a @ [msg], ws_pipe := pipe_write r RW_RTC_MSG (ws_pipe a)\<rparr>, [])"
| "spec_step (Stopped r) a = (a\<lparr>ws_pipe := pipe_write r RW_QUIT (ws_pipe a)\<rparr>, [])"
| "spec_step Woken a =
     (case ws_pipe a of
        [] \<Rightarrow> (a, [])
      | k # ks \<Rightarrow>
          let a = a\<lparr>ws_pipe := ks\<rparr> in
          if k \<noteq> RW_RTC_MSG then (a, [])
          else case ws_queue a of [] \<Rightarrow> (a, []) | m # ms \<Rightarrow> spec_msg m (a\<lparr>ws_queue := ms\<rparr>))"

section \<open>The worker\<close>

fun rw_step :: "pc_env \<Rightarrow> worker_event \<Rightarrow> rtc_worker \<Rightarrow> (rtc_worker \<times> (nat \<times> rtc_msg) list) option" where
  "rw_step env (Msg_sent n msg r) w = do { (_, w) \<leftarrow> rw_send_rtc_msg n msg r w; Some (w, []) }"
| "rw_step env (Stopped r) w = Some (rw_stop r w, [])"
| "rw_step env Woken w = rtc_worker_recv_notify env w"

text \<open>Messages whose lines, if they are an answer, keep \<^verbatim>\<open>substr\<close> inside its string.\<close>

definition msg_fine :: "pc_env \<Rightarrow> rtc_msg \<Rightarrow> bool" where
  "msg_fine env msg \<longleftrightarrow> (rm_cmdno msg = CMDNO_ANSWER \<longrightarrow>
     list_all (line_ok (pe_rt env)) (rtc_tokenize (pe_rt env) (rm_sdp msg) (CHR 0x0A)))"

text \<open>The allocator gives out nodes that are not in use, and the messages are fine.\<close>

definition event_fine :: "pc_env \<Rightarrow> worker_event \<Rightarrow> rtc_worker \<Rightarrow> bool" where
  "event_fine env e w \<longleftrightarrow>
     (case e of Msg_sent n msg r \<Rightarrow> n \<notin> dom (nodes (rw_q_msg w)) \<and> msg_fine env msg | _ \<Rightarrow> True)"

section \<open>Refinement\<close>

definition owner_of :: "stream_manager \<Rightarrow> string \<Rightarrow> u64 option" where
  "owner_of m = map_option rs_uid \<circ> sm_streams m"

definition abs_worker :: "rtc_worker \<Rightarrow> worker_spec" where
  "abs_worker w = \<lparr>ws_pipe = rw_pipe w, ws_queue = lfq_contents (rw_q_msg w), ws_owner = owner_of (rw_mgr w)\<rparr>"

definition worker_ok :: "pc_env \<Rightarrow> rtc_worker \<Rightarrow> bool" where
  "worker_ok env w \<longleftrightarrow> lfq_inv (rw_q_msg w) \<and> mgr_ok (rw_mgr w) \<and> list_all (msg_fine env) (lfq_contents (rw_q_msg w))"

text \<open>What goes back, but for the offer.\<close>

definition without_offer :: "nat \<times> rtc_msg \<Rightarrow> nat \<times> rtc_msg" where
  "without_offer x = (fst x, (snd x)\<lparr>rm_sdp := []\<rparr>)"

definition refines_step :: "pc_env \<Rightarrow> worker_event \<Rightarrow> rtc_worker \<Rightarrow> bool" where
  "refines_step env e w \<longleftrightarrow> (\<exists>w' out. rw_step env e w = Some (w', out) \<and> worker_ok env w' \<and>
     fst (spec_step e (abs_worker w)) = abs_worker w' \<and>
     map without_offer out = map without_offer (snd (spec_step e (abs_worker w))))"

lemma answer_keeps_owners:
  assumes "mgr_ok (rw_mgr w)" "rm_cmdno msg = CMDNO_ANSWER" "msg_fine env msg"
  shows "\<exists>w'. rw_process_answer env msg w = Some w' \<and> mgr_ok (rw_mgr w') \<and> owner_of (rw_mgr w') = owner_of (rw_mgr w) \<and>
    rw_q_msg w' = rw_q_msg w \<and> rw_pipe w' = rw_pipe w"
proof (cases "addressee msg (rw_mgr w)")
  case None
  then show ?thesis using assms(1) by (simp add: process_answer_cases)
next
  case (Some s)
  then have s: "sm_streams (rw_mgr w) (rm_stream_name msg) = Some s"
    by (auto simp: addressee_def find_push_stream_def split: if_splits option.splits)
  then have ok: "transports_ok (pc_transport (rs_pc s))" "rs_name s = rm_stream_name msg"
    using assms(1) by (auto simp: mgr_ok_def)
  have "list_all (line_ok (pe_rt env)) (rtc_tokenize (pe_rt env) (rm_sdp msg) (CHR 0x0A))"
    using assms(2,3) by (simp add: msg_fine_def)
  from set_remote_sdp_total [OF ok(1) this] show ?thesis
    using ok(2) assms(1) s Some by (auto simp: process_answer_cases mgr_ok_def owner_of_def fun_eq_iff)
qed

lemma push_sets_owner:
  assumes "mgr_ok (rw_mgr w)" "rm_cmdno msg = CMDNO_PUSH"
  shows "\<exists>w' out. rw_process_push env msg w = Some (w', out) \<and> mgr_ok (rw_mgr w') \<and>
    owner_of (rw_mgr w') = (owner_of (rw_mgr w))(rm_stream_name msg \<mapsto> rm_uid msg) \<and>
    rw_q_msg w' = rw_q_msg w \<and> rw_pipe w' = rw_pipe w \<and>
    map without_offer out = map without_offer (case rm_worker msg of None \<Rightarrow> [] | Some s \<Rightarrow> [(s, msg)])"
proof -
  obtain offer s where s: "rw_process_push env msg w =
      Some (w\<lparr>rw_mgr := (rw_mgr w)\<lparr>sm_streams := (sm_streams (rw_mgr w))(rm_stream_name msg \<mapsto> s)\<rparr>\<rparr>,
            case rm_worker msg of None \<Rightarrow> [] | Some a \<Rightarrow> [(a, msg\<lparr>rm_sdp := offer\<rparr>)])" "offered env msg offer s"
    using push_core by blast
  have "rs_uid s = rm_uid msg" using s(2) by (simp add: offered_def)
  then show ?thesis using s offered_keeps_ok [OF assms(1) s(2)]
    by (auto simp: owner_of_def fun_eq_iff without_offer_def split: option.split)
qed


lemma sent_refines:
  assumes "worker_ok env w" "n \<notin> dom (nodes (rw_q_msg w))" "msg_fine env msg"
  shows "refines_step env (Msg_sent n msg r) w"
proof -
  obtain w' where w': "rw_send_rtc_msg n msg r w = Some (notify r, w')" "lfq_inv (rw_q_msg w')"
    "lfq_contents (rw_q_msg w') = lfq_contents (rw_q_msg w) @ [msg]"
    using rtc_mailbox.send_ok [of w n msg r] assms(1,2) by (auto simp: worker_ok_def)
  moreover from w'(1) have "rw_pipe w' = pipe_write r RW_RTC_MSG (rw_pipe w)" "rw_mgr w' = rw_mgr w"
    by (auto simp: rw_send_rtc_msg_def rw_push_msg_def rw_notify_def split: Option.bind_splits)
  ultimately show ?thesis using assms(1,3) by (auto simp: refines_step_def worker_ok_def abs_worker_def)
qed

lemma stop_refines: "worker_ok env w \<Longrightarrow> refines_step env (Stopped r) w"
  by (simp add: refines_step_def worker_ok_def abs_worker_def rw_stop_def rw_notify_def)

lemma woken_refines:
  assumes "worker_ok env w"
  shows "refines_step env Woken w"
proof (cases "rw_pipe w")
  case Nil
  then show ?thesis using assms by (simp add: refines_step_def rtc_worker_recv_notify_def abs_worker_def)
next
  case (Cons k ks)
  let ?w = "w\<lparr>rw_pipe := ks\<rparr>"
  have ok: "lfq_inv (rw_q_msg w)" "mgr_ok (rw_mgr w)" using assms by (simp_all add: worker_ok_def)
  show ?thesis
  proof (cases "k = RW_RTC_MSG")
    case False
    then obtain w' where "rw_step env Woken w = Some (w', [])" "rw_q_msg w' = rw_q_msg w" "rw_mgr w' = rw_mgr w"
      "rw_pipe w' = ks"
      using Cons False
      by (cases "k = RW_QUIT"; cases "rw_thread w")
        (simp_all add: rtc_worker_recv_notify_def rw_process_notify_def rw_stop_loop_def)
    then show ?thesis using ok assms Cons False by (simp add: refines_step_def worker_ok_def abs_worker_def)
  next
    case True
    show ?thesis
    proof (cases "lfq_contents (rw_q_msg w)")
      case Nil
      then have "consume (rw_q_msg w) = Some (None, rw_q_msg w)" using lfq.pop_empty [OF ok(1)] by simp
      then have "rw_step env Woken w = Some (?w, [])"
        using Cons True
        by (simp add: rtc_worker_recv_notify_def rw_process_notify_def rw_process_rtc_msg_def rw_pop_msg_def)
      moreover have "spec_step Woken (abs_worker w) = (abs_worker ?w, [])"
        using Cons True Nil by (simp add: abs_worker_def)
      moreover have "worker_ok env ?w" using ok Nil by (simp add: worker_ok_def)
      ultimately show ?thesis by (simp add: refines_step_def)
    next
      case (Cons m ms)
      obtain q where q: "consume (rw_q_msg w) = Some (Some m, q)" "lfq_inv q" "lfq_contents q = ms"
        using lfq.pop_front [OF ok(1) Cons] by blast
      let ?v = "?w\<lparr>rw_q_msg := q\<rparr>"
      have fine: "msg_fine env m" "list_all (msg_fine env) ms" using assms Cons by (simp_all add: worker_ok_def)
      have step: "rw_step env Woken w =
          (if rm_cmdno m = CMDNO_PUSH then rw_process_push env m ?v
           else if rm_cmdno m = CMDNO_ANSWER then do { w \<leftarrow> rw_process_answer env m ?v; Some (w, []) }
           else Some (?v, []))"
        using \<open>rw_pipe w = k # ks\<close> True q(1)
        by (simp add: rtc_worker_recv_notify_def rw_process_notify_def rw_process_rtc_msg_def rw_pop_msg_def)
      have spec: "spec_step Woken (abs_worker w) = spec_msg m (abs_worker ?v)"
        using \<open>rw_pipe w = k # ks\<close> True Cons q(3) by (simp add: abs_worker_def)
      have vok: "worker_ok env ?v" using ok q fine by (simp add: worker_ok_def)
      consider "rm_cmdno m = CMDNO_PUSH" | "rm_cmdno m = CMDNO_ANSWER" | "rm_cmdno m \<noteq> CMDNO_PUSH" "rm_cmdno m \<noteq> CMDNO_ANSWER"
        by blast
      then show ?thesis
      proof cases
        case 1
        then obtain w' out where "rw_process_push env m ?v = Some (w', out)" "mgr_ok (rw_mgr w')"
          "owner_of (rw_mgr w') = (owner_of (rw_mgr w))(rm_stream_name m \<mapsto> rm_uid m)"
          "rw_q_msg w' = q" "rw_pipe w' = ks"
          "map without_offer out = map without_offer (case rm_worker m of None \<Rightarrow> [] | Some s \<Rightarrow> [(s, m)])"
          using push_sets_owner [of ?v m env] ok by auto
        then show ?thesis using 1 step spec vok by (auto simp: refines_step_def spec_msg_def worker_ok_def abs_worker_def)
      next
        case 2
        then obtain w' where "rw_process_answer env m ?v = Some w'" "mgr_ok (rw_mgr w')"
          "owner_of (rw_mgr w') = owner_of (rw_mgr w)" "rw_q_msg w' = q" "rw_pipe w' = ks"
          using answer_keeps_owners [of ?v m env] ok fine by auto
        then show ?thesis using 2 step spec vok by (auto simp: refines_step_def spec_msg_def worker_ok_def abs_worker_def)
      next
        case 3
        then show ?thesis using step spec vok by (simp add: refines_step_def spec_msg_def)
      qed
    qed
  qed
qed

interpretation rtc_worker_sim: simulation "rw_step env" spec_step "worker_ok env" "event_fine env" abs_worker without_offer
  for env
proof
  fix w e assume "worker_ok env w" "event_fine env e w"
  then have "refines_step env e w"
    using sent_refines stop_refines woken_refines by (cases e) (auto simp: event_fine_def)
  then show "\<exists>w' out. rw_step env e w = Some (w', out) \<and> worker_ok env w' \<and> fst (spec_step e (abs_worker w)) = abs_worker w' \<and>
      map without_offer out = map without_offer (snd (spec_step e (abs_worker w)))"
    by (simp add: refines_step_def)
qed

end
