(* ===== verification/Rtc_Sharding.thy ===== *)
theory Rtc_Sharding
  imports Rtc_Worker_Spec Rtc_Server
begin

text \<open>
  The RTC server and its workers together.  The streams are spread over the workers by the checksum of
  their names, each worker with a table of its own; seen from outside they behave as one table.
\<close>

section \<open>The specification: one table\<close>

record rtc_spec =
  rs_running :: bool
  rs_pipe :: "int list"
  rs_queue :: "rtc_msg list"
  rs_cert :: "nat option"
  rs_shards :: "(int list \<times> rtc_msg list) list"
  rs_owner :: "string \<Rightarrow> u64 option"

text \<open>What signaling workers and the signal handler do, and the wake-ups of the two kinds of threads.\<close>

datatype rtc_event = Rtc_sent rtc_msg sys_result | Rtc_stop sys_result
  | Server_woken cert_env nat sys_result | Worker_woken nat

definition shard_of :: "rtcbase \<Rightarrow> nat \<Rightarrow> string \<Rightarrow> nat" where
  "shard_of rt n name = unat (ComputeCrc32 rt name) mod n"

text \<open>A step of worker \<open>i\<close>, which sees its own queue but the one table of owners.\<close>

definition spec_deliver :: "worker_event \<Rightarrow> nat \<Rightarrow> rtc_spec \<Rightarrow> rtc_spec \<times> (nat \<times> rtc_msg) list" where
  "spec_deliver e i a =
     (let (b, out) = spec_step e \<lparr>ws_pipe = fst (rs_shards a ! i), ws_queue = snd (rs_shards a ! i), ws_owner = rs_owner a\<rparr>
      in (a\<lparr>rs_shards := (rs_shards a)[i := (ws_pipe b, ws_queue b)], rs_owner := ws_owner b\<rparr>, out))"

definition spec_cert :: "cert_env \<Rightarrow> nat option \<Rightarrow> nat option" where
  "spec_cert ce cert = (case cert of
     None \<Rightarrow> ce_generate ce
   | Some c \<Rightarrow> if ce_expired ce c (ce_time ce * 1000) then ce_generate ce else Some c)"

definition spec_stop_loop :: "sys_result \<Rightarrow> rtc_spec \<Rightarrow> rtc_spec" where
  "spec_stop_loop r a =
     (if rs_running a then a\<lparr>rs_shards := map (\<lambda>(p, q). (pipe_write r RW_QUIT p, q)) (rs_shards a)\<rparr> else a)"

definition spec_route :: "rtcbase \<Rightarrow> cert_env \<Rightarrow> nat \<Rightarrow> sys_result \<Rightarrow> rtc_spec \<Rightarrow> rtc_spec" where
  "spec_route rt ce node r a =
     (case rs_queue a of
        [] \<Rightarrow> a
      | m # ms \<Rightarrow>
          let cert = spec_cert ce (rs_cert a); a = a\<lparr>rs_queue := ms, rs_cert := cert\<rparr>
          in if cert = None then a
             else fst (spec_deliver (Msg_sent node (m\<lparr>rm_certificate := cert\<rparr>) r)
                        (shard_of rt (length (rs_shards a)) (rm_stream_name m)) a))"

fun rtc_spec_step :: "rtcbase \<Rightarrow> rtc_event \<Rightarrow> rtc_spec \<Rightarrow> rtc_spec \<times> (nat \<times> rtc_msg) list" where
  "rtc_spec_step rt (Rtc_sent msg r) a =
     (a\<lparr>rs_queue := rs_queue a @ [msg], rs_pipe := pipe_write r RV_RTC_MSG (rs_pipe a)\<rparr>, [])"
| "rtc_spec_step rt (Rtc_stop r) a = (a\<lparr>rs_pipe := pipe_write r RV_QUIT (rs_pipe a)\<rparr>, [])"
| "rtc_spec_step rt (Server_woken ce node r) a =
     (let k = hd (rs_pipe a); a = a\<lparr>rs_pipe := tl (rs_pipe a)\<rparr>
      in (if k = RV_QUIT then spec_stop_loop r a else if k = RV_RTC_MSG then spec_route rt ce node r a else a, []))"
| "rtc_spec_step rt (Worker_woken i) a = spec_deliver Woken i a"

section \<open>The code\<close>

text \<open>The loops wake up only when their pipes are readable; the nodes are fresh, the messages fine.\<close>

fun rtc_step :: "pc_env \<Rightarrow> rtc_event \<Rightarrow> rtc_server \<Rightarrow> (rtc_server \<times> (nat \<times> rtc_msg) list) option" where
  "rtc_step env (Rtc_sent msg r) s = Some (snd (rv_send_rtc_msg msg r s), [])"
| "rtc_step env (Rtc_stop r) s = Some (rv_stop r s, [])"
| "rtc_step env (Server_woken ce node r) s =
     do { s \<leftarrow> rtc_server_recv_notify (pe_rt env) ce node r 0 s; Some (s, []) }"
| "rtc_step env (Worker_woken i) s =
     do { w \<leftarrow> at_index (rv_workers s) i;
          (w, out) \<leftarrow> rtc_worker_recv_notify env w;
          Some (s\<lparr>rv_workers := (rv_workers s)[i := w]\<rparr>, out) }"

fun rtc_event_fine :: "pc_env \<Rightarrow> rtc_event \<Rightarrow> rtc_server \<Rightarrow> bool" where
  "rtc_event_fine env (Rtc_sent msg r) s \<longleftrightarrow> msg_fine env msg"
| "rtc_event_fine env (Rtc_stop r) s \<longleftrightarrow> True"
| "rtc_event_fine env (Server_woken ce node r) s \<longleftrightarrow>
     rv_pipe s \<noteq> [] \<and> list_all (\<lambda>w. node \<notin> dom (nodes (rw_q_msg w))) (rv_workers s)"
| "rtc_event_fine env (Worker_woken i) s \<longleftrightarrow> i < length (rv_workers s)"

section \<open>Refinement\<close>

definition abs_rtc :: "rtcbase \<Rightarrow> rtc_server \<Rightarrow> rtc_spec" where
  "abs_rtc rt s = \<lparr>rs_running = rv_thread s, rs_pipe = rv_pipe s, rs_queue = rv_q_msg s, rs_cert = rv_certificate s,
     rs_shards = map (\<lambda>w. (rw_pipe w, lfq_contents (rw_q_msg w))) (rv_workers s),
     rs_owner = (\<lambda>name. owner_of (rw_mgr (rv_workers s ! shard_of rt (length (rv_workers s)) name)) name)\<rparr>"

text \<open>Worker \<open>i\<close> of \<open>n\<close> has only streams and messages of its own names.\<close>

definition shard_ok :: "pc_env \<Rightarrow> nat \<Rightarrow> nat \<Rightarrow> rtc_worker \<Rightarrow> bool" where
  "shard_ok env n i w \<longleftrightarrow> worker_ok env w \<and>
     (\<forall>m \<in> set (lfq_contents (rw_q_msg w)). shard_of (pe_rt env) n (rm_stream_name m) = i) \<and>
     (\<forall>name \<in> dom (sm_streams (rw_mgr w)). shard_of (pe_rt env) n name = i)"

definition rtc_ok :: "pc_env \<Rightarrow> rtc_server \<Rightarrow> bool" where
  "rtc_ok env s \<longleftrightarrow> rv_workers s \<noteq> [] \<and> rv_worker_num s = int (length (rv_workers s)) \<and>
     length (rv_workers s) < 2 ^ 31 \<and> list_all (msg_fine env) (rv_q_msg s) \<and>
     (\<forall>i < length (rv_workers s). shard_ok env (length (rv_workers s)) i (rv_workers s ! i))"

lemma dom_owner [simp]: "dom (owner_of m) = dom (sm_streams m)"
  by (auto simp: owner_of_def)

text \<open>A step of a worker's specification changes owners only at the names of its messages.\<close>

definition step_names :: "worker_event \<Rightarrow> rtc_msg list \<Rightarrow> string set" where
  "step_names e q = rm_stream_name ` (set q \<union> (case e of Msg_sent n m r \<Rightarrow> {m} | _ \<Rightarrow> {}))"

lemma spec_step_frame:
  "\<exists>p' q' upd out. dom upd \<subseteq> step_names e q \<and> set q' \<subseteq> set q \<union> (case e of Msg_sent n m r \<Rightarrow> {m} | _ \<Rightarrow> {}) \<and>
     (\<forall>ow. spec_step e \<lparr>ws_pipe = p, ws_queue = q, ws_owner = ow\<rparr> =
        (\<lparr>ws_pipe = p', ws_queue = q', ws_owner = ow ++ upd\<rparr>, out))"
proof (cases e)
  case (Msg_sent n m r)
  then show ?thesis
    by (intro exI [of _ "pipe_write r RW_RTC_MSG p"] exI [of _ "q @ [m]"] exI [of _ Map.empty] exI [of _ "[]"])
      (auto simp: step_names_def)
next
  case (Stopped r)
  then show ?thesis
    by (intro exI [of _ "pipe_write r RW_QUIT p"] exI [of _ q] exI [of _ Map.empty] exI [of _ "[]"]) simp
next
  case Woken
  have stay: ?thesis if "\<And>ow. spec_step e \<lparr>ws_pipe = p, ws_queue = q, ws_owner = ow\<rparr> =
      (\<lparr>ws_pipe = p', ws_queue = q', ws_owner = ow\<rparr>, [])" "set q' \<subseteq> set q" for p' q'
    using that Woken by (intro exI [of _ p'] exI [of _ q'] exI [of _ Map.empty] exI [of _ "[]"]) simp
  show ?thesis
  proof (cases p)
    case Nil
    then show ?thesis using Woken by (intro stay [of "[]" q]) simp_all
  next
    case (Cons k ks)
    show ?thesis
    proof (cases "k = RW_RTC_MSG \<and> q \<noteq> [] \<and> rm_cmdno (hd q) = CMDNO_PUSH")
      case True
      then show ?thesis using Woken Cons
        by (intro exI [of _ ks] exI [of _ "tl q"] exI [of _ "[rm_stream_name (hd q) \<mapsto> rm_uid (hd q)]"]
            exI [of _ "case rm_worker (hd q) of None \<Rightarrow> [] | Some s \<Rightarrow> [(s, hd q)]"])
          (cases q; auto simp: spec_msg_def step_names_def split: option.split)
    next
      case False
      then show ?thesis using Woken Cons
        by (intro stay [of ks "if k = RW_RTC_MSG then tl q else q"]) (cases q; auto simp: spec_msg_def)+
    qed
  qed
qed


lemma shard_step:
  assumes "rtc_ok env s" "i < length (rv_workers s)" "worker_ok env w'"
    "fst (spec_step e (abs_worker (rv_workers s ! i))) = abs_worker w'"
    "\<forall>n m r. e = Msg_sent n m r \<longrightarrow> shard_of (pe_rt env) (length (rv_workers s)) (rm_stream_name m) = i"
  shows "rtc_ok env (s\<lparr>rv_workers := (rv_workers s)[i := w']\<rparr>)"
    and "spec_deliver e i (abs_rtc (pe_rt env) s) = (abs_rtc (pe_rt env) (s\<lparr>rv_workers := (rv_workers s)[i := w']\<rparr>),
      snd (spec_step e (abs_worker (rv_workers s ! i))))"
proof -
  let ?n = "length (rv_workers s)" and ?w = "rv_workers s ! i" and ?rt = "pe_rt env"
  let ?q = "lfq_contents (rw_q_msg ?w)"
  have w: "shard_ok env ?n i ?w" using assms(1,2) by (simp add: rtc_ok_def)
  obtain p' q' upd out where f: "dom upd \<subseteq> step_names e ?q"
    "set q' \<subseteq> set ?q \<union> (case e of Msg_sent n m r \<Rightarrow> {m} | _ \<Rightarrow> {})"
    "\<And>ow. spec_step e \<lparr>ws_pipe = rw_pipe ?w, ws_queue = ?q, ws_owner = ow\<rparr> =
        (\<lparr>ws_pipe = p', ws_queue = q', ws_owner = ow ++ upd\<rparr>, out)"
    using spec_step_frame [of e ?q "rw_pipe ?w"] by blast
  have w': "rw_pipe w' = p'" "lfq_contents (rw_q_msg w') = q'" "owner_of (rw_mgr w') = owner_of (rw_mgr ?w) ++ upd"
    and o': "snd (spec_step e (abs_worker ?w)) = out"
    using assms(4) by (simp_all add: abs_worker_def f(3))
  have names: "\<forall>m \<in> set q'. shard_of ?rt ?n (rm_stream_name m) = i"
    using f(2) w assms(5) by (cases e) (auto simp: shard_ok_def)
  have upd: "\<forall>name \<in> dom upd. shard_of ?rt ?n name = i"
    using f(1) w assms(5) by (cases e) (auto simp: shard_ok_def step_names_def)
  have "dom (sm_streams (rw_mgr w')) = dom (sm_streams (rw_mgr ?w)) \<union> dom upd"
    using w'(3) by (metis dom_map_add dom_owner Un_commute)
  then have ok': "shard_ok env ?n i w'" using assms(3) names upd w w'(2) by (auto simp: shard_ok_def)
  then show "rtc_ok env (s\<lparr>rv_workers := (rv_workers s)[i := w']\<rparr>)"
    using assms(1,2) by (auto simp: rtc_ok_def nth_list_update)
  have "owner_of (rw_mgr ((rv_workers s)[i := w'] ! shard_of ?rt ?n name)) name =
      ((\<lambda>name. owner_of (rw_mgr (rv_workers s ! shard_of ?rt ?n name)) name) ++ upd) name" for name
  proof (cases "shard_of ?rt ?n name = i")
    case True
    then show ?thesis using w'(3) assms(2) by (cases "upd name") (simp_all add: map_add_def)
  next
    case False
    then have "name \<notin> dom upd" using upd by blast
    then show ?thesis using False by (simp add: map_add_dom_app_simps(3))
  qed
  then show "spec_deliver e i (abs_rtc ?rt s) = (abs_rtc ?rt (s\<lparr>rv_workers := (rv_workers s)[i := w']\<rparr>),
      snd (spec_step e (abs_worker ?w)))"
    using assms(2) w'(1,2) o' by (simp add: spec_deliver_def abs_rtc_def f(3) map_update fun_eq_iff)
qed

lemma worker_woken_refines:
  assumes "rtc_ok env s" "i < length (rv_workers s)"
  shows "\<exists>s' out. rtc_step env (Worker_woken i) s = Some (s', out) \<and> rtc_ok env s' \<and>
    fst (rtc_spec_step (pe_rt env) (Worker_woken i) (abs_rtc (pe_rt env) s)) = abs_rtc (pe_rt env) s' \<and>
    map without_offer out = map without_offer (snd (rtc_spec_step (pe_rt env) (Worker_woken i) (abs_rtc (pe_rt env) s)))"
proof -
  let ?w = "rv_workers s ! i"
  have "worker_ok env ?w" using assms by (simp add: rtc_ok_def shard_ok_def)
  then obtain w' out where w': "rtc_worker_recv_notify env ?w = Some (w', out)" "worker_ok env w'"
    "fst (spec_step Woken (abs_worker ?w)) = abs_worker w'"
    "map without_offer out = map without_offer (snd (spec_step Woken (abs_worker ?w)))"
    using rtc_worker_sim.step_ok [of env ?w Woken] by (auto simp: event_fine_def)
  show ?thesis using shard_step [OF assms w'(2,3)] w' assms(2) by (simp add: at_index_def)
qed

lemma cert_step:
  "generate_and_check_certificate ce s =
     (if spec_cert ce (rv_certificate s) = None then -1 else 0, s\<lparr>rv_certificate := spec_cert ce (rv_certificate s)\<rparr>)"
  by (cases "rv_certificate s") (simp_all add: generate_and_check_certificate_def spec_cert_def Let_def)

lemma route_refines:
  assumes "rtc_ok env s" "list_all (\<lambda>w. node \<notin> dom (nodes (rw_q_msg w))) (rv_workers s)"
  shows "\<exists>s'. rv_process_rtc_msg (pe_rt env) ce node r s = Some s' \<and> rtc_ok env s' \<and>
    spec_route (pe_rt env) ce node r (abs_rtc (pe_rt env) s) = abs_rtc (pe_rt env) s'"
proof (cases "rv_q_msg s")
  case Nil
  then show ?thesis using assms(1) by (simp add: rv_process_rtc_msg_def rv_pop_msg_def spec_route_def abs_rtc_def)
next
  case (Cons m ms)
  let ?rt = "pe_rt env" and ?n = "length (rv_workers s)"
  let ?cert = "spec_cert ce (rv_certificate s)"
  let ?s = "s\<lparr>rv_q_msg := ms, rv_certificate := ?cert\<rparr>"
  let ?i = "shard_of ?rt ?n (rm_stream_name m)"
  have ok: "rtc_ok env ?s" using assms(1) Cons by (simp add: rtc_ok_def)
  have fresh: "\<forall>w \<in> set (rv_workers s). lfq_inv (rw_q_msg w) \<and> node \<notin> dom (nodes (rw_q_msg w))"
    using assms by (auto simp: rtc_ok_def shard_ok_def worker_ok_def list_all_iff in_set_conv_nth)
  have gen: "generate_and_check_certificate ce (s\<lparr>rv_q_msg := ms\<rparr>) = (if ?cert = None then -1 else 0, ?s)"
    by (simp add: cert_step)
  have base: "rv_workers s \<noteq> []" "rv_worker_num s = int ?n" "?n < 2 ^ 31" using assms(1) by (simp_all add: rtc_ok_def)
  obtain w' where w': "rw_send_rtc_msg node (m\<lparr>rm_certificate := ?cert\<rparr>) r (rv_workers s ! ?i) = Some (notify r, w')"
    "rv_process_rtc_msg ?rt ce node r s = Some (if ?cert = None then ?s else ?s\<lparr>rv_workers := (rv_workers s)[?i := w']\<rparr>)"
    "?i < ?n"
    using process_rtc_msg_spec [OF Cons base fresh gen refl, where rt = ?rt and r = r]
    by (cases "?cert = None") (auto simp: shard_of_def)
  have mf: "msg_fine env (m\<lparr>rm_certificate := ?cert\<rparr>)" using assms(1) Cons by (simp add: rtc_ok_def msg_fine_def)
  have "\<forall>i < ?n. shard_ok env ?n i (rv_workers s ! i)" using assms(1) unfolding rtc_ok_def by (elim conjE)
  then have "shard_ok env ?n ?i (rv_workers s ! ?i)" using w'(3) by (elim allE impE)
  then have "worker_ok env (rv_workers s ! ?i)" unfolding shard_ok_def by (elim conjE)
  moreover have "node \<notin> dom (nodes (rw_q_msg (rv_workers s ! ?i)))" using fresh nth_mem [OF w'(3)] by blast
  ultimately have "worker_ok env w'" "fst (spec_step (Msg_sent node (m\<lparr>rm_certificate := ?cert\<rparr>) r) (abs_worker (rv_workers ?s ! ?i))) = abs_worker w'"
    using rtc_worker_sim.step_ok [of env "rv_workers s ! ?i" "Msg_sent node (m\<lparr>rm_certificate := ?cert\<rparr>) r"] mf w'(1)
    by (auto simp: event_fine_def)
  from shard_step [OF ok _ this] w'(3)
  have "rtc_ok env (?s\<lparr>rv_workers := (rv_workers s)[?i := w']\<rparr>)"
    "fst (spec_deliver (Msg_sent node (m\<lparr>rm_certificate := ?cert\<rparr>) r) ?i (abs_rtc ?rt ?s)) =
      abs_rtc ?rt (?s\<lparr>rv_workers := (rv_workers s)[?i := w']\<rparr>)" by simp_all
  moreover have "spec_route ?rt ce node r (abs_rtc ?rt s) = (if ?cert = None then abs_rtc ?rt ?s
      else fst (spec_deliver (Msg_sent node (m\<lparr>rm_certificate := ?cert\<rparr>) r) ?i (abs_rtc ?rt ?s)))"
    using Cons by (simp add: spec_route_def abs_rtc_def Let_def)
  ultimately show ?thesis using w'(2) ok by (cases "?cert = None") auto
qed


lemma stop_loop_refines:
  assumes "rtc_ok env s"
  shows "rtc_ok env (rv_stop_loop r s)"
    and "spec_stop_loop r (abs_rtc (pe_rt env) s) = abs_rtc (pe_rt env) (rv_stop_loop r s)"
proof -
  have stop: "rw_q_msg (rw_stop r w) = rw_q_msg w" "rw_mgr (rw_stop r w) = rw_mgr w"
    "rw_pipe (rw_stop r w) = pipe_write r RW_QUIT (rw_pipe w)" for w
    by (simp_all add: rw_stop_def rw_notify_def)
  have "shard_ok env n i (rw_stop r w) = shard_ok env n i w" for n i w
    by (simp add: shard_ok_def worker_ok_def stop)
  then show "rtc_ok env (rv_stop_loop r s)" using assms by (simp add: rtc_ok_def rv_stop_loop_def)
  have "shard_of (pe_rt env) (length (rv_workers s)) name < length (rv_workers s)" for name
    using assms by (simp add: rtc_ok_def shard_of_def)
  then show "spec_stop_loop r (abs_rtc (pe_rt env) s) = abs_rtc (pe_rt env) (rv_stop_loop r s)"
    by (simp add: spec_stop_loop_def abs_rtc_def rv_stop_loop_def stop)
qed

lemma rtc_ok_pipe [simp]: "rtc_ok env (s\<lparr>rv_pipe := p\<rparr>) = rtc_ok env s"
  by (simp add: rtc_ok_def)

lemma abs_rtc_pipe [simp]: "abs_rtc rt (s\<lparr>rv_pipe := p\<rparr>) = (abs_rtc rt s)\<lparr>rs_pipe := p\<rparr>"
  by (simp add: abs_rtc_def)

lemma server_woken_refines:
  assumes "rtc_ok env s" "rtc_event_fine env (Server_woken ce node r) s"
  shows "\<exists>s' out. rtc_step env (Server_woken ce node r) s = Some (s', out) \<and> rtc_ok env s' \<and>
    fst (rtc_spec_step (pe_rt env) (Server_woken ce node r) (abs_rtc (pe_rt env) s)) = abs_rtc (pe_rt env) s' \<and>
    map without_offer out = map without_offer (snd (rtc_spec_step (pe_rt env) (Server_woken ce node r) (abs_rtc (pe_rt env) s)))"
proof -
  let ?rt = "pe_rt env"
  obtain k ks where k: "rv_pipe s = k # ks" using assms(2) by (cases "rv_pipe s") auto
  let ?s = "s\<lparr>rv_pipe := ks\<rparr>"
  have a: "rs_pipe (abs_rtc ?rt s) = k # ks" "(abs_rtc ?rt s)\<lparr>rs_pipe := ks\<rparr> = abs_rtc ?rt ?s"
    using k by (simp_all add: abs_rtc_def)
  have ok: "rtc_ok env ?s" using assms(1) by simp
  have "list_all (\<lambda>w. node \<notin> dom (nodes (rw_q_msg w))) (rv_workers ?s)" using assms(2) by simp
  from route_refines [OF ok this, of ce r] obtain s1 where s1: "rv_process_rtc_msg ?rt ce node r ?s = Some s1"
    "rtc_ok env s1" "spec_route ?rt ce node r (abs_rtc ?rt ?s) = abs_rtc ?rt s1" by blast
  consider "k = RV_QUIT" | "k = RV_RTC_MSG" | "k \<noteq> RV_QUIT" "k \<noteq> RV_RTC_MSG" by blast
  then show ?thesis
  proof cases
    case 1
    then show ?thesis using k a stop_loop_refines [OF ok, of r]
      by (simp add: rtc_server_recv_notify_def rv_process_notify_def Let_def del: abs_rtc_pipe)
  next
    case 2
    then show ?thesis using k a s1
      by (simp add: rtc_server_recv_notify_def rv_process_notify_def Let_def del: abs_rtc_pipe)
  next
    case 3
    then show ?thesis using k a ok
      by (simp add: rtc_server_recv_notify_def rv_process_notify_def Let_def del: abs_rtc_pipe)
  qed
qed

interpretation rtc_sim: simulation "rtc_step env" "rtc_spec_step (pe_rt env)" "rtc_ok env" "rtc_event_fine env"
  "abs_rtc (pe_rt env)" without_offer for env
proof
  fix s e assume s: "rtc_ok env s" "rtc_event_fine env e s"
  show "\<exists>s' out. rtc_step env e s = Some (s', out) \<and> rtc_ok env s' \<and>
      fst (rtc_spec_step (pe_rt env) e (abs_rtc (pe_rt env) s)) = abs_rtc (pe_rt env) s' \<and>
      map without_offer out = map without_offer (snd (rtc_spec_step (pe_rt env) e (abs_rtc (pe_rt env) s)))"
  proof (cases e)
    case (Rtc_sent msg r)
    then show ?thesis using s
      by (simp add: rv_send_rtc_msg_def rv_notify_def rv_push_msg_def) (simp add: rtc_ok_def abs_rtc_def)
  next
    case (Rtc_stop r)
    then show ?thesis using s by (simp add: rv_stop_def rv_notify_def) (simp add: abs_rtc_def)
  next
    case (Server_woken ce node r)
    then show ?thesis using server_woken_refines [of env s ce node r] s by simp
  next
    case (Worker_woken i)
    then show ?thesis using worker_woken_refines [of env s i] s by simp
  qed
qed

text \<open>
  C11: The RTC server with its \<open>n\<close> workers acts as one table of streams.  For every interleaving of
  messages sent, stop requests and wake-ups of the server's and the workers' threads, no thread faults;
  who owns a stream name, which messages wait where, and what goes back to the signaling workers (but
  for the offers) is what one table shared by all would give; and every stream is in the worker its
  name hashes to, so no name is in two workers.\<close>

theorem streams_act_as_one_table:
  assumes "rtc_ok env s" "all_fine (rtc_event_fine env) (rtc_step env) es s"
  shows "\<exists>s' out. steps (rtc_step env) es s = Some (s', out) \<and>
    abs_rtc (pe_rt env) s' = fst (spec_steps (rtc_spec_step (pe_rt env)) es (abs_rtc (pe_rt env) s)) \<and>
    map without_offer out = map without_offer (snd (spec_steps (rtc_spec_step (pe_rt env)) es (abs_rtc (pe_rt env) s))) \<and>
    (\<forall>i < length (rv_workers s'). \<forall>name \<in> dom (sm_streams (rw_mgr (rv_workers s' ! i))).
       shard_of (pe_rt env) (length (rv_workers s')) name = i)"
proof -
  obtain s' out where "steps (rtc_step env) es s = Some (s', out)" "rtc_ok env s'"
    "abs_rtc (pe_rt env) s' = fst (spec_steps (rtc_spec_step (pe_rt env)) es (abs_rtc (pe_rt env) s))"
    "map without_offer out = map without_offer (snd (spec_steps (rtc_spec_step (pe_rt env)) es (abs_rtc (pe_rt env) s)))"
    using rtc_sim.run_ok [OF assms] by blast
  then show ?thesis by (auto simp: rtc_ok_def shard_ok_def)
qed

definition sample_rtc_events :: "rtc_event list" where
  "sample_rtc_events = [Rtc_sent sample_push (Done 4), Server_woken sample_cert 1 (Done 4), Worker_woken 0]"

theorem streams_act_as_one_table_witness:
  "\<exists>s' out. steps (rtc_step sample_pc_env) sample_rtc_events (sample_rtc_server\<lparr>rv_q_msg := []\<rparr>) = Some (s', out) \<and>
     map without_offer out = [(7, sample_push\<lparr>rm_certificate := Some 8\<rparr>)] \<and> rs_owner (abs_rtc ref_rtc s') = [''s'' \<mapsto> 5]"
proof -
  let ?s = "sample_rtc_server\<lparr>rv_q_msg := []\<rparr>"
  have rt: "pe_rt sample_pc_env = ref_rtc" by (simp add: sample_pc_env_def)
  have ok: "rtc_ok sample_pc_env ?s"
    by (simp add: rtc_ok_def shard_ok_def worker_ok_def sample_rtc_server_def rtc_worker_new_def mgr_ok_def
      Rtc_Server.sample_manager_def)
  have "rtc_step sample_pc_env (Rtc_sent sample_push (Done 4)) ?s =
      Some (?s\<lparr>rv_q_msg := [sample_push], rv_pipe := [RV_RTC_MSG]\<rparr>, [])"
    by (simp add: rv_send_rtc_msg_def rv_notify_def rv_push_msg_def pipe_write_def notify_def sample_rtc_server_def
      rtc_server_new_def)
  moreover have "rtc_event_fine sample_pc_env (Server_woken sample_cert 1 (Done 4)) (?s\<lparr>rv_q_msg := [sample_push], rv_pipe := [RV_RTC_MSG]\<rparr>)"
    by (simp add: sample_rtc_server_def rtc_worker_new_def lfq_new_def)
  moreover have "length (rv_workers s') = 1" if "rtc_step sample_pc_env (Server_woken sample_cert 1 (Done 4))
      (?s\<lparr>rv_q_msg := [sample_push], rv_pipe := [RV_RTC_MSG]\<rparr>) = Some (s', out)" for s' out
    using that by (auto simp: rtc_server_recv_notify_def rv_process_notify_def rv_process_rtc_msg_def rv_pop_msg_def
      sample_rtc_server_def generate_and_check_certificate_def sample_cert_def split: Option.bind_splits option.splits nat.splits)
  ultimately have fine: "all_fine (rtc_event_fine sample_pc_env) (rtc_step sample_pc_env) sample_rtc_events ?s"
    by (auto simp: sample_rtc_events_def msg_fine_def sample_push_def split: option.split)
  have "spec_steps (rtc_spec_step ref_rtc) sample_rtc_events (abs_rtc ref_rtc ?s) =
      ((abs_rtc ref_rtc ?s)\<lparr>rs_owner := [''s'' \<mapsto> 5]\<rparr>, [(7, sample_push\<lparr>rm_certificate := Some 8\<rparr>)])"
    by (simp add: sample_rtc_events_def abs_rtc_def sample_rtc_server_def rtc_server_new_def rtc_worker_new_def
      shard_of_def spec_route_def spec_deliver_def spec_cert_def sample_cert_def spec_msg_def pipe_write_def notify_def
      owner_of_def Rtc_Server.sample_manager_def Let_def fun_eq_iff)
      (simp add: sample_push_def)
  moreover have "without_offer (7, sample_push\<lparr>rm_certificate := Some 8\<rparr>) = (7, sample_push\<lparr>rm_certificate := Some 8\<rparr>)"
    by (simp add: without_offer_def sample_push_def rtc_msg_new_def)
  ultimately show ?thesis using streams_act_as_one_table [OF ok fine] unfolding rt by auto
qed

end
