(* ===== verification/Server_Requests.thy ===== *)
theory Server_Requests
  imports Server_System Rtc_Sharding "HOL-Library.Multiset"
begin

text \<open>
  The requests of one signaling worker on their way through the server, in every interleaving of the
  threads: which offers go back, and to whom.  A request is followed by its ticket, the message without
  what the server adds to it.
\<close>

section \<open>Tickets\<close>

definition ticket :: "rtc_msg \<Rightarrow> rtc_msg" where
  "ticket m = m\<lparr>rm_sdp := [], rm_certificate := None\<rparr>"

text \<open>The messages that will bring an offer to the signaling worker at \<open>addr\<close>.\<close>

definition asks :: "nat \<Rightarrow> rtc_msg \<Rightarrow> bool" where
  "asks addr m \<longleftrightarrow> rm_cmdno m = CMDNO_PUSH \<and> rm_worker m = Some addr"

definition tickets :: "nat \<Rightarrow> rtc_msg list \<Rightarrow> rtc_msg multiset" where
  "tickets addr ms = mset (map ticket (filter (asks addr) ms))"

definition sent_to :: "nat \<Rightarrow> (nat \<times> rtc_msg) list \<Rightarrow> rtc_msg list" where
  "sent_to addr out = map snd (filter (\<lambda>x. fst x = addr) out)"

lemma tickets_simps [simp]:
  "tickets addr [] = {#}"
  "tickets addr (m # ms) = (if asks addr m then {#ticket m#} else {#}) + tickets addr ms"
  "tickets addr (ms @ ns) = tickets addr ms + tickets addr ns"
  by (simp_all add: tickets_def)

lemma asks_frame [simp]:
  "asks addr (m\<lparr>rm_sdp := x\<rparr>) = asks addr m" "asks addr (m\<lparr>rm_certificate := c\<rparr>) = asks addr m"
  "asks addr (ticket m) = asks addr m"
  by (simp_all add: asks_def ticket_def)

lemma ticket_frame [simp]:
  "ticket (m\<lparr>rm_sdp := x\<rparr>) = ticket m" "ticket (m\<lparr>rm_certificate := c\<rparr>) = ticket m"
  "rm_conn (ticket m) = rm_conn m" "rm_fd (ticket m) = rm_fd m"
  by (simp_all add: ticket_def)

lemma tickets_concat_update:
  "i < length xs \<Longrightarrow> tickets addr (concat (map snd (xs[i := x]))) + tickets addr (snd (xs ! i)) =
     tickets addr (concat (map snd xs)) + tickets addr (snd x)"
proof (induction xs arbitrary: i)
  case (Cons y ys)
  then show ?case by (cases i) (simp_all add: ac_simps)
qed simp

lemma sent_to_view:
  "map without_offer out = map without_offer out' \<Longrightarrow> tickets addr (sent_to addr out) = tickets addr (sent_to addr out')"
proof (induction out arbitrary: out')
  case (Cons x xs)
  then obtain y ys where y: "out' = y # ys" "without_offer x = without_offer y" "map without_offer xs = map without_offer ys"
    by (cases out') auto
  have "fst x = fst y" "(snd x)\<lparr>rm_sdp := []\<rparr> = (snd y)\<lparr>rm_sdp := []\<rparr>"
    using y(2) by (simp_all add: without_offer_def)
  then have "fst x = fst y" "asks addr (snd x) = asks addr (snd y)" "ticket (snd x) = ticket (snd y)"
    using asks_frame(1) ticket_frame(1) by metis+
  then show ?case using Cons.IH [OF y(3)] y(1) by (simp add: sent_to_def)
qed (simp add: sent_to_def)

lemma mset_exchange:
  assumes "A' + q = A + q'" "q' + out \<subseteq># q + new"
  shows "A' + out \<subseteq># A + (new :: 'a multiset)"
proof -
  have "A' + out + q = A + (q' + out)" using assms(1) by (simp add: ac_simps)
  also have "\<dots> \<subseteq># A + (q + new)" using assms(2) by (rule subset_mset.add_left_mono)
  also have "\<dots> = A + new + q" by (simp add: ac_simps)
  finally show ?thesis by (simp only: mset_subset_eq_mono_add_right_cancel)
qed

lemma sent_asks_view:
  "map without_offer out = map without_offer out' \<Longrightarrow> list_all (asks addr) (sent_to addr out) = list_all (asks addr) (sent_to addr out')"
proof (induction out arbitrary: out')
  case (Cons x xs)
  then obtain y ys where y: "out' = y # ys" "without_offer x = without_offer y" "map without_offer xs = map without_offer ys"
    by (cases out') auto
  have v: "fst x = fst y" "(snd x)\<lparr>rm_sdp := []\<rparr> = (snd y)\<lparr>rm_sdp := []\<rparr>"
    using y(2) by (simp_all add: without_offer_def)
  then have "asks addr (snd x) = asks addr (snd y)" using asks_frame(1) by metis
  then show ?case using Cons.IH [OF y(3)] y(1) v(1) by (simp add: sent_to_def)
qed (simp add: sent_to_def)

section \<open>The RTC side\<close>

text \<open>Everything that waits in the RTC server and its workers, and what an event adds.\<close>

definition spec_waiting :: "rtc_spec \<Rightarrow> rtc_msg list" where
  "spec_waiting a = rs_queue a @ concat (map snd (rs_shards a))"

definition rtc_waiting :: "rtc_server \<Rightarrow> rtc_msg list" where
  "rtc_waiting s = rv_q_msg s @ concat (map (\<lambda>w. lfq_contents (rw_q_msg w)) (rv_workers s))"

fun added :: "rtc_event \<Rightarrow> rtc_msg list" where
  "added (Rtc_sent m r) = [m]"
| "added e = []"

lemma spec_waiting_abs [simp]: "spec_waiting (abs_rtc rt s) = rtc_waiting s"
  by (simp add: spec_waiting_def abs_rtc_def rtc_waiting_def comp_def)

lemma spec_waiting_frame [simp]:
  "spec_waiting (a\<lparr>rs_cert := c\<rparr>) = spec_waiting a" "spec_waiting (a\<lparr>rs_pipe := p\<rparr>) = spec_waiting a"
  "spec_waiting (a\<lparr>rs_pipe := p, rs_queue := ms, rs_cert := c\<rparr>) = spec_waiting (a\<lparr>rs_queue := ms\<rparr>)"
  by (simp_all add: spec_waiting_def)

lemma deliver_tickets:
  assumes "spec_deliver e i a = (a', out)" "i < length (rs_shards a)"
  shows "tickets addr (spec_waiting a') + tickets addr (sent_to addr out) \<subseteq>#
    tickets addr (spec_waiting a) + tickets addr (case e of Msg_sent n m r \<Rightarrow> [m] | _ \<Rightarrow> [])"
proof -
  let ?b = "\<lparr>ws_pipe = fst (rs_shards a ! i), ws_queue = snd (rs_shards a ! i), ws_owner = rs_owner a\<rparr>"
  obtain b where b: "spec_step e ?b = (b, out)" "rs_queue a' = rs_queue a"
    "rs_shards a' = (rs_shards a)[i := (ws_pipe b, ws_queue b)]"
    using assms(1) by (auto simp: spec_deliver_def Let_def split: prod.splits)
  have "tickets addr (ws_queue b) + tickets addr (sent_to addr out) \<subseteq>#
      tickets addr (snd (rs_shards a ! i)) + tickets addr (case e of Msg_sent n m r \<Rightarrow> [m] | _ \<Rightarrow> [])"
    using b(1)
    by (cases e) (auto simp: spec_msg_def sent_to_def asks_def Let_def split: list.splits if_splits option.splits)
  from mset_exchange [OF tickets_concat_update [OF assms(2), of addr "(ws_pipe b, ws_queue b)", unfolded snd_conv] this]
  show ?thesis using b(2,3) by (simp add: spec_waiting_def ac_simps)
qed

lemma deliver_asks:
  assumes "spec_deliver e i a = (a', out)"
  shows "list_all (asks addr) (sent_to addr out)"
  using assms
  by (cases e) (auto simp: spec_deliver_def spec_msg_def sent_to_def asks_def Let_def
    split: prod.splits list.splits if_splits option.splits)

lemma rtc_spec_tickets:
  assumes "rtc_spec_step rt e a = (a', out)" "rs_shards a \<noteq> []" "\<And>i. e = Worker_woken i \<Longrightarrow> i < length (rs_shards a)"
  shows "tickets addr (spec_waiting a') + tickets addr (sent_to addr out) \<subseteq>#
      tickets addr (spec_waiting a) + tickets addr (added e) \<and> list_all (asks addr) (sent_to addr out)"
proof (cases e)
  case (Server_woken ce node r)
  let ?a = "a\<lparr>rs_pipe := tl (rs_pipe a)\<rparr>"
  have out: "out = []" and a': "a' = (if hd (rs_pipe a) = RV_QUIT then spec_stop_loop r ?a
      else if hd (rs_pipe a) = RV_RTC_MSG then spec_route rt ce node r ?a else ?a)"
    using assms(1) Server_woken by (auto simp: Let_def)
  have "spec_waiting (spec_stop_loop r ?a) = spec_waiting a"
    by (simp add: spec_stop_loop_def spec_waiting_def comp_def case_prod_unfold)
  moreover have "tickets addr (spec_waiting (spec_route rt ce node r ?a)) \<subseteq># tickets addr (spec_waiting a)"
  proof (cases "rs_queue a")
    case Nil
    then show ?thesis by (simp add: spec_route_def)
  next
    case (Cons m ms)
    let ?cert = "spec_cert ce (rs_cert a)"
    let ?b = "?a\<lparr>rs_queue := ms, rs_cert := ?cert\<rparr>"
    let ?e = "Msg_sent node (m\<lparr>rm_certificate := ?cert\<rparr>) r" and ?i = "shard_of rt (length (rs_shards a)) (rm_stream_name m)"
    have r: "spec_route rt ce node r ?a = (if ?cert = None then ?b else fst (spec_deliver ?e ?i ?b))"
      using Cons by (simp add: spec_route_def Let_def)
    obtain d o' where d: "spec_deliver ?e ?i ?b = (d, o')" by fastforce
    have "?i < length (rs_shards ?b)" using assms(2) by (simp add: shard_of_def)
    from deliver_tickets [OF d this, of addr]
    have "tickets addr (spec_waiting d) \<subseteq># tickets addr (spec_waiting ?b) + tickets addr [m]"
      by (auto dest: mset_subset_eq_exists_conv [THEN iffD1] intro: subset_mset.order_trans [OF mset_subset_eq_add_left])
    moreover have "tickets addr (spec_waiting a) = tickets addr (spec_waiting ?b) + tickets addr [m]"
      using Cons by (simp add: spec_waiting_def)
    ultimately have "tickets addr (spec_waiting d) \<subseteq># tickets addr (spec_waiting a)"
      "tickets addr (spec_waiting ?b) \<subseteq># tickets addr (spec_waiting a)" by simp_all
    then show ?thesis using d unfolding r by simp
  qed
  ultimately show ?thesis using Server_woken out a' by (simp add: sent_to_def)
next
  case (Worker_woken i)
  then show ?thesis using deliver_tickets [of Woken i a a' out addr] deliver_asks [of Woken i a a' out addr] assms by simp
qed (use assms in \<open>auto simp: spec_waiting_def sent_to_def\<close>)

lemma rtc_step_tickets:
  assumes "rtc_ok env s" "rtc_event_fine env e s"
  shows "\<exists>s' out. rtc_step env e s = Some (s', out) \<and> rtc_ok env s' \<and>
    tickets addr (rtc_waiting s') + tickets addr (sent_to addr out) \<subseteq>#
      tickets addr (rtc_waiting s) + tickets addr (added e) \<and>
    list_all (asks addr) (sent_to addr out)"
proof -
  let ?rt = "pe_rt env"
  obtain a' o' where a: "rtc_spec_step ?rt e (abs_rtc ?rt s) = (a', o')" by fastforce
  obtain s' out where s: "rtc_step env e s = Some (s', out)" "rtc_ok env s'" "a' = abs_rtc ?rt s'"
    "map without_offer out = map without_offer o'"
    using rtc_sim.step_ok [OF assms] a by auto
  have "rs_shards (abs_rtc ?rt s) \<noteq> []" using assms(1) by (simp add: rtc_ok_def abs_rtc_def)
  moreover have "i < length (rs_shards (abs_rtc ?rt s))" if "e = Worker_woken i" for i
    using assms(2) that by (simp add: abs_rtc_def)
  ultimately have "tickets addr (spec_waiting a') + tickets addr (sent_to addr o') \<subseteq>#
      tickets addr (rtc_waiting s) + tickets addr (added e)" "list_all (asks addr) (sent_to addr o')"
    using rtc_spec_tickets [OF a, of addr] by simp_all
  then show ?thesis using s sent_to_view [OF s(4), of addr] sent_asks_view [OF s(4), of addr] by simp
qed

end
