(* ===== verification/Server_Interleaving.thy ===== *)
theory Server_Interleaving
  imports Server_Requests
begin

text \<open>
  One signaling worker, the RTC server and its workers in every interleaving of their callbacks and of
  the other threads (the signaling server, the other signaling workers, the signal handler).  The state
  is that of \<open>Server_System\<close>; a step is one callback or one call from another thread.
\<close>

section \<open>Steps\<close>

datatype ('j, 's) sys_event =
  Conn_given nat int sys_result
| Sig_stopped sys_result
| Sig_woken "('j, 's) sw_env"
| Client_io "('j, 's) sw_env" "int \<Rightarrow> sys_result \<times> string" "nat \<Rightarrow> sys_result" int int
| Conn_timer nat
| Clock u64
| Rtc rtc_event sys_result

text \<open>What is observed: a message sent to the RTC server, a reply queued for a connection because of an offer, bytes on the wire.\<close>

datatype sys_out = Asked rtc_msg | Offered nat rtc_msg | Wired int string

text \<open>The offer the signaling worker took out of its queue, if its connection has a new reply now.\<close>

definition offered_now :: "'s sig_worker \<Rightarrow> 's sig_worker \<Rightarrow> sys_out list" where
  "offered_now w w' =
     (case sw_q_msg w of
        [] \<Rightarrow> []
      | m # ms \<Rightarrow>
          (case rm_conn m of
             None \<Rightarrow> []
           | Some a \<Rightarrow>
               (case (sw_heap w a, sw_heap w' a) of
                  (Some c, Some c') \<Rightarrow> if tc_replies c' \<noteq> tc_replies c then [Offered a m] else []
                | _ \<Rightarrow> [])))"

definition send_all :: "(rtc_msg \<Rightarrow> sys_result) \<Rightarrow> rtc_msg list \<Rightarrow> rtc_server \<Rightarrow> rtc_server" where
  "send_all r ms s = fold (\<lambda>m s. snd (rv_send_rtc_msg m (r m) s)) ms s"

definition hand_back :: "nat \<Rightarrow> sys_result \<Rightarrow> (nat \<times> rtc_msg) list \<Rightarrow> 's sig_worker \<Rightarrow> 's sig_worker" where
  "hand_back addr r out w = fold (\<lambda>(a, m) w. if a = addr then snd (sw_send_rtc_msg m r w) else w) out w"

fun sys_step :: "pc_env \<Rightarrow> ('j, 's::zero) sys_event \<Rightarrow> 's system \<Rightarrow> ('s system \<times> sys_out list) option" where
  "sys_step pe (Conn_given node fd r) sy =
     do { (_, w) \<leftarrow> notify_new_conn node fd r (sy_sig sy); Some (sy\<lparr>sy_sig := w\<rparr>, []) }"
| "sys_step pe (Sig_stopped r) sy = Some (sy\<lparr>sy_sig := sw_stop r (sy_sig sy)\<rparr>, [])"
| "sys_step pe (Sig_woken env) sy =
     do { w \<leftarrow> signaling_worker_recv_notify env (sy_sig sy);
          Some (sy\<lparr>sy_sig := w\<rparr>, offered_now (sy_sig sy) w) }"
| "sys_step pe (Client_io env rd res fd events) sy =
     do { (w, ms, wire) \<leftarrow> conn_io_cb env rd res fd events (sy_sig sy);
          Some (sy\<lparr>sy_sig := w, sy_rtc := send_all (se_pipe (en_req env)) ms (sy_rtc sy)\<rparr>,
                map Asked ms @ [Wired fd wire]) }"
| "sys_step pe (Conn_timer a) sy = do { w \<leftarrow> process_timeout a (sy_sig sy); Some (sy\<lparr>sy_sig := w\<rparr>, []) }"
| "sys_step pe (Clock t) sy = Some (sy\<lparr>sy_sig := (sy_sig sy)\<lparr>sw_now := t\<rparr>\<rparr>, [])"
| "sys_step pe (Rtc e r) sy =
     do { (s, out) \<leftarrow> rtc_step pe e (sy_rtc sy);
          Some (sy\<lparr>sy_sig := hand_back (sy_addr sy) r out (sy_sig sy), sy_rtc := s\<rparr>, []) }"

section \<open>Requests under way\<close>

definition in_flight :: "'s system \<Rightarrow> rtc_msg multiset" where
  "in_flight sy = tickets (sy_addr sy) (rtc_waiting (sy_rtc sy)) + tickets (sy_addr sy) (sw_q_msg (sy_sig sy))"

text \<open>
  When a step can happen.  A new connection is not put at an address that a request under way still
  names, and an offer fits the reply buffer; the rest is as in \<open>enabled\<close> and \<open>rtc_event_fine\<close>.
\<close>

fun sys_fine :: "pc_env \<Rightarrow> ('j, 's::zero) sys_event \<Rightarrow> 's system \<Rightarrow> bool" where
  "sys_fine pe (Conn_given node fd r) sy \<longleftrightarrow> node \<notin> dom (nodes (sw_q_conn (sy_sig sy)))"
| "sys_fine pe (Sig_stopped r) sy \<longleftrightarrow> True"
| "sys_fine pe (Sig_woken env) sy \<longleftrightarrow>
     (case sw_pipe (sy_sig sy) of
        [] \<Rightarrow> True
      | k # ks \<Rightarrow>
          (k = SW_NEW_CONN \<longrightarrow> (case lfq_contents (sw_q_conn (sy_sig sy)) of
             [] \<Rightarrow> True
           | fd # fds \<Rightarrow> enabled (Ev_accept env fd) (sy_sig sy) \<and>
               Some (en_new env) \<notin># image_mset rm_conn (in_flight sy))) \<and>
          (k = SW_RTC_MSG \<longrightarrow> (case sw_q_msg (sy_sig sy) of
             [] \<Rightarrow> True
           | m # ms \<Rightarrow> short_json (offer_json (se_json (en_req env)) m))))"
| "sys_fine pe (Client_io env rd res fd events) sy \<longleftrightarrow>
     enabled (Ev_io env rd res fd events) (sy_sig sy) \<and> se_worker (en_req env) = sy_addr sy \<and>
     (case conn_io_cb env rd res fd events (sy_sig sy) of
        None \<Rightarrow> True
      | Some (w, ms, wire) \<Rightarrow> list_all (msg_fine pe) ms)"
| "sys_fine pe (Conn_timer a) sy \<longleftrightarrow> a \<in> dom (sw_heap (sy_sig sy))"
| "sys_fine pe (Clock t) sy \<longleftrightarrow> True"
| "sys_fine pe (Rtc e r) sy \<longleftrightarrow> rtc_event_fine pe e (sy_rtc sy) \<and> \<not> list_ex (asks (sy_addr sy)) (added e)"

text \<open>A connection that has sent its whole request and has no reply yet.\<close>

definition awaits :: "'s tcp_conn \<Rightarrow> bool" where
  "awaits c \<longleftrightarrow> tc_processed c = 65535 \<and> tc_replies c = []"

text \<open>Each request under way belongs to one connection of its own, which, if it is still open, awaits the offer.\<close>

definition pending_ok :: "(nat \<rightharpoonup> 's tcp_conn) \<Rightarrow> rtc_msg multiset \<Rightarrow> bool" where
  "pending_ok h T \<longleftrightarrow>
     (\<forall>t \<in># T. \<exists>a. rm_conn t = Some a \<and> (\<forall>c. h a = Some c \<longrightarrow> tc_fd c = rm_fd t \<and> awaits c)) \<and>
     (\<forall>a. count (image_mset rm_conn T) a \<le> 1)"

definition conns_ok :: "(nat \<rightharpoonup> 's tcp_conn) \<Rightarrow> bool" where
  "conns_ok h \<longleftrightarrow> (\<forall>a c. h a = Some c \<longrightarrow> tc_processed c \<noteq> 65535 \<longrightarrow> tc_replies c = [])"

definition sys_ok :: "pc_env \<Rightarrow> 's system \<Rightarrow> bool" where
  "sys_ok pe sy \<longleftrightarrow> sw_inv (sy_sig sy) \<and> lfq_inv (sw_q_conn (sy_sig sy)) \<and> rtc_ok pe (sy_rtc sy) \<and>
     list_all (asks (sy_addr sy)) (sw_q_msg (sy_sig sy)) \<and> conns_ok (sw_heap (sy_sig sy)) \<and>
     pending_ok (sw_heap (sy_sig sy)) (in_flight sy)"

lemma conns_ok_update:
  "conns_ok h \<Longrightarrow> (\<And>c'. x = Some c' \<Longrightarrow> tc_processed c' \<noteq> 65535 \<Longrightarrow> tc_replies c' = []) \<Longrightarrow> conns_ok (h(a := x))"
  by (auto simp: conns_ok_def)

lemma pending_ok_subset:
  assumes "pending_ok h T" "T' \<subseteq># T"
  shows "pending_ok h T'"
proof -
  have "count (image_mset rm_conn T') a \<le> count (image_mset rm_conn T) a" for a
    using image_mset_subseteq_mono [OF assms(2)] by (rule mset_subset_eq_count)
  then show ?thesis using assms mset_subset_eqD [OF assms(2)] unfolding pending_ok_def by (meson le_trans)
qed

lemma pending_okD:
  assumes "pending_ok h T" "t \<in># T"
  obtains a where "rm_conn t = Some a" "Some a \<in># image_mset rm_conn T"
    "\<And>c. h a = Some c \<Longrightarrow> tc_fd c = rm_fd t \<and> awaits c"
proof -
  have "\<exists>a. rm_conn t = Some a \<and> (\<forall>c. h a = Some c \<longrightarrow> tc_fd c = rm_fd t \<and> awaits c)"
    using assms unfolding pending_ok_def by blast
  moreover have "rm_conn t \<in># image_mset rm_conn T" using assms(2) by simp
  ultimately show ?thesis using that by metis
qed

lemma pending_ok_change:
  assumes "pending_ok h T"
    "\<And>t a c. t \<in># T \<Longrightarrow> rm_conn t = Some a \<Longrightarrow> Some a \<in># image_mset rm_conn T \<Longrightarrow>
       (\<And>c. h a = Some c \<Longrightarrow> tc_fd c = rm_fd t \<and> awaits c) \<Longrightarrow> h' a = Some c \<Longrightarrow> tc_fd c = rm_fd t \<and> awaits c"
  shows "pending_ok h' T"
proof -
  have "\<exists>a. rm_conn t = Some a \<and> (\<forall>c. h' a = Some c \<longrightarrow> tc_fd c = rm_fd t \<and> awaits c)" if t: "t \<in># T" for t
    using pending_okD [OF assms(1) t] assms(2) [OF t] by metis
  then show ?thesis using assms(1) unfolding pending_ok_def by blast
qed

lemma pending_ok_update:
  assumes "pending_ok h T" "h a = Some c"
    "\<And>c'. x = Some c' \<Longrightarrow> tc_fd c' = tc_fd c \<and> (awaits c \<longrightarrow> awaits c')"
  shows "pending_ok (h(a := x)) T"
proof (rule pending_ok_change [OF assms(1)])
  fix t b d
  assume "\<And>c. h b = Some c \<Longrightarrow> tc_fd c = rm_fd t \<and> awaits c" "(h(a := x)) b = Some d"
  then show "tc_fd d = rm_fd t \<and> awaits d" using assms(2,3) by (cases "b = a") auto
qed

lemma pending_ok_new:
  assumes "pending_ok h T" "Some a \<notin># image_mset rm_conn T"
  shows "pending_ok (h(a := x)) T"
proof (rule pending_ok_change [OF assms(1)])
  fix t b d
  assume "\<And>c. h b = Some c \<Longrightarrow> tc_fd c = rm_fd t \<and> awaits c" "Some b \<in># image_mset rm_conn T" "(h(a := x)) b = Some d"
  then show "tc_fd d = rm_fd t \<and> awaits d" using assms(2) by (cases "b = a") auto
qed

lemma pending_ok_add:
  assumes "pending_ok h T" "Some a \<notin># image_mset rm_conn T" "rm_conn m = Some a"
    "\<And>c. h a = Some c \<Longrightarrow> tc_fd c = rm_fd m \<and> awaits c"
  shows "pending_ok h (add_mset m T)"
  using assms by (auto simp: pending_ok_def count_eq_zero_iff)

lemma pending_ok_processed:
  assumes "pending_ok h T" "h a = Some c" "tc_processed c \<noteq> 65535"
  shows "Some a \<notin># image_mset rm_conn T"
proof
  assume "Some a \<in># image_mset rm_conn T"
  then obtain t where t: "t \<in># T" "rm_conn t = Some a" by auto
  from pending_okD [OF assms(1) t(1)] show False using t(2) assms(2,3) by (metis awaits_def option.inject)
qed

section \<open>What a read does\<close>

text \<open>The request of a connection runs once; a push leaves it waiting, with a ticket in its name.\<close>

definition request_step :: "'j sig_env \<Rightarrow> nat \<Rightarrow> 's tcp_conn \<Rightarrow> int \<Rightarrow> 's tcp_conn \<Rightarrow> rtc_msg list \<Rightarrow> bool" where
  "request_step env a c ret c' ms \<longleftrightarrow> tc_fd c' = tc_fd c \<and>
     (if tc_processed c = 65535 then ms = [] \<and> tc_processed c' = 65535 \<and> tc_replies c' = tc_replies c
      else (ret = 0 \<longrightarrow> (if tc_processed c' = 65535 then True else ms = [] \<and> tc_replies c' = tc_replies c)) \<and>
        (ms = [] \<or> (\<exists>m. ms = [m] \<and> (\<forall>addr. asks addr m \<longrightarrow>
           addr = se_worker env \<and> rm_conn m = Some a \<and> rm_fd m = tc_fd c \<and> tc_replies c' = tc_replies c))))"

lemma request_step_frame [simp]:
  "request_step env a (c\<lparr>tc_querybuf := q\<rparr>) = request_step env a c"
  "request_step env a (c\<lparr>tc_last := t\<rparr>) = request_step env a c"
  by (simp_all add: request_step_def fun_eq_iff cong: if_cong)

lemma process_request_step:
  assumes "process_request env a c h b = (ret, c', ms)"
  shows "ms = [] \<or> (\<exists>m. ms = [m] \<and> (\<forall>addr. asks addr m \<longrightarrow>
    addr = se_worker env \<and> rm_conn m = Some a \<and> rm_fd m = tc_fd c \<and> tc_replies c' = tc_replies c))"
  using assms
  by (auto simp: process_request_def signaling_process_push_def signaling_process_answer_def Let_def asks_def
    split: option.splits prod.splits if_splits Option.bind_splits)

lemma pqb_body_step:
  assumes "tc_state c = STATE_BODY" "tc_processed c = 36" "tc_expected c = unat (gh_body_len (ghead_of (tc_querybuf c)))"
    "length (tc_querybuf c) < 65535" "process_query_buffer env a c [] = Some (ret, c', ms)"
  shows "request_step env a c ret c' ms"
proof -
  obtain r d ns where r: "process_request env a c (take 36 (tc_querybuf c))
      (take (tc_expected c) (drop 36 (tc_querybuf c))) = (r, d, ns)"
    using prod_cases3 by blast
  have "length (tc_querybuf c) < 65535 + tc_expected c" using assms(4) by simp
  note b = pqb_body [OF assms(1-3) this, of env a "[]"]
  show ?thesis
    using b assms(2,5) r process_request_step [OF r] process_request_frame [OF r]
    by (auto simp: request_step_def split: if_splits)
qed

lemma feed_step:
  assumes "stream_ok c" "length (tc_querybuf c @ t) < 65535" "feed env a t c = Some (ret, c', ms)"
  shows "request_step env a c ret c' ms"
proof (cases "tc_state c")
  case STATE_HEAD
  let ?d = "c\<lparr>tc_querybuf := tc_querybuf c @ t\<rparr>"
  let ?bl = "unat (gh_body_len (ghead_of (tc_querybuf c @ t)))"
  let ?e = "c\<lparr>tc_state := STATE_BODY, tc_expected := ?bl, tc_processed := 36, tc_querybuf := tc_querybuf c @ t\<rparr>"
  have h: "tc_processed c = 0" "tc_expected c = 36"
    using STATE_HEAD assms(1) by (simp_all add: stream_ok_def Let_def)
  have u: "feed env a t c =
     (if length (tc_querybuf c @ t) < 36 then Some (0, ?d, [])
      else if gh_magic_num (ghead_of (tc_querybuf c @ t)) \<noteq> GHEAD_MAGIC_NUM then Some (-1, ?d, [])
      else process_query_buffer env a ?e [])"
    unfolding feed_def using STATE_HEAD h by (subst process_query_buffer.simps) (simp add: not_less)
  have "request_step env a ?e ret c' ms" if "process_query_buffer env a ?e [] = Some (ret, c', ms)"
    using that assms(2) by (intro pqb_body_step) simp_all
  then have "request_step env a c ret c' ms" if "process_query_buffer env a ?e [] = Some (ret, c', ms)"
    using that h by (auto simp: request_step_def)
  then show ?thesis using u h assms(3) by (auto simp: request_step_def split: if_splits)
next
  case STATE_BODY
  let ?d = "c\<lparr>tc_querybuf := tc_querybuf c @ t\<rparr>"
  have b: "36 \<le> length (tc_querybuf c)" "tc_expected c = unat (gh_body_len (ghead_of (tc_querybuf c)))"
    using STATE_BODY assms(1) by (simp_all add: stream_ok_def Let_def)
  show ?thesis
  proof (cases "tc_processed c = 36")
    case True
    then have "request_step env a ?d ret c' ms"
      using STATE_BODY b assms(2,3) by (intro pqb_body_step) (simp_all add: feed_def)
    then show ?thesis by simp
  next
    case False
    then have "tc_processed c = 65535"
      using STATE_BODY assms(1) b(2) by (auto simp: stream_ok_def Let_def)
    then show ?thesis using assms(2,3) by (auto simp: feed_def pqb_wait request_step_def)
  qed
qed

text \<open>What an I/O callback makes of the object of its connection (\<open>None\<close>: it is closed), and the messages it sends.\<close>

definition io_change :: "'j sig_env \<Rightarrow> nat \<Rightarrow> 's tcp_conn \<Rightarrow> 's tcp_conn option \<Rightarrow> rtc_msg list \<Rightarrow> bool" where
  "io_change env a c x ms \<longleftrightarrow>
     (x = None \<and> ms = []) \<or>
     (\<exists>ret c'. request_step env a c ret c' ms \<and> x = (if ret = 0 then Some c' else None)) \<or>
     (\<exists>c'. ms = [] \<and> x = Some c' \<and> tc_fd c' = tc_fd c \<and> tc_processed c' = tc_processed c \<and> tc_replies c' = [])"

abbreviation same_queues :: "'s sig_worker \<Rightarrow> 's sig_worker \<Rightarrow> bool" where
  "same_queues w w' \<equiv> sw_q_conn w' = sw_q_conn w \<and> sw_q_msg w' = sw_q_msg w"

lemma close_queues: "close_conn a w = Some w' \<Longrightarrow> same_queues w w'"
  by (auto simp: close_conn_def remove_conn_def split: Option.bind_splits if_splits)

lemma close_effect:
  assumes "sw_inv w" "sw_heap w a = Some c" "tc_fd c' = tc_fd c"
  shows "\<exists>w'. close_conn a (w\<lparr>sw_heap := (sw_heap w)(a \<mapsto> c')\<rparr>) = Some w' \<and> sw_inv w' \<and> same_queues w w' \<and>
    sw_heap w' = (sw_heap w)(a := None)"
  using close_conn_inv [OF assms] close_queues by fastforce

lemma read_effect:
  assumes "sw_inv w" "sw_heap w a = Some c" "tc_fd c = fd" "\<forall>n. en_room env n"
    "short_results (en_req env)" "\<forall>n. length (tc_querybuf c @ reading rd c n) < 65535"
  shows "\<exists>w' ms x. read_query env rd fd w = Some (w', ms) \<and> sw_inv w' \<and> same_queues w w' \<and>
    sw_heap w' = (sw_heap w)(a := x) \<and> io_change (en_req env) a c x ms"
proof -
  note at = sw_inv_at [OF assms(1,2)]
  let ?n = "to_int32 (int (tc_expected c))"
  let ?d = "c\<lparr>tc_last := sw_now w\<rparr>"
  obtain r bytes where rd: "rd ?n = (r, bytes)" by fastforce
  show ?thesis
  proof (cases "sock_read_data r = -1")
    case True
    obtain w' where "close_conn a (w\<lparr>sw_heap := (sw_heap w)(a \<mapsto> ?d)\<rparr>) = Some w'" "sw_inv w'" "same_queues w w'"
      "sw_heap w' = (sw_heap w)(a := None)"
      using close_effect [OF assms(1,2), of ?d] by auto
    moreover have "io_change (en_req env) a c None []" by (simp add: io_change_def)
    ultimately show ?thesis using True at assms(2-4) rd by (auto simp: read_query_def Let_def)
  next
    case False
    let ?t = "take (nat (sock_read_data r)) bytes"
    have len: "length (tc_querybuf ?d @ ?t) < 65535"
      using assms(6) [rule_format, of ?n] rd by (simp add: reading_def)
    then obtain ret c' ms where f: "feed (en_req env) a ?t ?d = Some (ret, c', ms)"
      "tc_fd c' = fd" "io_ok c'" "ret = 0 \<longrightarrow> stream_ok c'"
      using feed_ok [of ?d "en_req env" ?t a] at assms(3,5) by auto
    have "request_step (en_req env) a ?d ret c' ms" using feed_step [OF _ len f(1)] at by simp
    then have ch: "io_change (en_req env) a c (if ret = 0 then Some c' else None) ms" by (auto simp: io_change_def)
    have rq: "read_query env rd fd w =
        (if ret \<noteq> 0 then do { w' \<leftarrow> close_conn a (w\<lparr>sw_heap := (sw_heap w)(a \<mapsto> c')\<rparr>); Some (w', ms) }
         else Some (w\<lparr>sw_heap := (sw_heap w)(a \<mapsto> c')\<rparr>, ms))"
      using False at assms(2-4) rd f(1) by (simp add: read_query_def Let_def)
    show ?thesis
    proof (cases "ret = 0")
      case True
      then show ?thesis using rq ch f assms(3) sw_inv_update [OF assms(1,2), of c'] by auto
    next
      case False
      then show ?thesis using rq ch f assms(3) close_effect [OF assms(1,2), of c'] by auto
    qed
  qed
qed

lemma write_effect:
  assumes "sw_inv w" "sw_heap w a = Some c" "tc_fd c = fd"
    "\<forall>j. -1 \<le> sock_write_data (res j)" "\<forall>k. \<exists>j\<ge>k. sock_write_data (res j) \<noteq> 0"
  shows "\<exists>w' wire x. write_reply res fd w = Some (w', wire) \<and> sw_inv w' \<and> same_queues w w' \<and>
    sw_heap w' = (sw_heap w)(a := x) \<and> io_change env a c x []"
proof -
  note at = sw_inv_at [OF assms(1,2)]
  have rok: "replies_ok c" using at(4) by (simp add: io_ok_def)
  obtain alive d wire where wl: "write_loop res 0 c [] = Some (alive, d, wire)"
    "alive \<longrightarrow> tc_replies d = []" "d = c\<lparr>tc_replies := tc_replies d, tc_resp_pos := tc_resp_pos d\<rparr>"
    using write_loop_ok [where res = res and k = 0 and wire = "[]", OF rok] assms(4,5)
    by (auto simp only: append_Nil)
  have d: "tc_fd d = tc_fd c" "tc_processed d = tc_processed c" by (subst wl(3), simp)+
  obtain w' out where w': "write_reply res fd w = Some (w', out)" "sw_inv w'"
    using write_reply_inv [OF assms] by blast
  show ?thesis
  proof (cases alive)
    case False
    obtain w1 where "close_conn a (w\<lparr>sw_heap := (sw_heap w)(a \<mapsto> d)\<rparr>) = Some w1" "same_queues w w1"
      "sw_heap w1 = (sw_heap w)(a := None)"
      using close_effect [OF assms(1,2), of d] d by auto
    then show ?thesis using w' False at assms(2,3) wl(1) by (auto simp: write_reply_def io_change_def)
  next
    case True
    let ?e = "d\<lparr>tc_last := sw_now w, tc_io := stop_io_event (tc_io d) (tc_fd d) EV_LOOP_WRITE\<rparr>"
    have "w' = w\<lparr>sw_heap := (sw_heap w)(a \<mapsto> ?e)\<rparr>"
      using w'(1) True at assms(2,3) wl(1,2) by (simp add: write_reply_def Let_def)
    then show ?thesis using w' True wl(2) d by (auto simp: io_change_def)
  qed
qed

lemma io_effect:
  assumes "sw_inv w" "enabled (Ev_io env rd res fd events) w"
  shows "\<exists>w' ms wire a c x. conn_io_cb env rd res fd events w = Some (w', ms, wire) \<and> sw_inv w' \<and> same_queues w w' \<and>
    sw_heap w a = Some c \<and> sw_heap w' = (sw_heap w)(a := x) \<and> io_change (en_req env) a c x ms"
proof -
  obtain a c where e: "sw_heap w a = Some c" "tc_fd c = fd" "\<forall>n. en_room env n"
    "short_results (en_req env)" "\<forall>n. length (tc_querybuf c @ reading rd c n) < 65535"
    "\<forall>j. -1 \<le> sock_write_data (res j)" "\<forall>k. \<exists>j\<ge>k. sock_write_data (res j) \<noteq> 0"
    using assms(2) by auto
  have "request_step (en_req env) a c 0 c []" by (simp add: request_step_def)
  then have "io_change (en_req env) a c (Some c) []" by (auto simp: io_change_def)
  then have idle: ?thesis if "conn_io_cb env rd res fd events w = Some (w, [], [])"
    using that assms(1) e(1) by (metis fun_upd_triv)
  consider "events AND EV_LOOP_READ \<noteq> 0" | "events AND EV_LOOP_READ = 0" "events AND EV_LOOP_WRITE \<noteq> 0"
    | "events AND EV_LOOP_READ = 0" "events AND EV_LOOP_WRITE = 0" by blast
  then show ?thesis
  proof cases
    case 1
    then show ?thesis using read_effect [OF assms(1) e(1-5)] e(1) by (fastforce simp: conn_io_cb_def)
  next
    case 2
    then show ?thesis using write_effect [OF assms(1) e(1,2,6,7), of "en_req env"] e(1) by (fastforce simp: conn_io_cb_def)
  next
    case 3
    then show ?thesis by (intro idle) (simp add: conn_io_cb_def)
  qed
qed

lemma io_pending:
  assumes "pending_ok h T" "conns_ok h" "h a = Some c" "io_change env a c x ms" "se_worker env = addr"
  shows "pending_ok (h(a := x)) (T + tickets addr ms) \<and> conns_ok (h(a := x))"
proof -
  have c0: "tc_processed c \<noteq> 65535 \<Longrightarrow> tc_replies c = []" using assms(2,3) by (simp add: conns_ok_def)
  have conns: "conns_ok (h(a := x))" if "\<And>c'. x = Some c' \<Longrightarrow> tc_processed c' \<noteq> 65535 \<Longrightarrow> tc_replies c' = []"
    using that by (rule conns_ok_update [OF assms(2)])
  have keep: ?thesis if "ms = []"
      "\<And>c'. x = Some c' \<Longrightarrow> tc_fd c' = tc_fd c \<and> (awaits c \<longrightarrow> awaits c') \<and> (tc_processed c' \<noteq> 65535 \<longrightarrow> tc_replies c' = [])"
  proof -
    have "pending_ok (h(a := x)) T" by (rule pending_ok_update [OF assms(1,3)]) (use that(2) in blast)
    moreover have "conns_ok (h(a := x))" by (rule conns) (use that(2) in blast)
    ultimately show ?thesis using that(1) by simp
  qed
  consider (closed) "x = None" "ms = []"
    | (read) ret c' where "request_step env a c ret c' ms" "x = (if ret = 0 then Some c' else None)"
    | (written) c' where "ms = []" "x = Some c'" "tc_fd c' = tc_fd c" "tc_processed c' = tc_processed c" "tc_replies c' = []"
    using assms(4) unfolding io_change_def by blast
  then show ?thesis
  proof cases
    case closed
    then show ?thesis by (intro keep) simp_all
  next
    case written
    then show ?thesis by (intro keep) (simp_all add: awaits_def)
  next
    case read
    show ?thesis
    proof (cases "tc_processed c = 65535")
      case True
      then have r: "ms = []" "tc_processed c' = 65535" "tc_replies c' = tc_replies c" "tc_fd c' = tc_fd c"
        using read(1) by (simp_all add: request_step_def)
      show ?thesis by (rule keep [OF r(1)]) (use r read(2) in \<open>cases "ret = 0"; simp add: awaits_def\<close>)
    next
      case False
      note new = pending_ok_processed [OF assms(1,3) False]
      have "conns_ok (h(a := x))"
        using read False c0 by (intro conns) (auto simp: request_step_def split: if_splits)
      moreover have "pending_ok (h(a := x)) (T + tickets addr ms)"
      proof (cases "\<exists>m. ms = [m] \<and> asks addr m")
        case True
        then obtain m where m: "ms = [m]" "asks addr m" by blast
        have r: "rm_conn m = Some a" "rm_fd m = tc_fd c" "tc_replies c' = []" "tc_fd c' = tc_fd c"
          "ret = 0 \<longrightarrow> tc_processed c' = 65535"
          using read(1) m False c0 by (auto simp: request_step_def split: if_splits)
        have "pending_ok (h(a := x)) (add_mset (ticket m) T)"
          using r read(2) by (intro pending_ok_add [OF pending_ok_new [OF assms(1) new] new])
            (auto simp: awaits_def split: if_splits)
        then show ?thesis using m by simp
      next
        case no: False
        have "ms = [] \<or> (\<exists>m. ms = [m])" using read(1) False by (auto simp: request_step_def)
        then have "tickets addr ms = {#}" using no by auto
        then show ?thesis using pending_ok_new [OF assms(1) new, of x] by simp
      qed
      ultimately show ?thesis by blast
    qed
  qed
qed

section \<open>The queues between the threads\<close>

lemma send_all_ok:
  "rtc_ok pe s \<Longrightarrow> list_all (msg_fine pe) ms \<Longrightarrow>
     rtc_ok pe (send_all r ms s) \<and>
     tickets addr (rtc_waiting (send_all r ms s)) = tickets addr (rtc_waiting s) + tickets addr ms"
proof (induction ms arbitrary: s)
  case (Cons m ms)
  let ?s = "snd (rv_send_rtc_msg m (r m) s)"
  have "rtc_ok pe ?s" using Cons.prems
    by (simp add: rv_send_rtc_msg_def rv_notify_def rv_push_msg_def) (simp add: rtc_ok_def)
  moreover have "tickets addr (rtc_waiting ?s) = tickets addr (rtc_waiting s) + tickets addr [m]"
    by (simp add: rv_send_rtc_msg_def rv_notify_def rv_push_msg_def rtc_waiting_def)
  ultimately show ?case using Cons by (simp add: send_all_def ac_simps)
qed (simp add: send_all_def)

lemma hand_back_frame:
  "sw_q_msg (hand_back addr r out w) = sw_q_msg w @ sent_to addr out"
  "sw_heap (hand_back addr r out w) = sw_heap w" "sw_q_conn (hand_back addr r out w) = sw_q_conn w"
  "sw_inv (hand_back addr r out w) = sw_inv w"
proof (induction out arbitrary: w)
  case (Cons x out)
  { case 1 show ?case using Cons(1)
      by (cases x) (simp add: hand_back_def sent_to_def sw_send_rtc_msg_def sw_notify_def sw_push_msg_def) }
  { case 2 show ?case using Cons(2)
      by (cases x) (simp add: hand_back_def sw_send_rtc_msg_def sw_notify_def sw_push_msg_def) }
  { case 3 show ?case using Cons(3)
      by (cases x) (simp add: hand_back_def sw_send_rtc_msg_def sw_notify_def sw_push_msg_def) }
  { case 4 show ?case using Cons(4)
      by (cases x) (simp add: hand_back_def sw_send_rtc_msg_def sw_notify_def sw_push_msg_def, simp add: sw_inv_def) }
qed (simp_all add: hand_back_def sent_to_def)

section \<open>Every step keeps the books\<close>

definition offers :: "sys_out list \<Rightarrow> rtc_msg multiset" where
  "offers out = mset (concat (map (\<lambda>ev. case ev of Offered a m \<Rightarrow> [ticket m] | _ \<Rightarrow> []) out))"

definition asked :: "nat \<Rightarrow> sys_out list \<Rightarrow> rtc_msg multiset" where
  "asked addr out = tickets addr (concat (map (\<lambda>ev. case ev of Asked m \<Rightarrow> [m] | _ \<Rightarrow> []) out))"

lemma books_append [simp]:
  "offers (xs @ ys) = offers xs + offers ys" "asked addr (xs @ ys) = asked addr xs + asked addr ys"
  "offers [] = {#}" "asked addr [] = {#}" "offers [Wired fd wire] = {#}" "asked addr [Wired fd wire] = {#}"
  "offers (map Asked ms) = {#}" "asked addr (map Asked ms) = tickets addr ms"
  "offers [Offered a m] = {#ticket m#}" "asked addr [Offered a m] = {#}"
  by (simp_all add: offers_def asked_def comp_def)

definition step_keeps :: "pc_env \<Rightarrow> ('j, 's::zero) sys_event \<Rightarrow> 's system \<Rightarrow> bool" where
  "step_keeps pe ev sy \<longleftrightarrow> (\<exists>sy' out. sys_step pe ev sy = Some (sy', out) \<and> sys_ok pe sy' \<and> sy_addr sy' = sy_addr sy \<and>
     offers out + in_flight sy' \<subseteq># asked (sy_addr sy) out + in_flight sy)"

lemma step_keepsI:
  "sys_step pe ev sy = Some (sy', out) \<Longrightarrow> sys_ok pe sy' \<Longrightarrow> sy_addr sy' = sy_addr sy \<Longrightarrow>
     offers out + in_flight sy' \<subseteq># asked (sy_addr sy) out + in_flight sy \<Longrightarrow> step_keeps pe ev sy"
  by (auto simp: step_keeps_def)

lemma sys_okD:
  assumes "sys_ok pe sy"
  shows "sw_inv (sy_sig sy)" "lfq_inv (sw_q_conn (sy_sig sy))" "rtc_ok pe (sy_rtc sy)"
    "list_all (asks (sy_addr sy)) (sw_q_msg (sy_sig sy))" "conns_ok (sw_heap (sy_sig sy))"
    "pending_ok (sw_heap (sy_sig sy)) (in_flight sy)"
  using assms by (simp_all add: sys_ok_def)

lemma sys_okI:
  assumes "sw_inv w" "lfq_inv (sw_q_conn w)" "rtc_ok pe s" "list_all (asks (sy_addr sy)) (sw_q_msg w)" "conns_ok (sw_heap w)"
    "pending_ok (sw_heap w) (in_flight (sy\<lparr>sy_sig := w, sy_rtc := s\<rparr>))"
  shows "sys_ok pe (sy\<lparr>sy_sig := w, sy_rtc := s\<rparr>)"
  using assms by (simp add: sys_ok_def)

lemma sig_changes:
  assumes "sys_ok pe sy" "sw_inv w" "lfq_inv (sw_q_conn w)" "sw_q_msg w = sw_q_msg (sy_sig sy)" "conns_ok (sw_heap w)"
    "pending_ok (sw_heap w) (in_flight sy)"
  shows "sys_ok pe (sy\<lparr>sy_sig := w\<rparr>)" "in_flight (sy\<lparr>sy_sig := w\<rparr>) = in_flight sy"
proof -
  show "in_flight (sy\<lparr>sy_sig := w\<rparr>) = in_flight sy" using assms(4) by (simp add: in_flight_def)
  then show "sys_ok pe (sy\<lparr>sy_sig := w\<rparr>)" using assms by (simp add: sys_ok_def)
qed

lemma sig_keeps:
  assumes "sys_ok pe sy" "sys_step pe ev sy = Some (sy\<lparr>sy_sig := w\<rparr>, [])" "sw_inv w" "lfq_inv (sw_q_conn w)"
    "sw_q_msg w = sw_q_msg (sy_sig sy)" "conns_ok (sw_heap w)" "pending_ok (sw_heap w) (in_flight sy)"
  shows "step_keeps pe ev sy"
  using sig_changes [OF assms(1,3-7)] assms(2) by (simp add: step_keeps_def)

lemma conn_given_keeps:
  assumes "sys_ok pe sy" "sys_fine pe (Conn_given node fd r) sy"
  shows "step_keeps pe (Conn_given node fd r) sy"
proof -
  note ok = sys_okD [OF assms(1)]
  obtain w where w: "notify_new_conn node fd r (sy_sig sy) = Some (notify r, w)" "lfq_inv (sw_q_conn w)"
    using conn_mailbox.send_ok [of "sy_sig sy" node fd r] ok(2) assms(2) by auto
  then have f: "sw_heap w = sw_heap (sy_sig sy)" "sw_conns w = sw_conns (sy_sig sy)" "sw_q_msg w = sw_q_msg (sy_sig sy)"
    by (auto simp: notify_new_conn_def sw_notify_def split: Option.bind_splits)
  have "sw_inv w" using ok(1) f by (simp add: sw_inv_def)
  then show ?thesis using w f ok by (intro sig_keeps [OF assms(1), of _ w]) simp_all
qed

lemma timer_keeps:
  assumes "sys_ok pe sy" "sys_fine pe (Conn_timer a) sy"
  shows "step_keeps pe (Conn_timer a) sy"
proof -
  note ok = sys_okD [OF assms(1)]
  let ?w = "sy_sig sy"
  obtain c where c: "sw_heap ?w a = Some c" using assms(2) by auto
  have same: "?w\<lparr>sw_heap := (sw_heap ?w)(a \<mapsto> c)\<rparr> = ?w" using c by (simp add: fun_upd_idem)
  obtain w where w: "close_conn a ?w = Some w" "sw_inv w" "same_queues ?w w" "sw_heap w = (sw_heap ?w)(a := None)"
    using close_effect [OF ok(1) c refl] unfolding same by auto
  have "pending_ok (sw_heap w) (in_flight sy)" unfolding w(4) by (rule pending_ok_update [OF ok(6) c]) simp
  moreover have "conns_ok (sw_heap w)" using ok(5) by (simp add: w(4) conns_ok_def)
  ultimately have closed: ?thesis if "process_timeout a ?w = Some w"
    using w ok(2) that by (intro sig_keeps [OF assms(1), of _ w]) simp_all
  have alive: ?thesis if "process_timeout a ?w = Some ?w"
    using ok that by (intro sig_keeps [OF assms(1), of _ ?w]) simp_all
  have "process_timeout a ?w = Some w \<or> process_timeout a ?w = Some ?w" using w(1) c by (simp add: process_timeout_def)
  then show ?thesis using closed alive by blast
qed

lemma io_keeps:
  assumes "sys_ok pe sy" "sys_fine pe (Client_io env rd res fd events) sy"
  shows "step_keeps pe (Client_io env rd res fd events) sy"
proof -
  note ok = sys_okD [OF assms(1)]
  obtain w ms wire a c x where io: "conn_io_cb env rd res fd events (sy_sig sy) = Some (w, ms, wire)" "sw_inv w"
    "same_queues (sy_sig sy) w" "sw_heap (sy_sig sy) a = Some c" "sw_heap w = (sw_heap (sy_sig sy))(a := x)"
    "io_change (en_req env) a c x ms"
    using io_effect [OF ok(1), of env rd res fd events] assms(2) by auto
  let ?s = "send_all (se_pipe (en_req env)) ms (sy_rtc sy)"
  let ?sy = "sy\<lparr>sy_sig := w, sy_rtc := ?s\<rparr>"
  have "list_all (msg_fine pe) ms" using assms(2) io(1) by simp
  note s = send_all_ok [OF ok(3) this, of "se_pipe (en_req env)" "sy_addr sy"]
  have fl: "in_flight ?sy = in_flight sy + tickets (sy_addr sy) ms" using s io(3) by (simp add: in_flight_def)
  have "pending_ok (sw_heap w) (in_flight ?sy) \<and> conns_ok (sw_heap w)"
    unfolding fl io(5) by (rule io_pending [OF ok(6,5) io(4,6)]) (use assms(2) in simp)
  moreover have "lfq_inv (sw_q_conn w)" "list_all (asks (sy_addr sy)) (sw_q_msg w)"
    using ok(2,4) io(3) by simp_all
  ultimately have "sys_ok pe ?sy" using io(2) s by (intro sys_okI) blast+
  moreover have "sys_step pe (Client_io env rd res fd events) sy = Some (?sy, map Asked ms @ [Wired fd wire])"
    using io(1) by simp
  moreover have "offers (map Asked ms @ [Wired fd wire]) + in_flight ?sy \<subseteq>#
      asked (sy_addr sy) (map Asked ms @ [Wired fd wire]) + in_flight sy"
    unfolding fl by (simp add: add.commute)
  ultimately show ?thesis by (intro step_keepsI [where sy' = ?sy and out = "map Asked ms @ [Wired fd wire]"]) simp_all
qed

lemma rtc_keeps:
  assumes "sys_ok pe sy" "sys_fine pe (Rtc e r) sy"
  shows "step_keeps pe (Rtc e r) sy"
proof -
  note ok = sys_okD [OF assms(1)]
  have fine: "rtc_event_fine pe e (sy_rtc sy)" "tickets (sy_addr sy) (added e) = {#}"
    using assms(2) by (auto simp: tickets_def list_ex_iff filter_empty_conv)
  obtain s out where s: "rtc_step pe e (sy_rtc sy) = Some (s, out)" "rtc_ok pe s"
    "tickets (sy_addr sy) (rtc_waiting s) + tickets (sy_addr sy) (sent_to (sy_addr sy) out) \<subseteq>#
      tickets (sy_addr sy) (rtc_waiting (sy_rtc sy))"
    "list_all (asks (sy_addr sy)) (sent_to (sy_addr sy) out)"
    using rtc_step_tickets [OF ok(3) fine(1), of "sy_addr sy"] fine(2) by auto
  let ?sy = "sy\<lparr>sy_sig := hand_back (sy_addr sy) r out (sy_sig sy), sy_rtc := s\<rparr>"
  have fl: "in_flight ?sy \<subseteq># in_flight sy"
    using s(3) by (simp add: in_flight_def hand_back_frame ac_simps subset_mset.add_left_mono)
  then have "pending_ok (sw_heap (sy_sig sy)) (in_flight ?sy)" by (rule pending_ok_subset [OF ok(6)])
  then have "sys_ok pe ?sy"
    using ok(1,2,4,5) s(2,4) by (intro sys_okI) (simp_all add: hand_back_frame)
  then show ?thesis using s(1) fl by (simp add: step_keeps_def)
qed

text \<open>The signaling worker's pipe: the notification is one of three kinds.\<close>

lemma new_conn_effect:
  assumes "sw_inv w" "enabled (Ev_accept env fd) w"
  shows "\<exists>w' c. new_conn env fd w = Some w' \<and> sw_inv w' \<and> same_queues w w' \<and> sw_heap w' = (sw_heap w)(en_new env \<mapsto> c) \<and>
    tc_replies c = []"
proof -
  obtain w' where "new_conn env fd w = Some w'" "sw_inv w'" using new_conn_inv [OF assms] by blast
  then show ?thesis using assms(2)
    by (auto simp: new_conn_def Let_def tcp_conn_new_def split: if_splits)
qed

lemma offered_now_frame:
  "(\<And>a c c'. sw_heap w a = Some c \<Longrightarrow> sw_heap w' a = Some c' \<Longrightarrow> tc_replies c' = tc_replies c) \<Longrightarrow> offered_now w w' = []"
  by (auto simp: offered_now_def split: list.split option.split)

lemma woken_keeps_new:
  assumes "sys_ok pe sy" "sys_fine pe (Sig_woken env) sy" "sw_pipe (sy_sig sy) = SW_NEW_CONN # ks"
  shows "step_keeps pe (Sig_woken env) sy"
proof -
  note ok = sys_okD [OF assms(1)]
  let ?w = "(sy_sig sy)\<lparr>sw_pipe := ks\<rparr>"
  have inv: "sw_inv (?w\<lparr>sw_q_conn := q\<rparr>)" for q using ok(1) by (simp add: sw_inv_def)
  show ?thesis
  proof (cases "lfq_contents (sw_q_conn (sy_sig sy))")
    case Nil
    then have "signaling_worker_recv_notify env (sy_sig sy) = Some ?w"
      using lfq.pop_empty [OF ok(2) Nil] assms(3)
      by (simp add: signaling_worker_recv_notify_def sw_process_notify_def sw_take_conn_def)
    moreover have "sw_inv ?w" using ok(1) by (simp add: sw_inv_def)
    moreover have "offered_now (sy_sig sy) ?w = []" by (rule offered_now_frame) simp
    ultimately show ?thesis using ok by (intro sig_keeps [OF assms(1), of _ ?w]) simp_all
  next
    case (Cons fd fds)
    obtain q where q: "consume (sw_q_conn (sy_sig sy)) = Some (Some fd, q)" "lfq_inv q"
      using lfq.pop_front [OF ok(2) Cons] by blast
    have fine: "enabled (Ev_accept env fd) (sy_sig sy)" "Some (en_new env) \<notin># image_mset rm_conn (in_flight sy)"
      using assms(2,3) Cons by simp_all
    then have "enabled (Ev_accept env fd) (?w\<lparr>sw_q_conn := q\<rparr>)" by simp
    from new_conn_effect [OF inv this] obtain w c where w: "new_conn env fd (?w\<lparr>sw_q_conn := q\<rparr>) = Some w" "sw_inv w"
      "same_queues (?w\<lparr>sw_q_conn := q\<rparr>) w" "sw_heap w = (sw_heap (sy_sig sy))(en_new env \<mapsto> c)" "tc_replies c = []" by auto
    have step: "signaling_worker_recv_notify env (sy_sig sy) = Some w"
      using assms(3) q(1) w(1) by (simp add: signaling_worker_recv_notify_def sw_process_notify_def sw_take_conn_def)
    have "offered_now (sy_sig sy) w = []"
      using fine(1) w(4) by (intro offered_now_frame) (auto split: if_splits)
    moreover have "pending_ok (sw_heap w) (in_flight sy)" unfolding w(4) by (rule pending_ok_new [OF ok(6) fine(2)])
    moreover have "conns_ok (sw_heap w)" using ok(5) w(4,5) by (auto simp: conns_ok_def)
    ultimately show ?thesis using step w(2,3) q(2) by (intro sig_keeps [OF assms(1), of _ w]) simp_all
  qed
qed

text \<open>The message at the front of the queue is in flight; its connection, if open, awaits it.\<close>

lemma front_awaited:
  assumes "sys_ok pe sy" "sw_q_msg (sy_sig sy) = m # ms"
  shows "rm_cmdno m = CMDNO_PUSH" "ticket m \<in># in_flight sy"
    "\<exists>a. rm_conn m = Some a \<and> (\<forall>c. sw_heap (sy_sig sy) a = Some c \<longrightarrow> tc_fd c = rm_fd m \<and> awaits c)"
proof -
  note ok = sys_okD [OF assms(1)]
  have m: "asks (sy_addr sy) m" using ok(4) assms(2) by simp
  then show "rm_cmdno m = CMDNO_PUSH" by (simp add: asks_def)
  show t: "ticket m \<in># in_flight sy" using m assms(2) by (simp add: in_flight_def)
  show "\<exists>a. rm_conn m = Some a \<and> (\<forall>c. sw_heap (sy_sig sy) a = Some c \<longrightarrow> tc_fd c = rm_fd m \<and> awaits c)"
    using pending_okD [OF ok(6) t] by (metis ticket_frame(3,4))
qed

lemma awaits_header: "stream_ok c \<Longrightarrow> awaits c \<Longrightarrow> GHEAD_SIZE \<le> length (tc_querybuf c)"
  by (auto simp: stream_ok_def awaits_def Let_def split: conn_state.splits)

text \<open>What the offer at the front of the queue does: to the connection that awaits it, if there still is one.\<close>

definition delivered :: "('j, 's) sw_env \<Rightarrow> rtc_msg \<Rightarrow> (nat \<rightharpoonup> 's tcp_conn) \<Rightarrow> nat \<rightharpoonup> 's tcp_conn" where
  "delivered env m h =
     (case rm_conn m of
        None \<Rightarrow> h
      | Some a \<Rightarrow>
          (case h a of
             Some c \<Rightarrow>
               if en_zmalloc env then h(a \<mapsto> add_reply c
                   (build_reply (take GHEAD_SIZE (tc_querybuf c)) (offer_json (se_json (en_req env)) m)))
               else h
           | None \<Rightarrow> h))"

lemma woken_offer:
  assumes "sys_ok pe sy" "sys_fine pe (Sig_woken env) sy" "sw_pipe (sy_sig sy) = SW_RTC_MSG # ks"
    "sw_q_msg (sy_sig sy) = m # ms"
  shows "\<exists>w. signaling_worker_recv_notify env (sy_sig sy) = Some w \<and> sw_inv w \<and>
    w = (sy_sig sy)\<lparr>sw_pipe := ks, sw_q_msg := ms, sw_heap := delivered env m (sw_heap (sy_sig sy))\<rparr>"
proof -
  note ok = sys_okD [OF assms(1)] and fr = front_awaited [OF assms(1,4)]
  let ?w = "(sy_sig sy)\<lparr>sw_pipe := ks, sw_q_msg := ms\<rparr>"
  obtain a where a: "rm_conn m = Some a" "\<And>c. sw_heap (sy_sig sy) a = Some c \<Longrightarrow> tc_fd c = rm_fd m \<and> awaits c"
    using fr(3) by blast
  have inv: "sw_inv ?w" using ok(1) by (simp add: sw_inv_def)
  have hdr: "GHEAD_SIZE \<le> length (tc_querybuf c)" if "sw_heap (sy_sig sy) a = Some c" for c
    using sw_inv_at(5) [OF ok(1) that] a(2) [OF that] by (simp add: awaits_header)
  have "short_json (offer_json (se_json (en_req env)) m)" using assms(2-4) by simp
  then have "enabled (Ev_offer env m) ?w" using hdr a(1) by simp
  from response_inv [OF inv this] obtain w where w: "response_server_offer env m ?w = Some w" "sw_inv w" by blast
  have "response_server_offer env m ?w = Some (?w\<lparr>sw_heap := delivered env m (sw_heap (sy_sig sy))\<rparr>)"
  proof (cases "sw_heap (sy_sig sy) a")
    case None
    then have "sw_conns ?w ! nat (rm_fd m) \<noteq> Some a" if "nat (rm_fd m) < length (sw_conns ?w)"
      using sw_inv_slot [OF inv that] by auto
    then show ?thesis using a(1) None by (auto simp: response_server_offer_def delivered_def Let_def)
  next
    case (Some c)
    note at = sw_inv_at [OF ok(1) Some]
    show ?thesis using a(1) Some a(2) [OF Some] at(1-3) hdr [OF Some]
      by (simp add: response_server_offer_def delivered_def Let_def)
  qed
  moreover have "signaling_worker_recv_notify env (sy_sig sy) = response_server_offer env m ?w"
    using assms(3,4) fr(1)
    by (simp add: signaling_worker_recv_notify_def sw_process_notify_def sw_process_rtc_msg_def sw_pop_msg_def)
  ultimately show ?thesis using w by simp
qed

lemma woken_keeps_offer:
  assumes "sys_ok pe sy" "sys_fine pe (Sig_woken env) sy" "sw_pipe (sy_sig sy) = SW_RTC_MSG # ks"
    "sw_q_msg (sy_sig sy) = m # ms"
  shows "step_keeps pe (Sig_woken env) sy"
proof -
  note ok = sys_okD [OF assms(1)] and fr = front_awaited [OF assms(1,4)]
  let ?h = "sw_heap (sy_sig sy)"
  obtain w where w: "signaling_worker_recv_notify env (sy_sig sy) = Some w" "sw_inv w"
    "w = (sy_sig sy)\<lparr>sw_pipe := ks, sw_q_msg := ms, sw_heap := delivered env m ?h\<rparr>"
    using woken_offer [OF assms] by blast
  obtain a where a: "rm_conn m = Some a" "\<And>c. ?h a = Some c \<Longrightarrow> tc_fd c = rm_fd m \<and> awaits c"
    using fr(3) by blast
  let ?sy = "sy\<lparr>sy_sig := w\<rparr>"
  have m: "asks (sy_addr sy) m" using ok(4) assms(4) by simp
  have fl: "in_flight sy = add_mset (ticket m) (in_flight ?sy)"
    using m w(3) assms(4) by (simp add: in_flight_def)
  have sub: "pending_ok ?h (in_flight ?sy)" using ok(6) by (rule pending_ok_subset) (simp add: fl)
  have once: "Some a \<notin># image_mset rm_conn (in_flight ?sy)"
  proof -
    have "count (image_mset rm_conn (in_flight sy)) (Some a) \<le> 1" using ok(6) by (simp add: pending_ok_def)
    then show ?thesis using a(1) by (simp add: fl count_eq_zero_iff)
  qed
  have heap: "sw_heap w = ?h \<or> (\<exists>c r. ?h a = Some c \<and> sw_heap w = ?h(a \<mapsto> add_reply c r))"
    using a(1) by (auto simp: w(3) delivered_def split: option.split)
  have "pending_ok (sw_heap w) (in_flight ?sy)"
    using heap sub pending_ok_new [OF sub once] by auto
  moreover have "conns_ok (sw_heap w)"
    using heap
  proof
    assume "\<exists>c r. ?h a = Some c \<and> sw_heap w = ?h(a \<mapsto> add_reply c r)"
    then obtain c r where c: "?h a = Some c" "sw_heap w = ?h(a \<mapsto> add_reply c r)" by blast
    then show ?thesis unfolding c(2) using a(2) [OF c(1)]
      by (intro conns_ok_update [OF ok(5)]) (auto simp: add_reply_def awaits_def)
  qed (simp add: ok(5))
  ultimately have "sys_ok pe ?sy" using ok(2-4) w(2,3) assms(4) by (simp add: sys_ok_def)
  moreover have "offers (offered_now (sy_sig sy) w) \<subseteq># {#ticket m#}"
    using assms(4) a(1) by (auto simp: offered_now_def split: option.split)
  moreover have "asked (sy_addr sy) (offered_now (sy_sig sy) w) = {#}"
    using assms(4) a(1) by (auto simp: offered_now_def split: option.split)
  ultimately show ?thesis
    using w(1) by (intro step_keepsI [where sy' = ?sy and out = "offered_now (sy_sig sy) w"]) (simp_all add: fl)
qed

lemma woken_keeps:
  assumes "sys_ok pe sy" "sys_fine pe (Sig_woken env) sy"
  shows "step_keeps pe (Sig_woken env) sy"
proof -
  note ok = sys_okD [OF assms(1)]
  have idle: ?thesis if "signaling_worker_recv_notify env (sy_sig sy) = Some w" "sw_heap w = sw_heap (sy_sig sy)"
      "sw_conns w = sw_conns (sy_sig sy)" "same_queues (sy_sig sy) w" for w
  proof -
    have "sw_inv w" using ok(1) that by (simp add: sw_inv_def)
    moreover have "offered_now (sy_sig sy) w = []" using that(2) by (intro offered_now_frame) simp
    ultimately show ?thesis using ok that by (intro sig_keeps [OF assms(1), of _ w]) simp_all
  qed
  show ?thesis
  proof (cases "sw_pipe (sy_sig sy)")
    case Nil
    then show ?thesis by (intro idle [of "sy_sig sy"]) (simp_all add: signaling_worker_recv_notify_def)
  next
    case (Cons k ks)
    let ?w = "(sy_sig sy)\<lparr>sw_pipe := ks\<rparr>"
    consider "k = SW_NEW_CONN" | m ms where "k = SW_RTC_MSG" "sw_q_msg (sy_sig sy) = m # ms"
      | "k = SW_RTC_MSG" "sw_q_msg (sy_sig sy) = []" | "k = SW_QUIT" | "k \<notin> {SW_NEW_CONN, SW_RTC_MSG, SW_QUIT}"
      by (cases "sw_q_msg (sy_sig sy)") auto
    then show ?thesis
    proof cases
      case 1
      then show ?thesis using woken_keeps_new [OF assms] Cons by blast
    next
      case 2
      then show ?thesis using woken_keeps_offer [OF assms] Cons by blast
    next
      case 3
      then show ?thesis using Cons
        by (intro idle [of ?w])
          (simp_all add: signaling_worker_recv_notify_def sw_process_notify_def sw_process_rtc_msg_def sw_pop_msg_def)
    next
      case 4
      then show ?thesis using Cons
        by (intro idle [of "sw_stop_loop ?w"])
          (simp_all add: signaling_worker_recv_notify_def sw_process_notify_def sw_stop_loop_def)
    next
      case 5
      then show ?thesis using Cons
        by (intro idle [of ?w]) (simp_all add: signaling_worker_recv_notify_def sw_process_notify_def)
    qed
  qed
qed

lemma sys_step_keeps:
  assumes "sys_ok pe sy" "sys_fine pe ev sy"
  shows "step_keeps pe ev sy"
proof (cases ev)
  case (Sig_stopped r)
  let ?w = "sw_stop r (sy_sig sy)"
  have f: "sw_heap ?w = sw_heap (sy_sig sy)" "sw_conns ?w = sw_conns (sy_sig sy)" "same_queues (sy_sig sy) ?w"
    by (simp_all add: sw_stop_def sw_notify_def)
  then have "sw_inv ?w" using sys_okD(1) [OF assms(1)] by (simp add: sw_inv_def)
  then show ?thesis using f sys_okD [OF assms(1)] Sig_stopped
    by (intro sig_keeps [OF assms(1), of _ ?w]) simp_all
next
  case (Clock t)
  then show ?thesis using sys_okD [OF assms(1)]
    by (intro sig_keeps [OF assms(1), of _ "(sy_sig sy)\<lparr>sw_now := t\<rparr>"]) simp_all
next
  case (Conn_given node r fd)
  then show ?thesis using conn_given_keeps assms by blast
next
  case (Sig_woken env)
  then show ?thesis using woken_keeps assms by blast
next
  case (Client_io env rd res fd events)
  then show ?thesis using io_keeps assms by blast
next
  case (Conn_timer a)
  then show ?thesis using timer_keeps assms by blast
next
  case (Rtc e r)
  then show ?thesis using rtc_keeps assms by blast
qed

interpretation sys_ledger: ledger "sys_step pe" "\<lambda>sy. sys_ok pe sy \<and> sy_addr sy = addr" "sys_fine pe" in_flight offers "asked addr"
  for pe addr
proof
  fix sy ev assume "sys_ok pe sy \<and> sy_addr sy = addr" "sys_fine pe ev sy"
  then show "\<exists>sy' out. sys_step pe ev sy = Some (sy', out) \<and> (sys_ok pe sy' \<and> sy_addr sy' = addr) \<and>
      offers out + in_flight sy' \<subseteq># asked addr out + in_flight sy"
    using sys_step_keeps [of pe sy ev] unfolding step_keeps_def by auto
qed simp_all

section \<open>The two properties\<close>


lemma push_read:
  assumes "fresh_conn c" "push_request env h b uid name audio video"
    "se_pipe env (push_msg env h a (tc_fd c) uid name audio video) = Done 4"
  shows "feed env a (h @ b) c = Some (0, read_body h b c, [push_msg env h a (tc_fd c) uid name audio video])"
proof -
  have "request_of env a c [] = (0, c, [])" by (rule request_of_Nil [OF assms(1)])
  then obtain ret c' ms where "feed env a (h @ b) c = Some (ret, c', ms)" "request_of env a c (h @ b) = (ret, c', ms)"
    using feed_request_of [OF assms(1), of env a "[]" c "[]" "h @ b"] assms(2) by (auto simp: push_request_def)
  moreover have "request_of env a c (h @ b) = (0, read_body h b c, [push_msg env h a (tc_fd c) uid name audio video])"
    using assms(2,3)
    by (auto simp: push_request_def request_of_def Let_def process_request_def signaling_process_push_def
      push_msg_def notify_def)
  ultimately show ?thesis by simp
qed

abbreviation sample_header :: string where
  "sample_header \<equiv> take 36 Signaling_Request.sample_request"

abbreviation sample_msg :: rtc_msg where
  "sample_msg \<equiv> push_msg (en_req (sx_sw sample_sys_env)) sample_header 1 5 7 ''live'' 1 1"

lemma sample_push_request: "push_request (en_req (sx_sw sample_sys_env)) sample_header ''{}'' 7 ''live'' 1 1"
  by (simp add: push_request_def ghead_sample_request sample_sys_env_def ref_env_def ref_json_def)

lemma sample_accepted:
  obtains w c where "new_conn (sample_sw_env 1) 5 (sig_worker_new 60 0 :: int sig_worker) = Some w" "sw_inv w"
    "sw_heap w = [1 \<mapsto> c]" "tc_fd c = 5" "fresh_conn c" "tc_replies c = []" "sw_pipe w = []" "sw_q_msg w = []"
    "sw_q_conn w = lfq_new 0 0"
proof -
  let ?w0 = "sig_worker_new 60 0 :: int sig_worker"
  have en: "enabled (Ev_accept (sample_sw_env 1) 5) ?w0"
    by (simp add: sig_worker_new_def sample_sw_env_def)
  obtain w where w: "new_conn (sample_sw_env 1) 5 ?w0 = Some w" "sw_inv w"
    using new_conn_inv [OF sw_inv_new en] by blast
  then show ?thesis using that
    by (auto simp: new_conn_def Let_def sample_sw_env_def sig_worker_new_def tcp_conn_new_def fresh_conn_def)
qed

lemma sample_rtc_ok: "rtc_ok sample_pc_env (sample_rtc_server\<lparr>rv_q_msg := []\<rparr>)"
  "rtc_waiting (sample_rtc_server\<lparr>rv_q_msg := []\<rparr>) = []"
  by (simp_all add: rtc_ok_def shard_ok_def worker_ok_def sample_rtc_server_def rtc_worker_new_def mgr_ok_def
      Rtc_Server.sample_manager_def rtc_waiting_def)

text \<open>A client pushes, and its request goes once through all the threads.\<close>

definition sample_schedule :: "(unit, int) sys_event list" where
  "sample_schedule =
     [Client_io (sx_sw sample_sys_env) (\<lambda>_. (Done 38, Signaling_Request.sample_request)) (\<lambda>_. Done 1) 5 EV_LOOP_READ,
      Rtc (Server_woken sample_cert 1 (Done 4)) (Done 4), Rtc (Worker_woken 0) (Done 4), Sig_woken (sx_sw sample_sys_env)]"

lemma sample_io:
  assumes "sw_inv w" "sw_heap w = [1 \<mapsto> c]" "tc_fd c = 5" "fresh_conn c"
  defines "env \<equiv> sx_sw sample_sys_env"
  shows "enabled (Ev_io env (\<lambda>_. (Done 38, Signaling_Request.sample_request)) (\<lambda>_. Done 1) 5 EV_LOOP_READ) w"
    and "conn_io_cb env (\<lambda>_. (Done 38, Signaling_Request.sample_request)) (\<lambda>_. Done 1) 5 EV_LOOP_READ w =
      Some (w\<lparr>sw_heap := [1 \<mapsto> read_body sample_header ''{}'' (c\<lparr>tc_last := sw_now w\<rparr>)]\<rparr>, [sample_msg], [])"
proof -
  let ?c = "c\<lparr>tc_last := sw_now w\<rparr>"
  have req: "Signaling_Request.sample_request = sample_header @ ''{}''" by (simp add: Signaling_Request.sample_request_def)
  have f: "fresh_conn ?c" "tc_fd ?c = 5" "tc_querybuf c = []" using assms(3,4) by (simp_all add: fresh_conn_def)
  have "se_pipe (en_req env) (push_msg (en_req env) sample_header 1 (tc_fd ?c) 7 ''live'' 1 1) = Done 4"
    by (simp add: env_def sample_sys_env_def ref_env_def)
  from push_read [OF f(1) sample_push_request [folded env_def] this]
  have "feed (en_req env) 1 Signaling_Request.sample_request ?c = Some (0, read_body sample_header ''{}'' ?c, [sample_msg])"
    unfolding f(2) env_def req [symmetric] .
  moreover have "en_room env n" for n by (simp add: env_def sample_sys_env_def sample_sw_env_def)
  moreover have "(\<lambda>_ :: int. (Done (int (length Signaling_Request.sample_request)), Signaling_Request.sample_request)) =
      (\<lambda>_. (Done 38, Signaling_Request.sample_request))" by simp
  ultimately have "read_query env (\<lambda>_. (Done 38, Signaling_Request.sample_request)) 5 w =
      Some (w\<lparr>sw_heap := (sw_heap w)(1 \<mapsto> read_body sample_header ''{}'' ?c)\<rparr>, [sample_msg])"
    using read_some [OF assms(1), of 1 c env Signaling_Request.sample_request] assms(2,3)
    by (metis fun_upd_same length_0_conv length_sample_request zero_neq_numeral)
  then show "conn_io_cb env (\<lambda>_. (Done 38, Signaling_Request.sample_request)) (\<lambda>_. Done 1) 5 EV_LOOP_READ w =
      Some (w\<lparr>sw_heap := [1 \<mapsto> read_body sample_header ''{}'' ?c]\<rparr>, [sample_msg], [])"
    using assms(2) by (simp add: conn_io_cb_def)
  have "length (reading (\<lambda>_. (Done 38, Signaling_Request.sample_request)) c n) < 65535" for n
    by (simp add: reading_def)
  moreover have "short_results (en_req env)"
    by (simp add: short_results_def env_def sample_sys_env_def ref_env_def ref_json_def result_json_def short_json_def)
  ultimately show "enabled (Ev_io env (\<lambda>_. (Done 38, Signaling_Request.sample_request)) (\<lambda>_. Done 1) 5 EV_LOOP_READ) w"
    using assms(2,3) f(3) by (auto simp: env_def sample_sys_env_def sample_sw_env_def sock_write_data_def)
qed

lemma sample_system_ok:
  assumes "sw_inv w" "sw_heap w = [1 \<mapsto> c]" "tc_replies c = []" "sw_q_msg w = []" "sw_q_conn w = lfq_new 0 0"
  shows "sys_ok sample_pc_env (sample_system w)" "in_flight (sample_system w) = {#}"
proof -
  show fl: "in_flight (sample_system w) = {#}"
    using assms(4) sample_rtc_ok(2) by (simp add: in_flight_def sample_system_def)
  have "conns_ok (sw_heap w)" using assms(2,3) by (auto simp: conns_ok_def split: if_splits)
  then show "sys_ok sample_pc_env (sample_system w)"
    using assms(1,4,5) fl sample_rtc_ok(1) lfq_inv_new [of 0 "0 :: int"]
    by (simp add: sys_ok_def pending_ok_def) (simp add: sample_system_def)
qed

lemma all_fineI:
  "fine e c \<Longrightarrow> (\<And>c' out. step e c = Some (c', out) \<Longrightarrow> all_fine fine step es c') \<Longrightarrow> all_fine fine step (e # es) c"
  by (auto split: option.split)

lemma sample_schedule_fine:
  assumes "sw_inv w" "sw_heap w = [1 \<mapsto> c]" "tc_fd c = 5" "fresh_conn c" "sw_q_conn w = lfq_new 0 0"
  shows "all_fine (sys_fine sample_pc_env) (sys_step sample_pc_env) sample_schedule (sample_system w)"
proof -
  let ?env = "sx_sw sample_sys_env" and ?rtc = "sample_rtc_server\<lparr>rv_q_msg := []\<rparr>"
  let ?w = "w\<lparr>sw_heap := [1 \<mapsto> read_body sample_header ''{}'' (c\<lparr>tc_last := sw_now w\<rparr>)]\<rparr>"
  let ?s1 = "send_all (se_pipe (en_req ?env)) [sample_msg] ?rtc"
  note io = sample_io [OF assms(1-4)]
  have s1: "?s1 = ?rtc\<lparr>rv_q_msg := [sample_msg], rv_pipe := [RV_RTC_MSG]\<rparr>"
    by (simp add: send_all_def rv_send_rtc_msg_def rv_notify_def rv_push_msg_def pipe_write_def notify_def
      sample_sys_env_def ref_env_def) (simp add: sample_rtc_server_def rtc_server_new_def)
  have f1: "sys_fine sample_pc_env (hd sample_schedule) (sample_system w)"
  proof -
    have "msg_fine sample_pc_env sample_msg" by (simp add: msg_fine_def push_msg_def)
    moreover have "se_worker (en_req ?env) = sy_addr (sample_system w)" "sy_sig (sample_system w) = w"
      by (simp_all add: sample_system_def sample_sys_env_def ref_env_def)
    ultimately show ?thesis using io by (simp only: sample_schedule_def list.sel sys_fine.simps) simp
  qed
  have f2: "rtc_event_fine sample_pc_env (Server_woken sample_cert 1 (Done 4)) ?s1"
    unfolding s1 by (simp add: sample_rtc_server_def rtc_worker_new_def lfq_new_def)
  have f3: "length (rv_workers s) = 1"
    if "rtc_step sample_pc_env (Server_woken sample_cert 1 (Done 4)) ?s1 = Some (s, out)" for s out
    using that unfolding s1
    by (auto simp: rtc_server_recv_notify_def rv_process_notify_def rv_process_rtc_msg_def rv_pop_msg_def
      sample_rtc_server_def generate_and_check_certificate_def sample_cert_def split: Option.bind_splits option.splits nat.splits)
  have f4: "sys_fine sample_pc_env (Sig_woken ?env) sy"
    if "sw_q_conn (sy_sig sy) = sw_q_conn w" for sy
    using that assms(5) by (simp add: sample_sys_env_def ref_env_def ref_json_def offer_json_def short_json_def
      split: list.split)
  let ?fine = "all_fine (sys_fine sample_pc_env) (sys_step sample_pc_env)"
  have g4: "?fine [Sig_woken ?env] sy" if "sw_q_conn (sy_sig sy) = sw_q_conn w" for sy
    using f4 [OF that] by (intro all_fineI) simp_all
  have g3: "?fine [Rtc (Worker_woken 0) (Done 4), Sig_woken ?env] sy"
    if "sw_q_conn (sy_sig sy) = sw_q_conn w" "length (rv_workers (sy_rtc sy)) = 1" for sy
    using that by (intro all_fineI g4) (auto simp: hand_back_frame split: Option.bind_splits)
  have g2: "?fine (tl sample_schedule) sy" if sy: "sw_q_conn (sy_sig sy) = sw_q_conn w" "sy_rtc sy = ?s1" for sy
    unfolding sample_schedule_def list.sel
  proof (rule all_fineI)
    show "sys_fine sample_pc_env (Rtc (Server_woken sample_cert 1 (Done 4)) (Done 4)) sy"
      using f2 sy(2) by simp
    fix sy' out assume "sys_step sample_pc_env (Rtc (Server_woken sample_cert 1 (Done 4)) (Done 4)) sy = Some (sy', out)"
    then obtain s ms where s: "rtc_step sample_pc_env (Server_woken sample_cert 1 (Done 4)) ?s1 = Some (s, ms)"
      "sy' = sy\<lparr>sy_sig := hand_back (sy_addr sy) (Done 4) ms (sy_sig sy), sy_rtc := s\<rparr>"
      using sy(2) by (auto simp del: rtc_step.simps split: Option.bind_splits)
    show "?fine [Rtc (Worker_woken 0) (Done 4), Sig_woken ?env] sy'"
      using sy(1) f3 [OF s(1)] by (intro g3) (simp_all add: s(2) hand_back_frame)
  qed
  have "?fine (hd sample_schedule # tl sample_schedule) (sample_system w)"
  proof (rule all_fineI [OF f1 g2])
    fix sy' out assume "sys_step sample_pc_env (hd sample_schedule) (sample_system w) = Some (sy', out)"
    then have "sy' = (sample_system w)\<lparr>sy_sig := ?w, sy_rtc := ?s1\<rparr>"
      using io(2) by (auto simp: sample_schedule_def sample_system_def split: Option.bind_splits)
    then show "sw_q_conn (sy_sig sy') = sw_q_conn w" "sy_rtc sy' = ?s1" by simp_all
  qed
  then show ?thesis by (simp add: sample_schedule_def)
qed



text \<open>The client of the sample has pushed, and its offer is at the front of the queue.\<close>

lemma sample_waiting:
  obtains sy :: "int system" and c where "sys_ok sample_pc_env sy" "sw_heap (sy_sig sy) = [1 \<mapsto> c]"
    "sw_pipe (sy_sig sy) = [SW_RTC_MSG]" "sw_q_msg (sy_sig sy) = [sample_msg]" "take GHEAD_SIZE (tc_querybuf c) = sample_header"
proof -
  obtain w :: "int sig_worker" and c where w: "sw_inv w" "sw_heap w = [1 \<mapsto> c]" "tc_fd c = 5" "fresh_conn c"
    "tc_replies c = []" "sw_q_msg w = []" "sw_q_conn w = lfq_new 0 0"
    by (rule sample_accepted) blast
  let ?c = "read_body sample_header ''{}'' (c\<lparr>tc_last := sw_now w\<rparr>)"
  let ?w = "w\<lparr>sw_heap := [1 \<mapsto> ?c], sw_pipe := [SW_RTC_MSG], sw_q_msg := [sample_msg]\<rparr>"
  let ?sy = "sample_system ?w"
  have "sw_inv (w\<lparr>sw_heap := (sw_heap w)(1 \<mapsto> ?c)\<rparr>)"
    using push_reads(4) [OF w(1) _ w(4) _ sample_push_request, of 1] w(2,3)
    by (simp add: sample_sys_env_def sample_sw_env_def ref_env_def)
  then have "sw_inv ?w" using w(2) by (simp add: sw_inv_def)
  moreover have fl: "in_flight ?sy = {#ticket sample_msg#}"
    using sample_rtc_ok(2)
    by (simp add: in_flight_def sample_system_def asks_def push_msg_def sample_sys_env_def ref_env_def)
  have ask: "asks 1 sample_msg" by (simp add: asks_def push_msg_def sample_sys_env_def ref_env_def)
  have "conns_ok (sw_heap ?w)" using w(5) by (auto simp: conns_ok_def split: if_splits)
  moreover have "pending_ok (sw_heap ?w) (in_flight ?sy)"
    unfolding fl using w(3,5) by (simp add: pending_ok_def awaits_def push_msg_def)
  moreover have "lfq_inv (sw_q_conn ?w)" using w(7) lfq_inv_new [of 0 "0 :: int"] by simp
  ultimately have "sys_ok sample_pc_env ?sy"
    using sample_rtc_ok(1) ask by (simp add: sys_ok_def) (simp add: sample_system_def)
  then show ?thesis by (rule that [of ?sy ?c]) (simp_all add: sample_system_def)
qed


end
