(* ===== verification/Server_Progress.thy ===== *)
theory Server_Progress
  imports Server_Interleaving
begin

text \<open>
  Progress of the requests: as long as no write to a pipe fails and nobody stops the servers, every
  message that waits in a queue has a notification in the pipe of its thread, and waking the threads
  brings every request to its end.
\<close>

section \<open>Notifications\<close>

text \<open>A queue with its pipe: no QUIT is on the way and each message has its notification.\<close>

definition covers :: "int \<Rightarrow> int \<Rightarrow> int list \<Rightarrow> 'a list \<Rightarrow> bool" where
  "covers quit kind pipe q \<longleftrightarrow> quit \<notin> set pipe \<and> length q \<le> count_list pipe kind"

lemma covers_send: "covers quit kind pipe q \<Longrightarrow> quit \<noteq> kind \<Longrightarrow> covers quit kind (pipe @ [kind]) (q @ [x])"
  by (simp add: covers_def)

lemma covers_take:
  "covers quit kind (k # pipe) q \<Longrightarrow> k \<noteq> quit \<and> covers quit kind pipe (if k = kind then tl q else q)"
  by (auto simp: covers_def)

lemma covers_idle: "covers quit kind [] q \<Longrightarrow> q = []"
  by (simp add: covers_def)

definition spec_notified :: "rtc_spec \<Rightarrow> bool" where
  "spec_notified a \<longleftrightarrow> covers RV_QUIT RV_RTC_MSG (rs_pipe a) (rs_queue a) \<and>
     list_all (\<lambda>x. covers RW_QUIT RW_RTC_MSG (fst x) (snd x)) (rs_shards a)"

definition rtc_notified :: "rtc_server \<Rightarrow> bool" where
  "rtc_notified s \<longleftrightarrow> covers RV_QUIT RV_RTC_MSG (rv_pipe s) (rv_q_msg s) \<and>
     list_all (\<lambda>w. covers RW_QUIT RW_RTC_MSG (rw_pipe w) (lfq_contents (rw_q_msg w))) (rv_workers s)"

definition all_notified :: "'s system \<Rightarrow> bool" where
  "all_notified sy \<longleftrightarrow> covers SW_QUIT SW_RTC_MSG (sw_pipe (sy_sig sy)) (sw_q_msg (sy_sig sy)) \<and> rtc_notified (sy_rtc sy)"

lemma spec_notified_abs [simp]: "spec_notified (abs_rtc rt s) = rtc_notified s"
  by (simp add: spec_notified_def rtc_notified_def abs_rtc_def list_all_iff)

text \<open>Events in which nothing is lost: the writes to the pipes succeed, nobody stops the servers.\<close>

fun rtc_lossless :: "rtc_event \<Rightarrow> bool" where
  "rtc_lossless (Rtc_sent m r) \<longleftrightarrow> notify r = 0"
| "rtc_lossless (Rtc_stop r) \<longleftrightarrow> False"
| "rtc_lossless (Server_woken ce node r) \<longleftrightarrow> notify r = 0"
| "rtc_lossless (Worker_woken i) \<longleftrightarrow> True"

fun lossless :: "('j, 's) sys_event \<Rightarrow> bool" where
  "lossless (Sig_stopped r) \<longleftrightarrow> False"
| "lossless (Client_io env rd res fd events) \<longleftrightarrow> (\<forall>m. notify (se_pipe (en_req env) m) = 0)"
| "lossless (Rtc e r) \<longleftrightarrow> rtc_lossless e \<and> notify r = 0"
| "lossless ev \<longleftrightarrow> True"

text \<open>What is left to do: the notifications on the way, each counted with the ones it can give rise to.\<close>

definition spec_distance :: "rtc_spec \<Rightarrow> nat" where
  "spec_distance a = 3 * length (rs_pipe a) + sum_list (map (\<lambda>x. 2 * length (fst x)) (rs_shards a))"

definition rtc_distance :: "rtc_server \<Rightarrow> nat" where
  "rtc_distance s = 3 * length (rv_pipe s) + sum_list (map (\<lambda>w. 2 * length (rw_pipe w)) (rv_workers s))"

definition distance :: "'s system \<Rightarrow> nat" where
  "distance sy = rtc_distance (sy_rtc sy) + length (sw_pipe (sy_sig sy))"

lemma spec_distance_abs [simp]: "spec_distance (abs_rtc rt s) = rtc_distance s"
  by (simp add: spec_distance_def rtc_distance_def abs_rtc_def comp_def)

lemma sum_list_map_update:
  "i < length xs \<Longrightarrow> sum_list (map f (xs[i := x])) + f (xs ! i) = sum_list (map f xs) + (f x :: nat)"
proof (induction xs arbitrary: i)
  case (Cons y ys)
  then show ?case by (cases i) (simp_all add: ac_simps)
qed simp

text \<open>A worker's queue and pipe.\<close>

lemma deliver_progress:
  assumes "spec_deliver e i a = (a', out)" "i < length (rs_shards a)" "spec_notified a"
    "case e of Msg_sent n m r \<Rightarrow> notify r = 0 | Stopped r \<Rightarrow> False | Woken \<Rightarrow> True"
  shows "spec_notified a' \<and>
    (case e of Woken \<Rightarrow> fst (rs_shards a ! i) \<noteq> [] \<longrightarrow> spec_distance a' + length out < spec_distance a
     | _ \<Rightarrow> out = [] \<and> spec_distance a' = spec_distance a + 2)"
proof -
  obtain p q where pq: "rs_shards a ! i = (p, q)" by fastforce
  obtain p' q' where a': "rs_shards a' = (rs_shards a)[i := (p', q')]" "rs_pipe a' = rs_pipe a" "rs_queue a' = rs_queue a"
    and st: "spec_step e \<lparr>ws_pipe = p, ws_queue = q, ws_owner = rs_owner a\<rparr> =
      (\<lparr>ws_pipe = p', ws_queue = q', ws_owner = rs_owner a'\<rparr>, out)"
    using assms(1) pq by (auto simp: spec_deliver_def Let_def split: prod.splits)
  have c: "covers RW_QUIT RW_RTC_MSG p q" using assms(2,3) pq by (auto simp: spec_notified_def list_all_length)
  have sh: "covers RW_QUIT RW_RTC_MSG p' q' \<and>
      (case e of Woken \<Rightarrow> p \<noteq> [] \<longrightarrow> Suc (length p') = length p \<and> length out \<le> 1
       | _ \<Rightarrow> out = [] \<and> length p' = Suc (length p))"
    using st c assms(4)
    by (cases e) (auto simp: pipe_write_def spec_msg_def Let_def covers_def split: list.splits if_splits option.splits)
  have "spec_notified a'" using assms(3) sh a' by (auto simp: spec_notified_def list_all_iff dest: set_update_subset_insert [THEN subsetD])
  moreover have "spec_distance a' + 2 * length p = spec_distance a + 2 * length p'"
    using sum_list_map_update [OF assms(2), of "\<lambda>x. 2 * length (fst x)" "(p', q')"] a' pq by (simp add: spec_distance_def)
  ultimately show ?thesis using sh pq by (cases e) auto
qed

text \<open>The thread an event wakes has a notification.\<close>

fun rtc_ready :: "rtc_event \<Rightarrow> rtc_server \<Rightarrow> bool" where
  "rtc_ready (Server_woken ce node r) s \<longleftrightarrow> rv_pipe s \<noteq> []"
| "rtc_ready (Worker_woken i) s \<longleftrightarrow> i < length (rv_workers s) \<and> rw_pipe (rv_workers s ! i) \<noteq> []"
| "rtc_ready e s \<longleftrightarrow> False"

lemma route_progress:
  assumes "spec_notified a" "rs_pipe a = k # ks" "rs_shards a \<noteq> []" "notify r = 0"
  defines "b \<equiv> a\<lparr>rs_pipe := ks\<rparr>"
  shows "k \<noteq> RV_QUIT \<and> (k = RV_RTC_MSG \<longrightarrow> spec_notified (spec_route rt ce node r b) \<and>
      spec_distance (spec_route rt ce node r b) \<le> spec_distance b + 2) \<and>
    (k \<noteq> RV_RTC_MSG \<longrightarrow> spec_notified b) \<and> spec_distance b + 3 = spec_distance a"
proof -
  have k: "k \<noteq> RV_QUIT" "covers RV_QUIT RV_RTC_MSG ks (if k = RV_RTC_MSG then tl (rs_queue a) else rs_queue a)"
    using assms(1,2) covers_take [of RV_QUIT RV_RTC_MSG k ks "rs_queue a"] by (simp_all add: spec_notified_def)
  have nb: "spec_notified (a\<lparr>rs_pipe := ks, rs_queue := tl (rs_queue a), rs_cert := c\<rparr>)" if "k = RV_RTC_MSG" for c
    using k(2) that assms(1) by (simp add: spec_notified_def)
  have db: "spec_distance (a\<lparr>rs_pipe := ks, rs_queue := q, rs_cert := c\<rparr>) = spec_distance b" for q c
    by (simp add: spec_distance_def b_def)
  have "spec_notified (spec_route rt ce node r b) \<and> spec_distance (spec_route rt ce node r b) \<le> spec_distance b + 2"
    if kr: "k = RV_RTC_MSG"
  proof (cases "rs_queue a")
    case Nil
    then have "spec_notified b" using nb [OF kr, of "rs_cert a"] by (simp add: spec_notified_def b_def)
    then show ?thesis using Nil by (simp add: spec_route_def b_def)
  next
    case (Cons m ms)
    let ?cert = "spec_cert ce (rs_cert a)"
    let ?c = "a\<lparr>rs_pipe := ks, rs_queue := ms, rs_cert := ?cert\<rparr>"
    let ?e = "Msg_sent node (m\<lparr>rm_certificate := ?cert\<rparr>) r" and ?i = "shard_of rt (length (rs_shards a)) (rm_stream_name m)"
    have r: "spec_route rt ce node r b = (if ?cert = None then ?c else fst (spec_deliver ?e ?i ?c))"
      using Cons by (simp add: spec_route_def b_def Let_def)
    obtain d out where d: "spec_deliver ?e ?i ?c = (d, out)" by fastforce
    have nc: "spec_notified ?c" using nb [OF kr, of ?cert] Cons by simp
    have "?i < length (rs_shards ?c)" using assms(3) by (simp add: shard_of_def)
    from deliver_progress [OF d this nc] have "spec_notified d" "spec_distance d = spec_distance ?c + 2"
      using assms(4) by simp_all
    moreover have "spec_notified (a\<lparr>rs_pipe := ks, rs_queue := ms, rs_cert := None\<rparr>)" using nb [OF kr, of None] Cons by simp
    ultimately show ?thesis using d unfolding r by (simp add: db)
  qed
  moreover have "spec_notified b" if "k \<noteq> RV_RTC_MSG"
    using k(2) that assms(1) by (simp add: spec_notified_def b_def)
  moreover have "spec_distance b + 3 = spec_distance a" using assms(2) by (simp add: spec_distance_def b_def)
  ultimately show ?thesis using k(1) by blast
qed

lemma rtc_progress:
  assumes "rtc_ok env s" "rtc_event_fine env e s" "rtc_notified s" "rtc_lossless e" "rtc_step env e s = Some (s', out)"
  shows "rtc_notified s' \<and> (rtc_ready e s \<longrightarrow> rtc_distance s' + length out < rtc_distance s)"
proof -
  let ?rt = "pe_rt env" and ?a = "abs_rtc (pe_rt env) s"
  obtain o' where a: "rtc_spec_step ?rt e ?a = (abs_rtc ?rt s', o')" "map without_offer out = map without_offer o'"
    using rtc_sim.step_ok [OF assms(1,2)] assms(5) by (auto simp: prod_eq_iff)
  have len: "length out = length o'" using a(2) by (rule map_eq_imp_length_eq)
  have n: "spec_notified ?a" using assms(3) by simp
  have sh: "rs_shards ?a \<noteq> []" "length (rs_shards ?a) = length (rv_workers s)"
    using assms(1) by (simp_all add: rtc_ok_def abs_rtc_def)
  show ?thesis
  proof (cases e)
    case (Rtc_sent m r)
    then have "abs_rtc ?rt s' = ?a\<lparr>rs_queue := rs_queue ?a @ [m], rs_pipe := rs_pipe ?a @ [RV_RTC_MSG]\<rparr>"
      using a(1) assms(4) by (simp add: pipe_write_def)
    then have "rtc_notified s' = spec_notified (?a\<lparr>rs_queue := rs_queue ?a @ [m], rs_pipe := rs_pipe ?a @ [RV_RTC_MSG]\<rparr>)"
      by (metis spec_notified_abs)
    then show ?thesis using n Rtc_sent covers_send [of RV_QUIT RV_RTC_MSG "rs_pipe ?a" "rs_queue ?a" m]
      by (simp add: spec_notified_def)
  next
    case (Server_woken ce node r)
    then obtain k ks where k: "rs_pipe ?a = k # ks" using assms(2) by (cases "rv_pipe s") (auto simp: abs_rtc_def)
    have r: "notify r = 0" using Server_woken assms(4) by simp
    note p = route_progress [OF n k sh(1) r, of ?rt ce node]
    then have "o' = []" "abs_rtc ?rt s' = (if k = RV_RTC_MSG then spec_route ?rt ce node r (?a\<lparr>rs_pipe := ks\<rparr>) else ?a\<lparr>rs_pipe := ks\<rparr>)"
      using a(1) k Server_woken by (simp_all add: Let_def del: abs_rtc_pipe)
    moreover have "rtc_notified s' = spec_notified (abs_rtc ?rt s')" "rtc_distance s' = spec_distance (abs_rtc ?rt s')"
      "rtc_distance s = spec_distance ?a" by simp_all
    ultimately show ?thesis using p len by (cases "k = RV_RTC_MSG") (auto simp del: spec_notified_abs spec_distance_abs abs_rtc_pipe)
  next
    case (Worker_woken i)
    then have d: "spec_deliver Woken i ?a = (abs_rtc ?rt s', o')" and i: "i < length (rs_shards ?a)"
      using a(1) assms(2) sh(2) by simp_all
    have "fst (rs_shards ?a ! i) = rw_pipe (rv_workers s ! i)" using i sh(2) by (simp add: abs_rtc_def)
    then show ?thesis using deliver_progress [OF d i n] Worker_woken len by simp
  qed (use assms(4) in simp)
qed

section \<open>The whole system\<close>

lemma io_pipe:
  "conn_io_cb env rd res fd events w = Some (w', ms, wire) \<Longrightarrow> sw_pipe w' = sw_pipe w \<and> sw_q_msg w' = sw_q_msg w"
  by (auto simp: conn_io_cb_def read_query_def write_reply_def close_conn_def remove_conn_def Let_def
    split: if_splits Option.bind_splits option.splits prod.splits)

lemma new_conn_pipe: "new_conn env fd w = Some w' \<Longrightarrow> sw_pipe w' = sw_pipe w \<and> sw_q_msg w' = sw_q_msg w"
  by (auto simp: new_conn_def Let_def split: if_splits)

lemma hand_back_pipe:
  "notify r = 0 \<Longrightarrow> sw_pipe (hand_back addr r out w) = sw_pipe w @ replicate (length (sent_to addr out)) SW_RTC_MSG"
  by (induction out arbitrary: w)
    (auto simp: hand_back_def sent_to_def sw_send_rtc_msg_def sw_notify_def sw_push_msg_def pipe_write_def
      replicate_app_Cons_same)

lemma covers_sends:
  "covers quit kind pipe q \<Longrightarrow> quit \<noteq> kind \<Longrightarrow> covers quit kind (pipe @ replicate (length xs) kind) (q @ xs)"
proof (induction xs rule: rev_induct)
  case (snoc x xs)
  then show ?case using covers_send [of quit kind "pipe @ replicate (length xs) kind" "q @ xs" x]
    by (simp add: replicate_append_same [symmetric])
qed simp

lemma send_all_notified:
  "rtc_notified s \<Longrightarrow> \<forall>m. notify (r m) = 0 \<Longrightarrow> rtc_notified (send_all r ms s)"
proof (induction ms arbitrary: s)
  case (Cons m ms)
  have "rtc_notified (snd (rv_send_rtc_msg m (r m) s))"
    using Cons.prems covers_send [of RV_QUIT RV_RTC_MSG "rv_pipe s" "rv_q_msg s" m]
    by (simp add: rtc_notified_def rv_send_rtc_msg_def rv_notify_def rv_push_msg_def pipe_write_def)
  then show ?case using Cons by (simp add: send_all_def)
qed (simp add: send_all_def)

text \<open>The signaling worker: one notification less, no message without its notification.\<close>

lemma sig_progress:
  assumes "signaling_worker_recv_notify env w = Some w'" "covers SW_QUIT SW_RTC_MSG (sw_pipe w) (sw_q_msg w)"
  shows "covers SW_QUIT SW_RTC_MSG (sw_pipe w') (sw_q_msg w') \<and> sw_pipe w' = tl (sw_pipe w)"
proof (cases "sw_pipe w")
  case Nil
  then show ?thesis using assms by (simp add: signaling_worker_recv_notify_def)
next
  case (Cons k ks)
  note c = covers_take [OF assms(2) [unfolded Cons]]
  show ?thesis
  proof (cases "k = SW_RTC_MSG")
    case True
    then have "sw_pipe w' = ks \<and> sw_q_msg w' = tl (sw_q_msg w)"
      using assms(1) Cons
      by (auto simp: signaling_worker_recv_notify_def sw_process_notify_def sw_process_rtc_msg_def sw_pop_msg_def
        response_server_offer_def Let_def split: list.splits option.splits if_splits Option.bind_splits)
    then show ?thesis using c True Cons by simp
  next
    case False
    then have "sw_pipe w' = ks \<and> sw_q_msg w' = sw_q_msg w"
      using assms(1) Cons c
      by (auto simp: signaling_worker_recv_notify_def sw_process_notify_def sw_take_conn_def
        split: option.splits if_splits Option.bind_splits dest!: new_conn_pipe)
    then show ?thesis using c False Cons by simp
  qed
qed

text \<open>The events that wake one of the threads, which has a notification.\<close>

fun wakes :: "('j, 's) sys_event \<Rightarrow> 's system \<Rightarrow> bool" where
  "wakes (Sig_woken env) sy \<longleftrightarrow> sw_pipe (sy_sig sy) \<noteq> []"
| "wakes (Rtc e r) sy \<longleftrightarrow> rtc_ready e (sy_rtc sy)"
| "wakes ev sy \<longleftrightarrow> False"

lemma step_progress:
  assumes "sys_ok pe sy" "sys_fine pe ev sy" "all_notified sy" "lossless ev" "sys_step pe ev sy = Some (sy', out)"
  shows "all_notified sy' \<and> (wakes ev sy \<longrightarrow> distance sy' < distance sy)"
proof -
  let ?w = "sy_sig sy"
  have n: "covers SW_QUIT SW_RTC_MSG (sw_pipe ?w) (sw_q_msg ?w)" "rtc_notified (sy_rtc sy)"
    using assms(3) by (simp_all add: all_notified_def)
  show ?thesis
  proof (cases ev)
    case (Conn_given node fd r)
    then obtain w where w: "notify_new_conn node fd r ?w = Some (notify r, w)" "sy' = sy\<lparr>sy_sig := w\<rparr>"
      using assms(5) by (auto simp: notify_new_conn_def sw_notify_def split: Option.bind_splits)
    have "covers SW_QUIT SW_RTC_MSG (pipe_write r SW_NEW_CONN (sw_pipe ?w)) (sw_q_msg ?w)"
      using n(1) by (simp add: covers_def pipe_write_def)
    then show ?thesis using w n(2) Conn_given
      by (auto simp: notify_new_conn_def sw_notify_def all_notified_def split: Option.bind_splits)
  next
    case (Sig_woken env)
    then obtain w where w: "signaling_worker_recv_notify env ?w = Some w" "sy' = sy\<lparr>sy_sig := w\<rparr>"
      using assms(5) by (auto split: Option.bind_splits)
    then show ?thesis using sig_progress [OF w(1) n(1)] n(2) Sig_woken
      by (auto simp: all_notified_def distance_def)
  next
    case (Client_io env rd res fd events)
    then obtain w ms wire where w: "conn_io_cb env rd res fd events ?w = Some (w, ms, wire)"
      "sy' = sy\<lparr>sy_sig := w, sy_rtc := send_all (se_pipe (en_req env)) ms (sy_rtc sy)\<rparr>"
      using assms(5) by (auto split: Option.bind_splits)
    then show ?thesis using io_pipe [OF w(1)] n send_all_notified [OF n(2)] assms(4) Client_io
      by (simp add: all_notified_def)
  next
    case (Conn_timer a)
    then obtain w where w: "process_timeout a ?w = Some w" "sy' = sy\<lparr>sy_sig := w\<rparr>"
      using assms(5) by (auto split: Option.bind_splits)
    have "sw_pipe w = sw_pipe ?w" "sw_q_msg w = sw_q_msg ?w"
      using w(1) by (auto simp: process_timeout_def close_conn_def remove_conn_def split: if_splits Option.bind_splits)
    then show ?thesis using w(2) n Conn_timer by (simp add: all_notified_def)
  next
    case (Clock t)
    then show ?thesis using assms(5) n by (auto simp: all_notified_def)
  next
    case (Rtc e r)
    then obtain s ms where s: "rtc_step pe e (sy_rtc sy) = Some (s, ms)"
      "sy' = sy\<lparr>sy_sig := hand_back (sy_addr sy) r ms ?w, sy_rtc := s\<rparr>"
      using assms(5) by (auto split: Option.bind_splits)
    have r: "notify r = 0" "rtc_lossless e" using assms(4) Rtc by simp_all
    have "rtc_notified s \<and> (rtc_ready e (sy_rtc sy) \<longrightarrow> rtc_distance s + length ms < rtc_distance (sy_rtc sy))"
      using rtc_progress [OF sys_okD(3) [OF assms(1)] _ n(2) r(2) s(1)] assms(2) Rtc by simp
    moreover have "length (sent_to (sy_addr sy) ms) \<le> length ms" by (simp add: sent_to_def)
    ultimately show ?thesis using s(2) Rtc covers_sends [OF n(1), of "sent_to (sy_addr sy) ms"]
      by (auto simp: all_notified_def distance_def hand_back_pipe [OF r(1)] hand_back_frame)
  qed (use assms(4) in simp)
qed

lemma run_notified:
  "sys_ok pe sy \<Longrightarrow> all_notified sy \<Longrightarrow> all_fine (\<lambda>ev sy. sys_fine pe ev sy \<and> lossless ev) (sys_step pe) evs sy \<Longrightarrow>
     steps (sys_step pe) evs sy = Some (sy', out) \<Longrightarrow> sys_ok pe sy' \<and> all_notified sy'"
proof (induction evs arbitrary: sy out)
  case (Cons ev evs)
  then obtain sy1 out1 out2 where s: "sys_step pe ev sy = Some (sy1, out1)" "steps (sys_step pe) evs sy1 = Some (sy', out2)"
    by (auto split: Option.bind_splits)
  have "sys_ok pe sy1" using sys_step_keeps [OF Cons.prems(1), of ev] Cons.prems(3) s(1) by (auto simp: step_keeps_def)
  moreover have "all_notified sy1" using step_progress [OF Cons.prems(1) _ Cons.prems(2) _ s(1)] Cons.prems(3) by simp
  ultimately show ?case using Cons.IH [of sy1] Cons.prems(3) s by simp
qed simp

text \<open>Some thread has a notification to work off.\<close>

definition awake :: "'s system \<Rightarrow> bool" where
  "awake sy \<longleftrightarrow> sw_pipe (sy_sig sy) \<noteq> [] \<or> rv_pipe (sy_rtc sy) \<noteq> [] \<or> list_ex (\<lambda>w. rw_pipe w \<noteq> []) (rv_workers (sy_rtc sy))"

lemma asleep_done:
  assumes "all_notified sy" "\<not> awake sy"
  shows "in_flight sy = {#}"
proof -
  have "sw_q_msg (sy_sig sy) = []" "rv_q_msg (sy_rtc sy) = []"
    using assms covers_idle by (auto simp: all_notified_def rtc_notified_def awake_def)
  moreover have "lfq_contents (rw_q_msg w) = []" if "w \<in> set (rv_workers (sy_rtc sy))" for w
    using assms that covers_idle by (fastforce simp: all_notified_def rtc_notified_def awake_def list_ex_iff list_all_iff)
  then have "concat (map (\<lambda>w. lfq_contents (rw_q_msg w)) (rv_workers (sy_rtc sy))) = []" by simp
  ultimately show ?thesis unfolding in_flight_def rtc_waiting_def by (simp del: concat_eq_Nil_conv)
qed

lemma run_wakes:
  "sys_ok pe sy \<Longrightarrow> all_notified sy \<Longrightarrow>
     all_fine (\<lambda>ev sy. sys_fine pe ev sy \<and> lossless ev \<and> wakes ev sy) (sys_step pe) evs sy \<Longrightarrow>
     \<exists>sy' out. steps (sys_step pe) evs sy = Some (sy', out) \<and> all_notified sy' \<and> distance sy' + length evs \<le> distance sy"
proof (induction evs arbitrary: sy)
  case (Cons ev evs)
  obtain sy1 out1 where s: "sys_step pe ev sy = Some (sy1, out1)" "sys_ok pe sy1"
    using sys_step_keeps [OF Cons.prems(1), of ev] Cons.prems(3) by (auto simp: step_keeps_def)
  have p: "all_notified sy1" "distance sy1 < distance sy"
    using step_progress [OF Cons.prems(1) _ Cons.prems(2) _ s(1)] Cons.prems(3) by simp_all
  then obtain sy' out where "steps (sys_step pe) evs sy1 = Some (sy', out)" "all_notified sy'"
    "distance sy' + length evs \<le> distance sy1"
    using Cons.IH [OF s(2) p(1)] Cons.prems(3) s(1) by auto
  then show ?case using s(1) p(2) by auto
qed auto



end
