(* ===== verification/Shutdown.thy ===== *)
theory Shutdown
  imports Server_Progress
begin

text \<open>
  Stopping the RTC service: \<^verbatim>\<open>RtcServer::_stop\<close> with the joins.  Each worker gets a QUIT and is joined
  before the next one; a join runs the worker's event loop to its end.  The server's thread, which is
  blocked meanwhile, is the only one that writes to the pipes of its workers.
\<close>

section \<open>Threads\<close>

text \<open>
  The body of a worker's thread, the lambda of \<^verbatim>\<open>start\<close>: callbacks as long as the loop is not broken.
  With nothing in the pipe it waits, and as nobody else writes it waits for ever (\<open>None\<close>).
\<close>

partial_function (option) rw_run ::
    "pc_env \<Rightarrow> rtc_worker \<Rightarrow> (rtc_worker \<times> (nat \<times> rtc_msg) list) option" where
  "rw_run env w =
     (if \<not> rw_looping w then Some (w, [])
      else if rw_pipe w = [] then None
      else do { (w, out) \<leftarrow> rtc_worker_recv_notify env w;
                (w, out') \<leftarrow> rw_run env w;
                Some (w, out @ out') })"

definition rw_join :: "pc_env \<Rightarrow> rtc_worker \<Rightarrow> (rtc_worker \<times> (nat \<times> rtc_msg) list) option" where
  "rw_join env w = (if rw_thread w then rw_run env w else Some (w, []))"

text \<open>The loop of \<^verbatim>\<open>_stop\<close>: \<open>r i\<close> is the result of writing the QUIT to the \<open>i\<close>-th worker's pipe.\<close>

fun stop_workers ::
    "pc_env \<Rightarrow> (nat \<Rightarrow> sys_result) \<Rightarrow> rtc_worker list \<Rightarrow> (rtc_worker list \<times> (nat \<times> rtc_msg) list) option" where
  "stop_workers env r [] = Some ([], [])"
| "stop_workers env r (w # ws) =
     do { (w, out) \<leftarrow> rw_join env (rw_stop (r 0) w);
          (ws, out') \<leftarrow> stop_workers env (\<lambda>i. r (Suc i)) ws;
          Some (w # ws, out @ out') }"

definition rv_stop_join ::
    "pc_env \<Rightarrow> (nat \<Rightarrow> sys_result) \<Rightarrow> rtc_server \<Rightarrow> (rtc_server \<times> (nat \<times> rtc_msg) list) option" where
  "rv_stop_join env r s =
     (if \<not> rv_thread s then Some (s, [])
      else do { (ws, out) \<leftarrow> stop_workers env r (rv_workers s);
                Some (s\<lparr>rv_pipe_watcher := None, rv_looping := False,
                        rv_closed := rv_closed s @ [rv_recv_fd s, rv_send_fd s], rv_workers := ws\<rparr>, out) })"

section \<open>A worker runs to its end\<close>

lemma recv_keeps_running:
  assumes "rtc_worker_recv_notify env w = Some (w', out)" "rw_pipe w = k # ks" "k \<noteq> RW_QUIT"
  shows "rw_thread w' = rw_thread w \<and> rw_looping w' = rw_looping w \<and> rw_pipe w' = ks"
  using assms
  by (auto simp: rtc_worker_recv_notify_def rw_process_notify_def rw_process_rtc_msg_def rw_pop_msg_def
    rw_process_push_def rw_process_answer_def Let_def split: Option.bind_splits option.splits if_splits prod.splits)

text \<open>One callback for a notification other than QUIT.\<close>

lemma recv_step:
  assumes "worker_ok env w" "rw_pipe w = k # ks" "k \<noteq> RW_QUIT"
  shows "\<exists>w' out. rtc_worker_recv_notify env w = Some (w', out) \<and> worker_ok env w' \<and> rw_pipe w' = ks \<and>
    rw_thread w' = rw_thread w \<and> rw_looping w' = rw_looping w \<and>
    lfq_contents (rw_q_msg w') = drop (if k = RW_RTC_MSG then 1 else 0) (lfq_contents (rw_q_msg w)) \<and>
    tickets addr (sent_to addr out) = tickets addr (take (if k = RW_RTC_MSG then 1 else 0) (lfq_contents (rw_q_msg w)))"
proof -
  obtain w' out where s: "rtc_worker_recv_notify env w = Some (w', out)" "worker_ok env w'"
    "fst (spec_step Woken (abs_worker w)) = abs_worker w'"
    "map without_offer out = map without_offer (snd (spec_step Woken (abs_worker w)))"
    using rtc_worker_sim.step_ok [OF assms(1), of Woken] by (auto simp: event_fine_def)
  have "tickets addr (sent_to addr out) = tickets addr (sent_to addr (snd (spec_step Woken (abs_worker w))))"
    by (rule sent_to_view [OF s(4)])
  moreover have "lfq_contents (rw_q_msg w') = ws_queue (fst (spec_step Woken (abs_worker w)))"
    using s(3) by (simp add: abs_worker_def)
  ultimately show ?thesis using s(1,2) recv_keeps_running [OF s(1) assms(2,3)] assms(2)
    by (cases "lfq_contents (rw_q_msg w)")
      (auto simp: abs_worker_def spec_msg_def sent_to_def asks_def Let_def split: option.splits)
qed

lemma run_to_quit:
  assumes "worker_ok env w" "rw_thread w" "rw_looping w" "rw_pipe w = ks @ RW_QUIT # rest" "RW_QUIT \<notin> set ks"
  shows "\<exists>w' out. rw_run env w = Some (w', out) \<and> worker_ok env w' \<and> \<not> rw_looping w' \<and>
    lfq_contents (rw_q_msg w') = drop (count_list ks RW_RTC_MSG) (lfq_contents (rw_q_msg w)) \<and>
    tickets addr (sent_to addr out) = tickets addr (take (count_list ks RW_RTC_MSG) (lfq_contents (rw_q_msg w)))"
  using assms
proof (induction ks arbitrary: w)
  case Nil
  let ?w = "rw_stop_loop (w\<lparr>rw_pipe := rest\<rparr>)"
  have "rtc_worker_recv_notify env w = Some (?w, [])"
    using Nil.prems(4) by (simp add: rtc_worker_recv_notify_def rw_process_notify_def)
  moreover have w: "\<not> rw_looping ?w" "rw_q_msg ?w = rw_q_msg w" "rw_mgr ?w = rw_mgr w"
    using Nil.prems(2) by (simp_all add: rw_stop_loop_def)
  moreover have "rw_run env ?w = Some (?w, [])" using w(1) by (subst rw_run.simps) simp
  ultimately have "rw_run env w = Some (?w, [])"
    using Nil.prems(3,4) by (subst rw_run.simps) simp
  then show ?case using w Nil.prems(1) by (auto simp: worker_ok_def sent_to_def)
next
  case (Cons k ks)
  let ?n = "if k = RW_RTC_MSG then 1 else 0 :: nat"
  have k: "rw_pipe w = k # (ks @ RW_QUIT # rest)" "k \<noteq> RW_QUIT" using Cons.prems(4,5) by auto
  obtain w1 out1 where s: "rtc_worker_recv_notify env w = Some (w1, out1)" "worker_ok env w1" "rw_pipe w1 = ks @ RW_QUIT # rest"
    "rw_thread w1" "rw_looping w1" "lfq_contents (rw_q_msg w1) = drop ?n (lfq_contents (rw_q_msg w))"
    "tickets addr (sent_to addr out1) = tickets addr (take ?n (lfq_contents (rw_q_msg w)))"
    using recv_step [OF Cons.prems(1) k, of addr] Cons.prems(2,3) by auto
  obtain w' out where r: "rw_run env w1 = Some (w', out)" "worker_ok env w'" "\<not> rw_looping w'"
    "lfq_contents (rw_q_msg w') = drop (count_list ks RW_RTC_MSG) (lfq_contents (rw_q_msg w1))"
    "tickets addr (sent_to addr out) = tickets addr (take (count_list ks RW_RTC_MSG) (lfq_contents (rw_q_msg w1)))"
    using Cons.IH [OF s(2,4,5,3)] Cons.prems(5) by auto
  have "rw_run env w = Some (w', out1 @ out)"
    using Cons.prems(3) k(1) s(1) r(1) by (subst rw_run.simps) simp
  moreover have "sent_to addr (out1 @ out) = sent_to addr out1 @ sent_to addr out" by (simp add: sent_to_def)
  moreover have "count_list (k # ks) RW_RTC_MSG = ?n + count_list ks RW_RTC_MSG" by simp
  moreover have "take (?n + m) xs = take ?n xs @ take m (drop ?n xs)" for m and xs :: "rtc_msg list" by (rule take_add)
  ultimately show ?case using r s(6,7) by (intro exI [of _ w'] exI [of _ "out1 @ out"]) (simp add: add.commute)
qed

lemma run_blocks:
  assumes "worker_ok env w" "rw_looping w" "RW_QUIT \<notin> set (rw_pipe w)"
  shows "rw_run env w = None"
  using assms
proof (induction "rw_pipe w" arbitrary: w)
  case Nil
  then show ?case by (subst rw_run.simps) simp
next
  case (Cons k ks)
  have k: "rw_pipe w = k # ks" "k \<noteq> RW_QUIT" using Cons.hyps(2) Cons.prems(3) by (metis, metis list.set_intros(1))
  obtain w1 out where s: "rtc_worker_recv_notify env w = Some (w1, out)" "worker_ok env w1" "rw_pipe w1 = ks"
    "rw_looping w1 = rw_looping w"
    using recv_step [OF Cons.prems(1) k] by blast
  then have "rw_run env w1 = None" using Cons.hyps(1) [of w1] Cons.prems k(1) by simp
  then show ?case using s k(1) Cons.prems(2) by (subst rw_run.simps) simp
qed

section \<open>The whole service\<close>

text \<open>A worker whose thread runs and whose messages have their notifications.\<close>

definition worker_running :: "rtc_worker \<Rightarrow> bool" where
  "worker_running w \<longleftrightarrow> rw_thread w \<and> rw_looping w \<and> covers RW_QUIT RW_RTC_MSG (rw_pipe w) (lfq_contents (rw_q_msg w))"

definition worker_done :: "pc_env \<Rightarrow> rtc_worker \<Rightarrow> bool" where
  "worker_done env w \<longleftrightarrow> worker_ok env w \<and> \<not> rw_looping w \<and> lfq_contents (rw_q_msg w) = []"

lemma stop_frame:
  "rw_q_msg (rw_stop r w) = rw_q_msg w" "rw_mgr (rw_stop r w) = rw_mgr w" "rw_thread (rw_stop r w) = rw_thread w"
  "rw_looping (rw_stop r w) = rw_looping w" "rw_pipe (rw_stop r w) = pipe_write r RW_QUIT (rw_pipe w)"
  "worker_ok env (rw_stop r w) = worker_ok env w"
  by (simp_all add: rw_stop_def rw_notify_def worker_ok_def)

lemma join_stopped:
  assumes "worker_ok env w" "worker_running w" "notify r = 0"
  shows "\<exists>w' out. rw_join env (rw_stop r w) = Some (w', out) \<and> worker_done env w' \<and>
    tickets addr (sent_to addr out) = tickets addr (lfq_contents (rw_q_msg w))"
proof -
  have w: "rw_thread w" "rw_looping w" "RW_QUIT \<notin> set (rw_pipe w)"
    "length (lfq_contents (rw_q_msg w)) \<le> count_list (rw_pipe w) RW_RTC_MSG"
    using assms(2) by (simp_all add: worker_running_def covers_def)
  have "rw_pipe (rw_stop r w) = rw_pipe w @ RW_QUIT # []" using assms(3) by (simp add: stop_frame pipe_write_def)
  from run_to_quit [OF _ _ _ this w(3), of env addr] show ?thesis
    using assms(1) w by (auto simp: stop_frame rw_join_def worker_done_def)
qed

lemma join_unstopped:
  "worker_ok env w \<Longrightarrow> worker_running w \<Longrightarrow> notify r \<noteq> 0 \<Longrightarrow> rw_join env (rw_stop r w) = None"
  using run_blocks [of env "rw_stop r w"]
  by (simp add: stop_frame rw_join_def worker_running_def covers_def pipe_write_def)

lemma stop_workers_ok:
  "list_all (\<lambda>w. worker_ok env w \<and> worker_running w) ws \<Longrightarrow> \<forall>i < length ws. notify (r i) = 0 \<Longrightarrow>
     \<exists>ws' out. stop_workers env r ws = Some (ws', out) \<and> length ws' = length ws \<and> list_all (worker_done env) ws' \<and>
       tickets addr (sent_to addr out) = tickets addr (concat (map (\<lambda>w. lfq_contents (rw_q_msg w)) ws))"
proof (induction ws arbitrary: r)
  case (Cons w ws)
  obtain w' out1 where w: "rw_join env (rw_stop (r 0) w) = Some (w', out1)" "worker_done env w'"
    "tickets addr (sent_to addr out1) = tickets addr (lfq_contents (rw_q_msg w))"
    using join_stopped [of env w "r 0" addr] Cons.prems by auto
  obtain ws' out2 where "stop_workers env (\<lambda>i. r (Suc i)) ws = Some (ws', out2)" "length ws' = length ws"
    "list_all (worker_done env) ws'"
    "tickets addr (sent_to addr out2) = tickets addr (concat (map (\<lambda>w. lfq_contents (rw_q_msg w)) ws))"
    using Cons.IH [of "\<lambda>i. r (Suc i)"] Cons.prems by auto
  then show ?case using w by (auto simp: sent_to_def)
qed (simp add: sent_to_def)

lemma stop_workers_blocks:
  "list_all (\<lambda>w. worker_ok env w \<and> worker_running w) ws \<Longrightarrow> \<exists>i < length ws. notify (r i) \<noteq> 0 \<Longrightarrow>
     stop_workers env r ws = None"
proof (induction ws arbitrary: r)
  case (Cons w ws)
  show ?case
  proof (cases "notify (r 0) = 0")
    case True
    then have "\<exists>i < length ws. notify (r (Suc i)) \<noteq> 0" using Cons.prems(2) by (auto simp: less_Suc_eq_0_disj)
    then have "stop_workers env (\<lambda>i. r (Suc i)) ws = None" using Cons.IH [of "\<lambda>i. r (Suc i)"] Cons.prems(1) by simp
    then show ?thesis by (cases "rw_join env (rw_stop (r 0) w)") auto
  next
    case False
    then show ?thesis using join_unstopped [of env w "r 0"] Cons.prems(1) by simp
  qed
qed simp


text \<open>A service with one worker and nothing to do.\<close>

definition running_server :: rtc_server where
  "running_server = sample_rtc_server\<lparr>rv_thread := True, rv_looping := True,
     rv_workers := [(rtc_worker_new 0 Rtc_Server.sample_manager)\<lparr>rw_thread := True, rw_looping := True\<rparr>]\<rparr>"


end
