(* ===== verification/Reply_Memory.thy ===== *)
theory Reply_Memory
  imports Signaling_Worker_Properties
begin

text \<open>
  Who owns the reply buffers (\<^verbatim>\<open>server/tcp_connection.cpp\<close>, \<^verbatim>\<open>_write_reply\<close> in \<^verbatim>\<open>server/signaling_worker.cpp\<close>).
  A connection together with the addresses of the buffers of its replies and the set of buffers that
  are allocated: reading or freeing a buffer that is not allocated is \<open>None\<close>.
\<close>

section \<open>Buffers\<close>

record 's conn_mem =
  cm_conn :: "'s tcp_conn"
  cm_refs :: "nat list"
  cm_live :: "nat set"

definition zfree :: "nat \<Rightarrow> nat set \<Rightarrow> nat set option" where
  "zfree a live = (if a \<in> live then Some (live - {a}) else None)"

text \<open>\<^verbatim>\<open>zmalloc\<close> returns \<open>a\<close>, the reply is built there and queued.\<close>

definition mem_add_reply :: "nat \<Rightarrow> reply \<Rightarrow> 's conn_mem \<Rightarrow> 's conn_mem" where
  "mem_add_reply a r m = m\<lparr>cm_conn := add_reply (cm_conn m) r, cm_refs := cm_refs m @ [a],
     cm_live := insert a (cm_live m)\<rparr>"

text \<open>The loop of \<^verbatim>\<open>_write_reply\<close> with its buffers.\<close>

partial_function (option) mem_write_loop ::
    "(nat \<Rightarrow> sys_result) \<Rightarrow> nat \<Rightarrow> 's conn_mem \<Rightarrow> string \<Rightarrow> (bool \<times> 's conn_mem \<times> string) option" where
  "mem_write_loop res k m wire =
     (case tc_replies (cm_conn m) of
        [] \<Rightarrow> Some (True, m, wire)
      | r # rs \<Rightarrow>
          do { a \<leftarrow> at_index (cm_refs m) 0;
               bs \<leftarrow> (if a \<in> cm_live m then reply_bytes r (tc_resp_pos (cm_conn m)) else None);
               let n = sock_write_data (res k);
               if n = -1 then Some (False, m, wire)
               else if n = 0 then mem_write_loop res (Suc k) m wire
               else if rp_size r \<le> nat n + tc_resp_pos (cm_conn m)
               then do { live \<leftarrow> zfree a (cm_live m);
                         mem_write_loop res (Suc k)
                           (m\<lparr>cm_conn := (cm_conn m)\<lparr>tc_replies := rs, tc_resp_pos := 0\<rparr>,
                              cm_refs := tl (cm_refs m), cm_live := live\<rparr>) (wire @ bs) }
               else mem_write_loop res (Suc k)
                      (m\<lparr>cm_conn := (cm_conn m)\<lparr>tc_resp_pos := tc_resp_pos (cm_conn m) + nat n\<rparr>\<rparr>)
                      (wire @ take (nat n) bs) })"

text \<open>\<^verbatim>\<open>~TcpConnection\<close>: the buffers of the replies left are freed.\<close>

fun free_replies :: "nat list \<Rightarrow> nat set \<Rightarrow> nat set option" where
  "free_replies [] live = Some live"
| "free_replies (a # as) live = do { live \<leftarrow> zfree a live; free_replies as live }"

definition tcp_conn_delete :: "'s conn_mem \<Rightarrow> nat set option" where
  "tcp_conn_delete m = free_replies (cm_refs m) (cm_live m)"

section \<open>Ownership\<close>

text \<open>Every queued reply owns one allocated buffer of its own, and nothing else is allocated.\<close>

definition mem_ok :: "'s conn_mem \<Rightarrow> bool" where
  "mem_ok m \<longleftrightarrow> length (cm_refs m) = length (tc_replies (cm_conn m)) \<and> distinct (cm_refs m) \<and>
     cm_live m = set (cm_refs m)"

lemma free_replies_all: "distinct as \<Longrightarrow> set as \<subseteq> live \<Longrightarrow> free_replies as live = Some (live - set as)"
proof (induction as arbitrary: live)
  case (Cons a as)
  have "set as \<subseteq> live - {a}" using Cons.prems by auto
  then show ?case using Cons by (simp add: zfree_def) (metis Diff_insert Diff_insert2)
qed simp

lemma mem_ok_pop:
  assumes "mem_ok m" "tc_replies (cm_conn m) = r # rs"
  shows "\<exists>a as. cm_refs m = a # as \<and> a \<in> cm_live m \<and> zfree a (cm_live m) = Some (cm_live m - {a}) \<and>
    mem_ok (m\<lparr>cm_conn := (cm_conn m)\<lparr>tc_replies := rs, tc_resp_pos := 0\<rparr>, cm_refs := as, cm_live := cm_live m - {a}\<rparr>)"
  using assms by (cases "cm_refs m") (auto simp: mem_ok_def zfree_def)

text \<open>The buffers do not change what is written, and the loop returns whenever the one without them does.\<close>

lemma mem_write_loop_refines:
  assumes "write_loop res k c wire = Some (alive, c', out)" "mem_ok m" "cm_conn m = c"
  shows "\<exists>m'. mem_write_loop res k m wire = Some (alive, m', out) \<and> cm_conn m' = c' \<and> mem_ok m' \<and>
    (\<exists>done. cm_refs m = done @ cm_refs m')"
proof -
  have "\<forall>m. mem_ok m \<and> cm_conn m = c \<longrightarrow> (\<exists>m'. mem_write_loop res k m wire =
      Some (fst (alive, c', out), m', snd (snd (alive, c', out))) \<and> cm_conn m' = fst (snd (alive, c', out)) \<and>
      mem_ok m' \<and> (\<exists>done. cm_refs m = done @ cm_refs m'))"
  proof (rule write_loop.raw_induct [where P = "\<lambda>res k c wire v.
      \<forall>m. mem_ok m \<and> cm_conn m = c \<longrightarrow> (\<exists>m'. mem_write_loop res k m wire = Some (fst v, m', snd (snd v)) \<and>
        cm_conn m' = fst (snd v) \<and> mem_ok m' \<and> (\<exists>done. cm_refs m = done @ cm_refs m'))", OF _ assms(1)])
    fix f res k c wire v
    assume IH: "\<And>res k c wire v. f res k c wire = Some v \<Longrightarrow>
        \<forall>m. mem_ok m \<and> cm_conn m = c \<longrightarrow> (\<exists>m'. mem_write_loop res k m wire = Some (fst v, m', snd (snd v)) \<and>
          cm_conn m' = fst (snd v) \<and> mem_ok m' \<and> (\<exists>done. cm_refs m = done @ cm_refs m'))"
      and eq: "(case tc_replies c of
          [] \<Rightarrow> Some (True, c, wire)
        | r # rs \<Rightarrow>
            do { bs \<leftarrow> reply_bytes r (tc_resp_pos c);
                 let n = sock_write_data (res k);
                 if n = -1 then Some (False, c, wire)
                 else if n = 0 then f res (Suc k) c wire
                 else if rp_size r \<le> nat n + tc_resp_pos c
                 then f res (Suc k) (c\<lparr>tc_replies := rs, tc_resp_pos := 0\<rparr>) (wire @ bs)
                 else f res (Suc k) (c\<lparr>tc_resp_pos := tc_resp_pos c + nat n\<rparr>)
                        (wire @ take (nat n) bs) }) = Some v"
    show "\<forall>m. mem_ok m \<and> cm_conn m = c \<longrightarrow> (\<exists>m'. mem_write_loop res k m wire = Some (fst v, m', snd (snd v)) \<and>
        cm_conn m' = fst (snd v) \<and> mem_ok m' \<and> (\<exists>done. cm_refs m = done @ cm_refs m'))"
    proof (intro allI impI, elim conjE)
      fix m assume m: "mem_ok m" "cm_conn m = c"
      show "\<exists>m'. mem_write_loop res k m wire = Some (fst v, m', snd (snd v)) \<and>
        cm_conn m' = fst (snd v) \<and> mem_ok m' \<and> (\<exists>done. cm_refs m = done @ cm_refs m')"
      proof (cases "tc_replies c")
        case Nil
        then show ?thesis using eq m by (subst mem_write_loop.simps) auto
      next
        case (Cons r rs)
        obtain bs where bs: "reply_bytes r (tc_resp_pos c) = Some bs"
          using eq Cons by (auto split: Option.bind_splits)
        obtain a as where a: "cm_refs m = a # as" "a \<in> cm_live m" "zfree a (cm_live m) = Some (cm_live m - {a})"
          "mem_ok (m\<lparr>cm_conn := c\<lparr>tc_replies := rs, tc_resp_pos := 0\<rparr>, cm_refs := as, cm_live := cm_live m - {a}\<rparr>)"
          using mem_ok_pop [OF m(1)] m(2) Cons by auto
        have keep: "mem_ok (m\<lparr>cm_conn := c\<lparr>tc_resp_pos := p\<rparr>\<rparr>)" for p using m by (simp add: mem_ok_def)
        note unfold = mem_write_loop.simps [of res k m wire]
        show ?thesis
          using eq Cons bs a m IH [rule_format, of res "Suc k" "c\<lparr>tc_replies := rs, tc_resp_pos := 0\<rparr>" "wire @ bs" v
              "m\<lparr>cm_conn := c\<lparr>tc_replies := rs, tc_resp_pos := 0\<rparr>, cm_refs := as, cm_live := cm_live m - {a}\<rparr>"]
            IH [rule_format, of res "Suc k" c wire v m] keep
            IH [rule_format, of res "Suc k" "c\<lparr>tc_resp_pos := tc_resp_pos c + nat (sock_write_data (res k))\<rparr>"
              "wire @ take (nat (sock_write_data (res k))) bs" v
              "m\<lparr>cm_conn := c\<lparr>tc_resp_pos := tc_resp_pos c + nat (sock_write_data (res k))\<rparr>\<rparr>"]
          unfolding unfold by (auto simp: at_index_def Let_def split: if_splits)
      qed
    qed
  qed
  then show ?thesis using assms(2,3) by simp
qed


section \<open>The life of a connection\<close>

text \<open>
  A reply is queued in a fresh buffer, or the socket is writable.  When a write fails the connection is
  deleted; a connection that lives to the end of the events is deleted then (time-out, end of the
  input, or the end of the worker).\<close>

datatype mem_event = Reply_queued nat reply | Socket_writable "nat \<Rightarrow> sys_result"

fun mem_run :: "mem_event list \<Rightarrow> 's conn_mem \<Rightarrow> nat set option" where
  "mem_run [] m = tcp_conn_delete m"
| "mem_run (Reply_queued a r # es) m = mem_run es (mem_add_reply a r m)"
| "mem_run (Socket_writable res # es) m =
     do { (alive, m, _) \<leftarrow> mem_write_loop res 0 m [];
          if alive then mem_run es m else tcp_conn_delete m }"

text \<open>What is relied on: \<^verbatim>\<open>zmalloc\<close> returns memory that is not in use, and a full socket gets room again.\<close>

fun mallocs_ok :: "mem_event list \<Rightarrow> 's conn_mem \<Rightarrow> bool" where
  "mallocs_ok [] m \<longleftrightarrow> True"
| "mallocs_ok (Reply_queued a r # es) m \<longleftrightarrow> a \<notin> cm_live m \<and> reply_ok r \<and> mallocs_ok es (mem_add_reply a r m)"
| "mallocs_ok (Socket_writable res # es) m \<longleftrightarrow>
     (\<forall>k. \<exists>j\<ge>k. sock_write_data (res j) \<noteq> 0) \<and> (\<forall>j. -1 \<le> sock_write_data (res j)) \<and>
     (case mem_write_loop res 0 m [] of None \<Rightarrow> True | Some (alive, m', _) \<Rightarrow> alive \<longrightarrow> mallocs_ok es m')"

lemma delete_frees_all: "mem_ok m \<Longrightarrow> tcp_conn_delete m = Some {}"
  using free_replies_all [of "cm_refs m" "cm_live m"] by (simp add: mem_ok_def tcp_conn_delete_def)

lemma mem_write_loop_returns:
  assumes "mem_ok m" "replies_ok (cm_conn m)" "\<forall>k. \<exists>j\<ge>k. sock_write_data (res j) \<noteq> 0"
    "\<forall>j. -1 \<le> sock_write_data (res j)"
  shows "\<exists>alive m' out. mem_write_loop res 0 m [] = Some (alive, m', out) \<and> mem_ok m' \<and> replies_ok (cm_conn m')"
proof -
  obtain alive c' out where w: "write_loop res 0 (cm_conn m) [] = Some (alive, c', out)" "replies_ok c'"
    using write_loop_ok [OF assms(2), of res 0 "[]"] assms(3,4) by auto
  show ?thesis using mem_write_loop_refines [OF w(1) assms(1) refl] w(2) by blast
qed

text \<open>
  C21: Reply buffers are freed exactly once.  Over the whole life of a connection - any replies queued,
  any partial writes, a failed write or the destructor at any point - no buffer is read or freed when
  it is not allocated, the loop that writes returns, and when the connection is gone every buffer is.\<close>

theorem reply_buffers_freed:
  assumes "mem_ok m" "replies_ok (cm_conn m)" "mallocs_ok es m"
  shows "mem_run es m = Some {}"
  using assms
proof (induction es m rule: mem_run.induct)
  case (1 m)
  then show ?case by (simp add: delete_frees_all)
next
  case (2 a r es m)
  have "mem_ok (mem_add_reply a r m)" "replies_ok (cm_conn (mem_add_reply a r m))"
    using 2 by (simp_all add: mem_ok_def mem_add_reply_def add_reply_def replies_ok_append)
  then show ?case using 2 by simp
next
  case (3 res es m)
  obtain alive m' out where w: "mem_write_loop res 0 m [] = Some (alive, m', out)" "mem_ok m'" "replies_ok (cm_conn m')"
    using mem_write_loop_returns [of m res] 3 by auto
  show ?case
  proof (cases alive)
    case True
    then have "mallocs_ok es m'" using 3(4) w(1) by simp
    then have "mem_run es m' = Some {}" using 3(1) w True by simp
    then show ?thesis using w(1) True by simp
  qed (use w delete_frees_all in simp)
qed

definition sample_reply :: reply where
  "sample_reply = build_reply (replicate 36 (CHR ''h'')) ''{}''"

theorem reply_buffers_freed_witness:
  "mem_run [Reply_queued 1 sample_reply, Socket_writable (\<lambda>k. Fail EOTHER), Reply_queued 1 sample_reply]
     \<lparr>cm_conn = Signaling_Request.sample_conn, cm_refs = [], cm_live = {}\<rparr> = Some {}"
proof (rule reply_buffers_freed)
  let ?m = "\<lparr>cm_conn = Signaling_Request.sample_conn, cm_refs = [], cm_live = {}\<rparr>"
  have ok: "reply_ok sample_reply" unfolding sample_reply_def by (rule build_reply_ok) (simp_all add: short_json_def)
  then obtain bs where bs: "reply_bytes sample_reply 0 = Some bs" by (auto simp: reply_ok_def)
  have c: "tc_replies Signaling_Request.sample_conn = []" "tc_resp_pos Signaling_Request.sample_conn = 0"
    by (simp_all add: sample_conn_def tcp_conn_new_def)
  then show "mem_ok ?m" "replies_ok (cm_conn ?m)" by (simp_all add: mem_ok_def replies_ok_def)
  have "mem_write_loop (\<lambda>k. Fail EOTHER) 0 (mem_add_reply 1 sample_reply ?m) [] = Some (False, mem_add_reply 1 sample_reply ?m, [])"
    using bs c by (subst mem_write_loop.simps) (simp add: mem_add_reply_def add_reply_def at_index_def sock_write_data_def)
  then show "mallocs_ok [Reply_queued 1 sample_reply, Socket_writable (\<lambda>k. Fail EOTHER), Reply_queued 1 sample_reply] ?m"
    using ok by (auto simp: sock_write_data_def)
qed

end
