(* ===== verification/Sdp_Properties.thy ===== *)
theory Sdp_Properties
  imports Rtc_Worker_Properties
begin

text \<open>
  Printing a session description and reading the text back with the reader of answers.  What comes back
  is what the reader looks at: the media of the sections, ICE user name and password, the fingerprint.
\<close>

section \<open>Lines\<close>

abbreviation ln :: "string \<Rightarrow> string" where "ln l \<equiv> l @ [CHR 0x0D]"

definition text_of :: "string list \<Rightarrow> string" where
  "text_of ls = concat (map (\<lambda>l. l @ crlf) ls)"

lemma text_of_simps [simp]:
  "text_of [] = []" "text_of (l # ls) = l @ CHR 0x0D # CHR 0x0A # text_of ls"
  "text_of (ls @ ls') = text_of ls @ text_of ls'"
  by (simp_all add: text_of_def)

lemma lines_of_text:
  "list_all (\<lambda>l. CHR 0x0A \<notin> set l) ls \<Longrightarrow>
     filter (\<lambda>f. f \<noteq> []) (fields_of (text_of ls) (CHR 0x0A)) = map ln ls"
proof (induction ls)
  case (Cons l ls)
  have "text_of (l # ls) = ln l @ CHR 0x0A # text_of ls" by simp
  moreover have "CHR 0x0A \<notin> set (ln l)" using Cons.prems by simp
  ultimately have "fields_of (text_of (l # ls)) (CHR 0x0A) = ln l # fields_of (text_of ls) (CHR 0x0A)"
    by (metis fields_of_append)
  then show ?case using Cons by simp
qed simp

text \<open>A line that the reader passes over.\<close>

definition plain_line :: "string \<Rightarrow> bool" where
  "plain_line l \<longleftrightarrow> CHR 0x0A \<notin> set l \<and> \<not> sublist ''m='' (ln l) \<and> \<not> sublist ''a=ice-ufrag'' (ln l) \<and>
     \<not> sublist ''a=ice-pwd'' (ln l) \<and> \<not> sublist ''a=fingerprint'' (ln l)"

lemma sublist_group: "sublist ''m=group:BUNDLE'' l \<Longrightarrow> sublist ''m='' l"
  by (rule sublist_order.order_trans [of "''m=''" "''m=group:BUNDLE''" l]) simp_all

lemma plain_line_skipped: "plain_line l \<Longrightarrow> answer_line env True (ln l) st = Some (0, st)"
  using sublist_group [of "ln l"]
  by (auto simp: plain_line_def answer_line_def answer_media_line_def parse_transport_info_def)

lemma sublist_at_equals:
  assumes "CHR ''='' \<notin> set r" "c \<noteq> CHR ''=''" "p \<noteq> CHR ''=''"
  shows "sublist (p # CHR ''='' # q) (c # CHR ''='' # r) \<longleftrightarrow> p = c \<and> prefix q r"
proof
  assume "sublist (p # CHR ''='' # q) (c # CHR ''='' # r)"
  then obtain ps ss where e: "c # CHR ''='' # r = ps @ (p # CHR ''='' # q) @ ss" by (auto simp: sublist_def)
  then have "[c] @ CHR ''='' # r = (ps @ [p]) @ CHR ''='' # (q @ ss)" by simp
  moreover have "CHR ''='' \<notin> set [c]" using assms(2) by simp
  ultimately have "[c] = ps @ [p] \<and> r = q @ ss" using assms(1) by (metis append_Cons_eq_iff)
  then show "p = c \<and> prefix q r" by (auto simp: prefix_def)
next
  assume "p = c \<and> prefix q r"
  then show "sublist (p # CHR ''='' # q) (c # CHR ''='' # r)" by (auto simp: sublist_Cons_right)
qed

text \<open>Texts that end no line and hold no equals sign.\<close>

definition sdp_text :: "string \<Rightarrow> bool" where
  "sdp_text s \<longleftrightarrow> CHR ''='' \<notin> set s \<and> CHR 0x0A \<notin> set s"

lemma sdp_text_simps [simp]:
  "sdp_text []" "sdp_text (c # s) \<longleftrightarrow> c \<noteq> CHR ''='' \<and> c \<noteq> CHR 0x0A \<and> sdp_text s"
  "sdp_text (s @ t) \<longleftrightarrow> sdp_text s \<and> sdp_text t"
  "sdp_text (concat ss) \<longleftrightarrow> list_all sdp_text ss"
  by (auto simp: sdp_text_def list_all_iff)

lemma sdp_text_digits [simp]: "sdp_text (dec_digits n)" "sdp_text (dec_int i)"
proof -
  have d: "sdp_text (dec_digits n)" for n
    using dec_digits_digits [of "CHR ''=''" n] dec_digits_digits [of "CHR 0x0A" n]
    by (auto simp: sdp_text_def is_digit_def)
  then show "sdp_text (dec_digits n)" "sdp_text (dec_int i)" by (simp_all add: dec_int_def)
qed

lemma plain_attribute:
  assumes "sdp_text r" "\<not> prefix ''ice-ufrag'' (ln r)" "\<not> prefix ''ice-pwd'' (ln r)" "\<not> prefix ''fingerprint'' (ln r)"
  shows "plain_line (''a='' @ r)"
  using assms sublist_at_equals [of "ln r" "CHR ''a''"] by (simp add: plain_line_def sdp_text_def)

lemma plain_other:
  assumes "sdp_text r" "c \<notin> {CHR ''a'', CHR ''m'', CHR ''='', CHR 0x0A}"
  shows "plain_line (c # CHR ''='' # r)"
  using assms sublist_at_equals [of "ln r" c] by (auto simp: plain_line_def sdp_text_def)

lemma not_media_line: "sdp_text r \<Longrightarrow> \<not> sublist ''m='' (''a='' @ ln r)"
  using sublist_at_equals [of "ln r" "CHR ''a''"] by (simp add: sdp_text_def)


section \<open>The text of a description, line by line\<close>

text \<open>What \<^verbatim>\<open>AudioContentDescription\<close> and \<^verbatim>\<open>VideoContentDescription\<close> hold, and its lines.\<close>

primrec codecs_of :: "media_type \<Rightarrow> codec_info list" where
  "codecs_of MEDIA_TYPE_AUDIO = [opus_codec]"
| "codecs_of MEDIA_TYPE_VIDEO = [h264_codec, rtx_codec]"

primrec rtp_lines :: "media_type \<Rightarrow> string list" where
  "rtp_lines MEDIA_TYPE_AUDIO =
     [''a=rtpmap:111 opus/48000/2'', ''a=rtcp-fb:111 transport-cc'', ''a=fmtp:111 minptime=10;useinbandfec=1'']"
| "rtp_lines MEDIA_TYPE_VIDEO =
     [''a=rtpmap:107 H264/90000'', ''a=rtcp-fb:107 goog-remb'', ''a=rtcp-fb:107 transport-cc'',
      ''a=rtcp-fb:107 ccm fir'', ''a=rtcp-fb:107 nack'', ''a=rtcp-fb:107 nack pli'',
      ''a=fmtp:107 level-asymmetry-allowed=1;packetization-mode=1;profile-level-id=42e01f'',
      ''a=rtpmap:99 rtx/90000'', ''a=fmtp:99 apt=107'']"

lemma params_of [simp]:
  "cd_params opus_codec = [(''minptime'', ''10''), (''useinbandfec'', ''1'')]"
  "cd_params h264_codec = [(''level-asymmetry-allowed'', ''1''), (''packetization-mode'', ''1''),
     (''profile-level-id'', ''42e01f'')]"
  "cd_params rtx_codec = [(''apt'', ''107'')]"
  by (simp_all add: opus_codec_def h264_codec_def rtx_codec_def less_char_def dec_int_def dec_digits.simps char_of_def bit_Suc_0_iff)

lemma rtp_map_lines: "mc_codecs c = codecs_of (mc_type c) \<Longrightarrow> build_rtp_map c = Some (text_of (rtp_lines (mc_type c)))"
  unfolding build_rtp_map_def
  by (cases "mc_type c")
    (simp_all add: codec_lines_def add_rtcp_fb_line_def add_fmtp_line_def,
     simp_all add: opus_codec_def h264_codec_def rtx_codec_def dec_int_def dec_digits.simps fb_def char_of_def bit_Suc_0_iff)

lemma rtp_lines_plain: "list_all plain_line (rtp_lines t)"
  by (cases t) (simp_all add: plain_line_def sublist_code)

primrec direction_word :: "rtp_direction \<Rightarrow> string" where
  "direction_word k_send_recv = ''sendrecv''"
| "direction_word k_send_only = ''sendonly''"
| "direction_word k_recv_only = ''recvonly''"
| "direction_word k_inactive = ''inactive''"

definition candidate_words :: "rtcbase \<Rightarrow> string \<Rightarrow> candidate \<Rightarrow> string" where
  "candidate_words rt server_addr c =
     ''candidate:'' @ c_foundation c @ '' '' @ dec_digits (unat (component_id (c_component c))) @
     '' '' @ c_protocol c @ '' '' @ dec_digits (unat (c_priority c)) @
     (if IPIsPrivateNetwork rt (ipaddr (c_address c)) then '' '' @ server_addr
      else '' '' @ HostAsURIString rt (ipaddr (c_address c))) @
     '' '' @ dec_int (c_port c) @ '' typ '' @ c_type c"

definition td_lines :: "transport_description \<Rightarrow> string list" where
  "td_lines td = [''a=ice-ufrag:'' @ td_ice_ufrag td, ''a=ice-pwd:'' @ td_ice_pwd td] @
     (case td_fingerprint td of
        None \<Rightarrow> []
      | Some fp \<Rightarrow> [''a=fingerprint:'' @ fp_algorithm fp @ '' '' @ fp_text fp,
          ''a=setup:'' @ connection_role_to_string (td_role td)])"

definition section_lines :: "rtcbase \<Rightarrow> string \<Rightarrow> session_description \<Rightarrow> media_content \<Rightarrow> string list" where
  "section_lines rt addr sd c =
     [''m='' @ mc_mid c @ '' 9 UDP/TLS/RTP/SAVPF'' @ concat (map (\<lambda>codec. '' '' @ dec_int (cd_id codec)) (mc_codecs c)),
      ''c=IN IP4 0.0.0.0'', ''a=rtcp:9 IN IP4 0.0.0.0''] @
     map (\<lambda>c. ''a='' @ candidate_words rt addr c) (mc_candidates c) @
     (case get_transport_info (mc_mid c) sd of None \<Rightarrow> [] | Some td \<Rightarrow> td_lines td) @
     [''a=mid:'' @ mc_mid c, ''a='' @ direction_word (mc_direction c)] @
     (if mc_rtcp_mux c then [''a=rtcp-mux''] else []) @ rtp_lines (mc_type c)"

definition head_lines :: "session_description \<Rightarrow> string list" where
  "head_lines sd =
     [''v=0'', ''o=- 0 2 IN IP4 127.0.0.1'', ''s=-'', ''t=0 0''] @
     (if get_group_by_name ''BUNDLE'' sd = [] then []
      else [''a=group:BUNDLE'' @
        concat (map (\<lambda>g. concat (map (\<lambda>n. '' '' @ n) (cg_names g))) (get_group_by_name ''BUNDLE'' sd))]) @
     [''a=msid-semantic: WMS'']"

lemma candidate_line_text: "candidate_line rt addr c = text_of [''a='' @ candidate_words rt addr c]"
  by (simp add: candidate_line_def candidate_words_def)

lemma candidate_lines_text:
  "concat (map (candidate_line rt addr) cs) = text_of (map (\<lambda>c. ''a='' @ candidate_words rt addr c) cs)"
  by (induction cs) (simp_all add: candidate_line_text)

lemma transport_lines_text: "transport_lines td = text_of (td_lines td)"
  by (simp add: transport_lines_def td_lines_def split: option.split)

lemma direction_text: "build_rtp_direction d = text_of [''a='' @ direction_word d]"
  by (cases d) simp_all

lemma content_lines_text:
  "mc_codecs c = codecs_of (mc_type c) \<Longrightarrow> content_lines rt addr sd c = Some (text_of (section_lines rt addr sd c))"
  by (simp add: content_lines_def rtp_map_lines section_lines_def candidate_lines_text transport_lines_text
    direction_text split: option.split)

lemma sdp_text_lines:
  assumes "\<forall>c \<in> set (sd_contents sd). mc_codecs c = codecs_of (mc_type c)"
  shows "sdp_to_string rt addr sd =
    Some (text_of (head_lines sd @ concat (map (section_lines rt addr sd) (sd_contents sd))))"
proof -
  have "all_content_lines rt addr sd cs = Some (text_of (concat (map (section_lines rt addr sd) cs)))"
    if "\<forall>c \<in> set cs. mc_codecs c = codecs_of (mc_type c)" for cs
    using that by (induction cs) (simp_all add: content_lines_text)
  from this [OF assms] show ?thesis by (simp add: sdp_to_string_def head_lines_def Let_def)
qed


section \<open>Reading it back\<close>

definition printable_td :: "ssl_lib \<Rightarrow> transport_description \<Rightarrow> bool" where
  "printable_td ssl td \<longleftrightarrow>
     sdp_text (td_ice_ufrag td) \<and> td_ice_ufrag td \<noteq> [] \<and> CHR '':'' \<notin> set (td_ice_ufrag td) \<and>
     sdp_text (td_ice_pwd td) \<and> td_ice_pwd td \<noteq> [] \<and> CHR '':'' \<notin> set (td_ice_pwd td) \<and>
     (\<forall>fp. td_fingerprint td = Some fp \<longrightarrow>
        sdp_text (fp_algorithm fp) \<and> CHR '' '' \<notin> set (fp_algorithm fp) \<and>
        sdp_text (fp_text fp) \<and> CHR '' '' \<notin> set (fp_text fp) \<and>
        ssl_of_text ssl (map to_lower (fp_algorithm fp)) (fp_text fp) = Some fp)"

definition printable_content :: "rtcbase \<Rightarrow> string \<Rightarrow> media_content \<Rightarrow> bool" where
  "printable_content rt addr c \<longleftrightarrow> mc_codecs c = codecs_of (mc_type c) \<and>
     (\<forall>cand \<in> set (mc_candidates c). sdp_text (candidate_words rt addr cand))"

definition printable :: "rtcbase \<Rightarrow> ssl_lib \<Rightarrow> string \<Rightarrow> session_description \<Rightarrow> bool" where
  "printable rt ssl addr sd \<longleftrightarrow>
     list_all (printable_content rt addr) (sd_contents sd) \<and> list_all (printable_td ssl) (sd_transports sd) \<and>
     list_all (\<lambda>g. list_all sdp_text (cg_names g)) (sd_groups sd)"

primrec td_of :: "media_type \<Rightarrow> answer_state \<Rightarrow> transport_description" where
  "td_of MEDIA_TYPE_AUDIO st = an_audio_td st"
| "td_of MEDIA_TYPE_VIDEO st = an_video_td st"

primrec put_td :: "media_type \<Rightarrow> transport_description \<Rightarrow> answer_state \<Rightarrow> answer_state" where
  "put_td MEDIA_TYPE_AUDIO td st = st\<lparr>an_audio_td := td\<rparr>"
| "put_td MEDIA_TYPE_VIDEO td st = st\<lparr>an_video_td := td\<rparr>"

lemma put_td_simps [simp]:
  "td_of t (put_td t td st) = td" "put_td t td' (put_td t td st) = put_td t td' st"
  "an_media (put_td t td st) = an_media st" "an_desc (put_td t td st) = an_desc st"
  by (cases t; simp)+

lemma answer_lines_append:
  "answer_lines env r (ls @ ls') st =
     do { (ret, st) \<leftarrow> answer_lines env r ls st; if ret \<noteq> 0 then Some (ret, st) else answer_lines env r ls' st }"
  by (induction ls arbitrary: st) (auto split: Option.bind_splits)

lemma read_append:
  assumes "answer_lines env True (map ln ls) st = Some (0, st1)" "answer_lines env True (map ln ls') st1 = res"
  shows "answer_lines env True (map ln (ls @ ls')) st = res"
  using assms by (simp add: answer_lines_append)

lemma plain_lines_skipped:
  "list_all plain_line ls \<Longrightarrow> answer_lines env True (map ln ls) st = Some (0, st)"
  by (induction ls) (simp_all add: plain_line_skipped)

lemma transport_line_read:
  assumes "an_media st = media_mid t" "sdp_text r"
    "parse_transport_info (pe_rt env) (pe_ssl env) (td_of t st) (''a='' @ ln r) True = Some (0, td)"
  shows "answer_line env True (''a='' @ ln r) st = Some (0, put_td t td st)"
proof -
  have "answer_media_line env True (''a='' @ ln r) st = Some (0, ''a='' @ ln r, st)"
    using not_media_line [OF assms(2)] sublist_group [of "''a='' @ ln r"] by (auto simp: answer_media_line_def)
  then show ?thesis using assms(1,3) by (cases t) (simp_all add: answer_line_def)
qed

lemma attribute_value:
  assumes "split_ok rt" "CHR '':'' \<notin> set k" "k \<noteq> []" "CHR '':'' \<notin> set v"
  shows "get_sdp_attribute rt (k @ CHR '':'' # ln v) True = v"
proof -
  have "fields_of (k @ CHR '':'' # ln v) (CHR '':'') = [k, ln v]"
    using assms(2,4) by (subst fields_of_append) simp_all
  then show ?thesis using assms(1,3) by (simp add: get_sdp_attribute_def split_simps chop_def)
qed

text \<open>With bare newlines the name of the attribute is taken for its value.\<close>

lemma attribute_bare_newline:
  assumes "split_ok rt" "CHR '':'' \<notin> set k" "k \<noteq> []" "CHR '':'' \<notin> set v" "v \<noteq> []"
  shows "get_sdp_attribute rt (k @ CHR '':'' # v) False = k"
proof -
  have "fields_of (k @ CHR '':'' # v) (CHR '':'') = [k, v]" using assms(2,4) by (subst fields_of_append) simp_all
  then show ?thesis using assms(1,3,5) by (simp add: get_sdp_attribute_def split_simps)
qed

lemma parse_ufrag:
  assumes "split_ok rt" "sdp_text u" "u \<noteq> []" "CHR '':'' \<notin> set u"
  shows "parse_transport_info rt ssl td (''a='' @ ln (''ice-ufrag:'' @ u)) True = Some (0, td\<lparr>td_ice_ufrag := u\<rparr>)"
  using assms sublist_at_equals [of "ln (''ice-ufrag:'' @ u)" "CHR ''a''" "CHR ''a''" "''ice-ufrag''"]
    attribute_value [OF assms(1), of "''a=ice-ufrag''" u]
  by (simp add: parse_transport_info_def sdp_text_def)

lemma parse_pwd:
  assumes "split_ok rt" "sdp_text u" "u \<noteq> []" "CHR '':'' \<notin> set u"
  shows "parse_transport_info rt ssl td (''a='' @ ln (''ice-pwd:'' @ u)) True = Some (0, td\<lparr>td_ice_pwd := u\<rparr>)"
  using assms sublist_at_equals [of "ln (''ice-pwd:'' @ u)" "CHR ''a''" "CHR ''a''"]
    attribute_value [OF assms(1), of "''a=ice-pwd''" u]
  by (simp add: parse_transport_info_def sdp_text_def)

lemma parse_fingerprint:
  assumes "split_ok rt" "sdp_text (alg @ text)" "CHR '' '' \<notin> set alg" "CHR '' '' \<notin> set text"
    "ssl_of_text ssl (map to_lower alg) text = Some fp"
  shows "parse_transport_info rt ssl td (''a='' @ ln (''fingerprint:'' @ alg @ '' '' @ text)) True =
    Some (0, td\<lparr>td_fingerprint := Some fp\<rparr>)"
proof -
  have "fields_of ((''a=fingerprint:'' @ alg) @ CHR '' '' # ln text) (CHR '' '') = [''a=fingerprint:'' @ alg, ln text]"
    using assms(3,4) by (subst fields_of_append) simp_all
  then show ?thesis
    using assms sublist_at_equals [of "ln (''fingerprint:'' @ alg @ '' '' @ text)" "CHR ''a''" "CHR ''a''"]
    by (simp add: parse_transport_info_def sdp_text_def split_simps substr_from_def chop_def)
qed


primrec fresh_content :: "rtp_direction \<Rightarrow> media_type \<Rightarrow> media_content" where
  "fresh_content g MEDIA_TYPE_AUDIO = audio_content g"
| "fresh_content g MEDIA_TYPE_VIDEO = video_content g"

definition read_td :: "transport_description \<Rightarrow> transport_description \<Rightarrow> transport_description" where
  "read_td td0 td = td0\<lparr>td_ice_ufrag := td_ice_ufrag td, td_ice_pwd := td_ice_pwd td,
     td_fingerprint := (case td_fingerprint td of None \<Rightarrow> td_fingerprint td0 | Some fp \<Rightarrow> Some fp)\<rparr>"

definition read_section :: "rtp_direction \<Rightarrow> session_description \<Rightarrow> media_content \<Rightarrow> answer_state \<Rightarrow> answer_state" where
  "read_section g sd c st =
     (let t = mc_type c; td0 = (td_of t st)\<lparr>td_mid := media_mid t\<rparr>
      in put_td t (case get_transport_info (media_mid t) sd of None \<Rightarrow> td0 | Some td \<Rightarrow> read_td td0 td)
           (st\<lparr>an_media := media_mid t, an_desc := add_content (fresh_content g t) (an_desc st)\<rparr>))"

lemma role_word [simp]: "sdp_text (connection_role_to_string r)" "sdp_text (direction_word d)" "sdp_text (media_mid t)"
proof -
  show "sdp_text (connection_role_to_string r)" by (cases r) simp_all
  show "sdp_text (direction_word d)" by (cases d) simp_all
  show "sdp_text (media_mid t)" by (cases t) simp_all
qed

lemma td_lines_read:
  assumes "split_ok (pe_rt env)" "printable_td (pe_ssl env) td" "an_media st = media_mid t"
  shows "answer_lines env True (map ln (td_lines td)) st = Some (0, put_td t (read_td (td_of t st) td) st)"
proof -
  note ok = assms(2) [unfolded printable_td_def]
  let ?st1 = "put_td t ((td_of t st)\<lparr>td_ice_ufrag := td_ice_ufrag td\<rparr>) st"
  let ?st2 = "put_td t ((td_of t st)\<lparr>td_ice_ufrag := td_ice_ufrag td, td_ice_pwd := td_ice_pwd td\<rparr>) st"
  have 1: "answer_line env True (''a='' @ ln (''ice-ufrag:'' @ td_ice_ufrag td)) st = Some (0, ?st1)"
    by (rule transport_line_read [OF assms(3) _ parse_ufrag [OF assms(1)]]) (use ok in simp_all)
  have 2: "answer_line env True (''a='' @ ln (''ice-pwd:'' @ td_ice_pwd td)) ?st1 = Some (0, ?st2)"
    using transport_line_read [OF _ _ parse_pwd [OF assms(1)], of ?st1 t "td_ice_pwd td"] assms(3) ok by simp
  show ?thesis
  proof (cases "td_fingerprint td")
    case None
    then show ?thesis using 1 2 by (simp add: td_lines_def read_td_def)
  next
    case (Some fp)
    let ?st3 = "put_td t (read_td (td_of t st) td) st"
    have 3: "answer_line env True (''a='' @ ln (''fingerprint:'' @ fp_algorithm fp @ '' '' @ fp_text fp)) ?st2 = Some (0, ?st3)"
      using transport_line_read [OF _ _ parse_fingerprint [OF assms(1)], of ?st2 t "fp_algorithm fp" "fp_text fp"]
        assms(3) ok Some by (simp add: read_td_def)
    have "plain_line (''a='' @ ''setup:'' @ connection_role_to_string (td_role td))"
      by (rule plain_attribute) simp_all
    from plain_line_skipped [OF this] show ?thesis using 1 2 3 Some by (simp add: td_lines_def)
  qed
qed

lemma media_line_read:
  assumes "split_ok (pe_rt env)"
  shows "answer_line env True (ln (''m='' @ media_mid t @ '' 9 UDP/TLS/RTP/SAVPF'' @
      concat (map (\<lambda>codec. '' '' @ dec_int (cd_id codec)) (codecs_of t)))) st =
    Some (0, put_td t ((td_of t st)\<lparr>td_mid := media_mid t\<rparr>)
      (st\<lparr>an_media := media_mid t, an_desc := add_content (fresh_content (pe_direction env) t) (an_desc st)\<rparr>))"
  by (cases t)
    (simp_all add: answer_line_def answer_media_line_def split_simps [OF assms] sublist_code substr_from_def
      parse_transport_info_def dec_int_def dec_digits.simps opus_codec_def h264_codec_def rtx_codec_def
      char_of_def bit_Suc_0_iff)

lemma section_lines_read:
  assumes "split_ok (pe_rt env)" "printable_content (pe_rt env) addr c" "list_all (printable_td (pe_ssl env)) (sd_transports sd)"
  shows "answer_lines env True (map ln (section_lines (pe_rt env) addr sd c)) st =
    Some (0, read_section (pe_direction env) sd c st)"
proof -
  let ?t = "mc_type c"
  let ?st1 = "put_td ?t ((td_of ?t st)\<lparr>td_mid := media_mid ?t\<rparr>)
      (st\<lparr>an_media := media_mid ?t, an_desc := add_content (fresh_content (pe_direction env) ?t) (an_desc st)\<rparr>)"
  have cod: "mc_codecs c = codecs_of ?t" and cand: "\<forall>cand \<in> set (mc_candidates c). sdp_text (candidate_words (pe_rt env) addr cand)"
    using assms(2) by (simp_all add: printable_content_def)
  have m: "answer_lines env True (map ln [''m='' @ mc_mid c @ '' 9 UDP/TLS/RTP/SAVPF'' @
      concat (map (\<lambda>codec. '' '' @ dec_int (cd_id codec)) (mc_codecs c))]) st = Some (0, ?st1)"
    using media_line_read [OF assms(1), of ?t st] by (simp add: cod)
  have p1: "list_all plain_line ([''c=IN IP4 0.0.0.0'', ''a=rtcp:9 IN IP4 0.0.0.0''] @
      map (\<lambda>c. ''a='' @ candidate_words (pe_rt env) addr c) (mc_candidates c))"
  proof -
    have "plain_line (''a='' @ candidate_words (pe_rt env) addr x)" if "x \<in> set (mc_candidates c)" for x
      using plain_attribute [of "candidate_words (pe_rt env) addr x"] cand that by (simp add: candidate_words_def)
    then show ?thesis by (auto simp: list_all_iff plain_line_def sublist_code)
  qed
  have "plain_line (''a='' @ (''mid:'' @ mc_mid c))" "plain_line (''a='' @ direction_word (mc_direction c))"
    by (rule plain_attribute; cases "mc_direction c"; simp)+
  then have p2: "list_all plain_line ([''a=mid:'' @ mc_mid c, ''a='' @ direction_word (mc_direction c)] @
      (if mc_rtcp_mux c then [''a=rtcp-mux''] else []) @ rtp_lines ?t)"
    by (simp add: rtp_lines_plain) (simp add: plain_line_def sublist_code)
  have td: "answer_lines env True (map ln (case get_transport_info (mc_mid c) sd of None \<Rightarrow> [] | Some td \<Rightarrow> td_lines td)) ?st1 =
      Some (0, read_section (pe_direction env) sd c st)"
  proof (cases "get_transport_info (mc_mid c) sd")
    case (Some td)
    then have "printable_td (pe_ssl env) td"
      using assms(3) by (auto simp: get_transport_info_def find_Some_iff list_all_iff)
    from td_lines_read [OF assms(1) this, of ?st1 ?t] Some show ?thesis by (simp add: read_section_def Let_def)
  qed (simp add: read_section_def Let_def)
  have sl: "section_lines (pe_rt env) addr sd c = [''m='' @ mc_mid c @ '' 9 UDP/TLS/RTP/SAVPF'' @
      concat (map (\<lambda>codec. '' '' @ dec_int (cd_id codec)) (mc_codecs c))] @
    ([''c=IN IP4 0.0.0.0'', ''a=rtcp:9 IN IP4 0.0.0.0''] @
      map (\<lambda>c. ''a='' @ candidate_words (pe_rt env) addr c) (mc_candidates c)) @
    (case get_transport_info (mc_mid c) sd of None \<Rightarrow> [] | Some td \<Rightarrow> td_lines td) @
    ([''a=mid:'' @ mc_mid c, ''a='' @ direction_word (mc_direction c)] @
      (if mc_rtcp_mux c then [''a=rtcp-mux''] else []) @ rtp_lines ?t)"
    by (simp add: section_lines_def)
  show ?thesis
    unfolding sl by (rule read_append [OF m read_append [OF plain_lines_skipped [OF p1]
      read_append [OF td plain_lines_skipped [OF p2]]]])
qed


text \<open>What is read back of the section \<open>t\<close>: everything but the role, which no line is searched for.\<close>

definition read_transport :: "session_description \<Rightarrow> media_type \<Rightarrow> transport_description" where
  "read_transport sd t =
     (if t \<in> mc_type ` set (sd_contents sd) then
        case get_transport_info (media_mid t) sd of
          None \<Rightarrow> transport_description_new\<lparr>td_mid := media_mid t\<rparr>
        | Some td \<Rightarrow> td\<lparr>td_role := NONE\<rparr>
      else transport_description_new)"

definition read_back :: "rtp_direction \<Rightarrow> session_description \<Rightarrow> session_description" where
  "read_back g sd = \<lparr>sd_type = k_answer, sd_contents = map (\<lambda>c. fresh_content g (mc_type c)) (sd_contents sd),
     sd_groups = [], sd_transports = [read_transport sd MEDIA_TYPE_AUDIO, read_transport sd MEDIA_TYPE_VIDEO]\<rparr>"

definition sections_read :: "rtp_direction \<Rightarrow> session_description \<Rightarrow> media_content list \<Rightarrow> answer_state \<Rightarrow> bool" where
  "sections_read g sd cs st \<longleftrightarrow>
     an_desc st = \<lparr>sd_type = k_answer, sd_contents = map (\<lambda>c. fresh_content g (mc_type c)) cs, sd_groups = [],
       sd_transports = []\<rparr> \<and>
     (\<forall>t. td_of t st = read_transport (sd\<lparr>sd_contents := cs\<rparr>) t)"

lemma get_transport_mid: "get_transport_info mid sd = Some td \<Longrightarrow> td_mid td = mid"
  by (auto simp: get_transport_info_def find_Some_iff)

lemma get_transport_contents [simp]: "get_transport_info mid (sd\<lparr>sd_contents := cs\<rparr>) = get_transport_info mid sd"
  by (simp add: get_transport_info_def)

lemma td_of_other [simp]:
  "t \<noteq> t' \<Longrightarrow> td_of t (put_td t' td st) = td_of t st"
  "td_of t (st\<lparr>an_media := m, an_desc := d\<rparr>) = td_of t st"
  by (cases t; cases t'; simp) (cases t; simp)

lemma sections_read_step:
  assumes "sections_read g sd cs st"
  shows "sections_read g sd (cs @ [c]) (read_section g sd c st)"
proof -
  let ?t = "mc_type c"
  have "td_of ?t st \<in> {transport_description_new, read_transport (sd\<lparr>sd_contents := [c]\<rparr>) ?t}"
    using assms by (auto simp: sections_read_def read_transport_def)
  then have "td_of ?t (read_section g sd c st) = read_transport (sd\<lparr>sd_contents := cs @ [c]\<rparr>) ?t"
    using get_transport_mid [of "media_mid ?t" sd]
    by (auto simp: read_section_def read_transport_def Let_def read_td_def transport_description_new_def
      split: option.split)
  moreover have "td_of t (read_section g sd c st) = read_transport (sd\<lparr>sd_contents := cs @ [c]\<rparr>) t" if "t \<noteq> ?t" for t
    using assms that by (auto simp: read_section_def Let_def sections_read_def read_transport_def)
  ultimately have "td_of t (read_section g sd c st) = read_transport (sd\<lparr>sd_contents := cs @ [c]\<rparr>) t" for t
    by (cases "t = ?t") simp_all
  moreover have "an_desc (read_section g sd c st) = add_content (fresh_content g ?t) (an_desc st)"
    by (simp add: read_section_def Let_def)
  moreover have "an_desc st = \<lparr>sd_type = k_answer, sd_contents = map (\<lambda>c. fresh_content g (mc_type c)) cs,
      sd_groups = [], sd_transports = []\<rparr>" using assms by (simp add: sections_read_def)
  ultimately show ?thesis by (simp add: sections_read_def add_content_def)
qed

lemma sections_lines_read:
  assumes "split_ok (pe_rt env)" "list_all (printable_content (pe_rt env) addr) cs"
    "list_all (printable_td (pe_ssl env)) (sd_transports sd)" "sections_read (pe_direction env) sd ds st"
  shows "\<exists>st'. answer_lines env True (map ln (concat (map (section_lines (pe_rt env) addr sd) cs))) st = Some (0, st') \<and>
    sections_read (pe_direction env) sd (ds @ cs) st'"
  using assms(2,4)
proof (induction cs arbitrary: ds st)
  case (Cons c cs)
  let ?st = "read_section (pe_direction env) sd c st"
  obtain st' where st': "answer_lines env True (map ln (concat (map (section_lines (pe_rt env) addr sd) cs))) ?st =
      Some (0, st')" "sections_read (pe_direction env) sd ((ds @ [c]) @ cs) st'"
    using Cons.IH [OF _ sections_read_step [OF Cons.prems(2)]] Cons.prems(1) by auto
  have "answer_lines env True (map ln (section_lines (pe_rt env) addr sd c)) st = Some (0, ?st)"
    using section_lines_read [OF assms(1) _ assms(3)] Cons.prems(1) by simp
  from read_append [OF this st'(1)] show ?case using st'(2) by (intro exI [of _ st']) simp
qed simp

lemma all_media: "(\<forall>t. P t) \<longleftrightarrow> P MEDIA_TYPE_AUDIO \<and> P MEDIA_TYPE_VIDEO"
  by (metis media_type.exhaust)

lemma sections_read_ok:
  assumes "sections_read g sd cs st"
  shows "answer_ok st"
proof -
  have "td_mid (read_transport (sd\<lparr>sd_contents := cs\<rparr>) t) = (if t \<in> mc_type ` set cs then media_mid t else [])" for t
    using get_transport_mid [of "media_mid t" sd]
    by (auto simp: read_transport_def transport_description_new_def split: option.split)
  moreover have "mc_type (fresh_content g t) = t" for t by (cases t) (simp_all add: audio_content_def video_content_def)
  ultimately show ?thesis using assms by (auto simp: sections_read_def answer_ok_def all_media image_iff)
qed

lemma head_lines_plain:
  assumes "printable rt ssl addr sd"
  shows "list_all plain_line (head_lines sd)"
proof -
  define names where
    "names = concat (map (\<lambda>g. concat (map (\<lambda>n. '' '' @ n) (cg_names g))) (get_group_by_name ''BUNDLE'' sd))"
  have "sdp_text names" using assms by (auto simp: names_def printable_def list_all_iff get_group_by_name_def)
  then have "plain_line (''a='' @ (''group:BUNDLE'' @ names))" by (intro plain_attribute) simp_all
  moreover have "list_all plain_line [''v=0'', ''o=- 0 2 IN IP4 127.0.0.1'', ''s=-'', ''t=0 0'', ''a=msid-semantic: WMS'']"
    by (simp add: plain_line_def sublist_code)
  ultimately show ?thesis by (simp add: head_lines_def names_def [symmetric])
qed

lemma plain_no_newline: "list_all plain_line ls \<Longrightarrow> list_all (\<lambda>l. CHR 0x0A \<notin> set l) ls"
  by (simp add: list_all_iff plain_line_def)


lemma section_no_newline:
  assumes "printable_content rt addr c" "list_all (printable_td ssl) (sd_transports sd)"
  shows "list_all (\<lambda>l. CHR 0x0A \<notin> set l) (section_lines rt addr sd c)"
proof -
  have "list_all (\<lambda>l. CHR 0x0A \<notin> set l) (td_lines td)" if "get_transport_info (mc_mid c) sd = Some td" for td
  proof -
    have "printable_td ssl td"
      using assms(2) that by (auto simp: get_transport_info_def find_Some_iff list_all_iff)
    then show ?thesis
      using role_word(1) [of "td_role td"]
      by (auto simp: printable_td_def td_lines_def sdp_text_def split: option.split)
  qed
  moreover have "CHR 0x0A \<notin> set (candidate_words rt addr x)" if "x \<in> set (mc_candidates c)" for x
    using assms(1) that by (auto simp: printable_content_def sdp_text_def)
  moreover have "CHR 0x0A \<notin> set (dec_int i)" for i using sdp_text_digits(2) [of i] by (simp add: sdp_text_def)
  moreover have "CHR 0x0A \<notin> set (direction_word (mc_direction c))" "CHR 0x0A \<notin> set (mc_mid c)"
    using role_word(2) [of "mc_direction c"] role_word(3) [of "mc_type c"] by (simp_all add: sdp_text_def)
  ultimately show ?thesis
    using plain_no_newline [OF rtp_lines_plain [of "mc_type c"]]
    by (cases "get_transport_info (mc_mid c) sd") (auto simp: section_lines_def list_all_iff)
qed

text \<open>
  C12: The reader of answers understands the text the server prints.  For a description with the
  server's codecs whose texts hold no separator, \<^verbatim>\<open>set_remote_sdp\<close> accepts the text and ends up with
  the same media sections in the same order and, for each of them, the same ICE user name, password
  and fingerprint; the role, the direction, the candidates and the bundle group are lost.\<close>

theorem sdp_round_trip:
  assumes "split_ok (pe_rt env)" "printable (pe_rt env) (pe_ssl env) addr sd" "transports_ok (pc_transport pc)"
  shows "\<exists>text pc'. sdp_to_string (pe_rt env) addr sd = Some text \<and> set_remote_sdp env text pc = Some (0, pc') \<and>
    pc_remote_desc pc' = Some (read_back (pe_direction env) sd) \<and> transports_ok (pc_transport pc') \<and>
    pc_local_desc pc' = pc_local_desc pc"
proof -
  let ?ls = "head_lines sd @ concat (map (section_lines (pe_rt env) addr sd) (sd_contents sd))"
  have ok: "list_all (printable_content (pe_rt env) addr) (sd_contents sd)"
    "list_all (printable_td (pe_ssl env)) (sd_transports sd)" using assms(2) by (simp_all add: printable_def)
  have printed: "sdp_to_string (pe_rt env) addr sd = Some (text_of ?ls)"
    using sdp_text_lines [of sd "pe_rt env" addr] ok(1) by (simp add: list_all_iff printable_content_def)
  have "list_all (\<lambda>l. CHR 0x0A \<notin> set l) ?ls"
    using plain_no_newline [OF head_lines_plain [OF assms(2)]] section_no_newline [OF _ ok(2), of "pe_rt env" addr] ok(1)
    by (auto simp: list_all_iff)
  then have toks: "rtc_tokenize (pe_rt env) (text_of ?ls) (CHR 0x0A) = map ln ?ls"
    by (simp only: split_simps [OF assms(1)] lines_of_text)
  have start: "sections_read (pe_direction env) sd [] answer_start"
  proof -
    have "td_of t answer_start = transport_description_new" for t by (cases t) (simp_all add: answer_start_def)
    then show ?thesis
      by (simp add: sections_read_def read_transport_def) (simp add: answer_start_def session_description_new_def)
  qed
  obtain st where st: "answer_lines env True (map ln ?ls) answer_start = Some (0, st)"
    "sections_read (pe_direction env) sd (sd_contents sd) st"
    using sections_lines_read [OF assms(1) ok start] read_append [OF plain_lines_skipped [OF head_lines_plain [OF assms(2)]]]
    by auto
  have "answer_ok st" by (rule sections_read_ok [OF st(2)])
  moreover have "sublist crlf (text_of ?ls)" "map ln ?ls \<noteq> []"
    by (simp_all add: head_lines_def sublist_Cons_right)
  moreover have "add_transport_td (an_video_td st) (add_transport_td (an_audio_td st) (an_desc st)) =
      read_back (pe_direction env) sd"
    using st(2) by (simp add: sections_read_def read_back_def add_transport_td_def all_media [of "\<lambda>t. td_of t st = _ t"])
  moreover obtain tr where "set_remote_description (Some (add_transport_td (an_video_td st)
      (add_transport_td (an_audio_td st) (an_desc st)))) (pc_transport pc) = Some (0, tr)" "transports_ok tr"
    using answer_accepted [OF assms(3) \<open>answer_ok st\<close>] by blast
  ultimately have "set_remote_sdp env (text_of ?ls) pc =
      Some (0, pc\<lparr>pc_remote_desc := Some (read_back (pe_direction env) sd), pc_transport := tr\<rparr>)"
    using st(1) unfolding set_remote_sdp_def Let_def toks by simp
  then show ?thesis using printed \<open>transports_ok tr\<close> by simp
qed


definition sample_offer :: session_description where
  "sample_offer = offer_description sample_pc_env (push_options True True) (Some 3)"

lemma sample_offer_parts:
  "sd_transports sample_offer = map (\<lambda>t. \<lparr>td_ice_ufrag = replicate 4 (CHR ''u''), td_ice_pwd = replicate 24 (CHR ''p''), td_mid = media_mid t,
     td_fingerprint = Some \<lparr>fp_algorithm = ''sha-256'', fp_text = ''AB''\<rparr>, td_role = ACTPASS\<rparr>)
     [MEDIA_TYPE_AUDIO, MEDIA_TYPE_VIDEO]"
  "map mc_type (sd_contents sample_offer) = [MEDIA_TYPE_AUDIO, MEDIA_TYPE_VIDEO]"
  "list_all (\<lambda>c. mc_codecs c = codecs_of (mc_type c) \<and> mc_candidates c = []) (sd_contents sample_offer)"
  by (simp_all add: sample_offer_def offer_contents)
    (simp_all add: offer_description_def offer_media_def push_options_def offer_options_default_def
      add_group_def add_transport_info_def add_content_def session_description_new_def Let_def audio_content_def
      video_content_def add_content_name_def has_content_name_def create_random_ice_credentials_def sample_pc_env_def)

theorem sdp_round_trip_witness:
  "\<exists>sdp pc'. sdp_to_string ref_rtc ''10.0.0.1'' sample_offer = Some sdp \<and>
     set_remote_sdp sample_pc_env sdp peer_connection_new = Some (0, pc') \<and>
     map_option (map td_ice_ufrag \<circ> sd_transports) (pc_remote_desc pc') = Some [replicate 4 (CHR ''u''), replicate 4 (CHR ''u'')]"
proof -
  have rt: "pe_rt sample_pc_env = ref_rtc" by (simp add: sample_pc_env_def)
  have "sd_groups sample_offer = [\<lparr>cg_semantics = ''BUNDLE'', cg_names = [''audio'', ''video'']\<rparr>]"
    by (simp add: sample_offer_def offer_groups wanted_def)
  moreover have "list_all (printable_td (pe_ssl sample_pc_env)) (sd_transports sample_offer)"
    by (simp add: sample_offer_parts printable_td_def sdp_text_def sample_pc_env_def to_lower_def char_of_def)
  moreover have "list_all (printable_content ref_rtc ''10.0.0.1'') (sd_contents sample_offer)"
    using sample_offer_parts(3) by (auto simp: list_all_iff printable_content_def)
  ultimately have "printable (pe_rt sample_pc_env) (pe_ssl sample_pc_env) ''10.0.0.1'' sample_offer"
    by (simp add: printable_def rt)
  moreover have "transports_ok (pc_transport peer_connection_new)" "split_ok (pe_rt sample_pc_env)"
    using transports_ok_new [of None]
    by (simp_all add: rt peer_connection_new_def tr_set_local_certificate_def transport_controller_new_def)
  moreover have "read_transport sample_offer t = (the (get_transport_info (media_mid t) sample_offer))\<lparr>td_role := NONE\<rparr>" for t
  proof -
    have "mc_type ` set (sd_contents sample_offer) = set (map mc_type (sd_contents sample_offer))" by simp
    then show ?thesis
      by (cases t) (simp_all add: read_transport_def sample_offer_parts(2) get_transport_info_def sample_offer_parts(1))
  qed
  then have "map td_ice_ufrag (sd_transports (read_back (pe_direction sample_pc_env) sample_offer)) = [replicate 4 (CHR ''u''), replicate 4 (CHR ''u'')]"
    by (simp add: read_back_def get_transport_info_def sample_offer_parts(1))
  ultimately show ?thesis
    using sdp_round_trip [of sample_pc_env "''10.0.0.1''" sample_offer peer_connection_new] unfolding rt by auto
qed

end
