(* ===== verification/Stun_Types.thy ===== *)
theory Stun_Types
  imports Ice_Connection_Properties
begin

text \<open>
  The casts of STUN attributes.  \<^verbatim>\<open>get_uint32\<close>, \<^verbatim>\<open>get_byte_string\<close> and \<^verbatim>\<open>get_error_code\<close> cast the attribute
  of a type to a class without a check.  The messages of this program are those that its own calls
  build; in all of them the type of an attribute decides its class, so no cast is wrong.
\<close>

section \<open>Accessors\<close>

text \<open>The outer option is the wrong cast, the inner one the null pointer.\<close>

definition get_uint32 :: "stun_message \<Rightarrow> u16 \<Rightarrow> u32 option option" where
  "get_uint32 m t = (case get_attribute m t of
     None \<Rightarrow> Some None
   | Some a \<Rightarrow> (case a of UInt32Attr _ v \<Rightarrow> Some (Some v) | _ \<Rightarrow> None))"

definition get_byte_string :: "stun_message \<Rightarrow> u16 \<Rightarrow> string option option" where
  "get_byte_string m t = (case get_attribute m t of
     None \<Rightarrow> Some None
   | Some a \<Rightarrow> (case a of ByteStringAttr _ _ bs \<Rightarrow> Some (Some bs) | _ \<Rightarrow> None))"

section \<open>Messages of the program\<close>

text \<open>The attributes the program adds, and the ways it changes a message.\<close>

inductive own_attr :: "stun_attr \<Rightarrow> bool" where
  user: "own_attr (byte_string_attr STUN_ATTR_USERNAME s)"
| controlling: "own_attr (UInt64Attr STUN_ATTR_ICE_CONTROLLING v)"
| use_candidate: "own_attr (ByteStringAttr STUN_ATTR_USE_CANDIDATE 0 [])"
| prio: "own_attr (UInt32Attr STUN_ATTR_PRIORITY p)"
| mapped: "own_attr (XorAddressAttr STUN_ATTR_XOR_MAPPED_ADDRESS a)"
| error: "own_attr (set_reason r (set_code n create_error_code))"

inductive program_message :: "rtcbase \<Rightarrow> stun_message \<Rightarrow> bool" for rt where
  new: "program_message rt stun_message_new"
| head: "program_message rt m \<Longrightarrow> program_message rt (m\<lparr>m_type := ty, m_transaction_id := tid\<rparr>)"
| add: "program_message rt m \<Longrightarrow> own_attr a \<Longrightarrow> program_message rt (add_attribute a m)"
| integrity: "program_message rt m \<Longrightarrow> program_message rt (snd (add_message_integrity rt key m))"
| fingerprint: "program_message rt m \<Longrightarrow> program_message rt (snd (add_fingerprint rt m))"
| read: "program_message rt m \<Longrightarrow> stun_read rt m bs = Some (ok, m') \<Longrightarrow> program_message rt m'"
| checked: "program_message rt m \<Longrightarrow> validate_message_integrity rt key m = Some (st, m') \<Longrightarrow> program_message rt m'"

text \<open>The typing: one class for each type.\<close>

fun typed_attr :: "stun_attr \<Rightarrow> bool" where
  "typed_attr (ByteStringAttr t l bs) \<longleftrightarrow>
     t \<in> {STUN_ATTR_USERNAME, STUN_ATTR_MESSAGE_INTEGRITY, STUN_ATTR_USE_CANDIDATE}"
| "typed_attr (UInt32Attr t v) \<longleftrightarrow> t \<in> {STUN_ATTR_PRIORITY, STUN_ATTR_FINGERPRINT}"
| "typed_attr (UInt64Attr t v) \<longleftrightarrow> t = STUN_ATTR_ICE_CONTROLLING"
| "typed_attr (AddressAttr t a) \<longleftrightarrow> False"
| "typed_attr (XorAddressAttr t a) \<longleftrightarrow> t = STUN_ATTR_XOR_MAPPED_ADDRESS"
| "typed_attr (ErrorCodeAttr t l c n r) \<longleftrightarrow> t = STUN_ATTR_ERROR_CODE"

lemma own_attr_typed: "own_attr a \<Longrightarrow> typed_attr a"
  by (induction rule: own_attr.induct)
    (simp_all add: byte_string_attr_def set_reason_def set_code_def create_error_code_def)

lemma received_attr_typed: "received_attr a \<Longrightarrow> typed_attr a"
  by (cases a) auto

lemma update_last_typed:
  assumes "list_all typed_attr (as @ [a])" "\<And>a. typed_attr a \<Longrightarrow> typed_attr (f a)"
  shows "list_all typed_attr (update_last f (as @ [a]))"
  using assms by simp

lemma copy_typed: "typed_attr a \<Longrightarrow> typed_attr (copy_bytes s a)" "typed_attr a \<Longrightarrow> typed_attr (set_value v a)"
  by (cases a; simp add: copy_bytes_def)  (cases a; simp add: set_value_def)

lemma signed_typed:
  assumes "list_all typed_attr (m_attrs m)"
  shows "list_all typed_attr (m_attrs (snd (add_message_integrity rt key m)))"
    and "list_all typed_attr (m_attrs (snd (add_fingerprint rt m)))"
  using assms
  by (auto simp: add_message_integrity_def add_message_integrity_of_type_def add_fingerprint_def Let_def
    add_attribute_def byte_string_attr_def copy_typed split: prod.split)

lemma read_typed:
  assumes "byte_buffer_ok rt" "stun_read rt m bs = Some (ok, m')" "list_all typed_attr (m_attrs m)"
  shows "list_all typed_attr (m_attrs m')"
proof -
  obtain ok1 as where "read_attrs rt [] (drop 20 bs) = Some (ok1, as)"
    "\<forall>a \<in> set as. received_attr a" using read_attrs_returns [OF assms(1), of "[]" "drop 20 bs"] by auto
  then show ?thesis
    using assms received_attr_typed
    by (auto simp: stun_read_def Let_def grtc_simps list_all_iff split: if_splits)
qed

lemma checked_attrs: "validate_message_integrity rt key m = Some (st, m') \<Longrightarrow> m_attrs m' = m_attrs m"
  by (auto simp: validate_message_integrity_def Let_def split: option.splits if_splits prod.splits Option.bind_splits)

lemma program_message_typed:
  assumes "program_message rt m" "byte_buffer_ok rt"
  shows "list_all typed_attr (m_attrs m)"
  using assms
proof (induction rule: program_message.induct)
  case (add m a)
  then show ?case using own_attr_typed by (simp add: add_attribute_def)
qed (auto simp: stun_message_new_def signed_typed checked_attrs intro: read_typed)

lemma typed_lookup:
  assumes "list_all typed_attr (m_attrs m)" "get_attribute m t = Some a"
  shows "typed_attr a \<and> attr_type a = t"
  using assms by (auto simp: get_attribute_def find_Some_iff list_all_length)


text \<open>The requests and responses of a connection and of a port are built that way.\<close>

lemma request_is_program_message:
  "program_message rt m \<Longrightarrow> program_message rt (connection_request_prepare rt p prio remote m)"
proof -
  assume m: "program_message rt m"
  have "program_message rt (m\<lparr>m_type := STUN_BINDING_REQUEST\<rparr>)"
    using program_message.head [OF m, where ty = STUN_BINDING_REQUEST and tid = "m_transaction_id m"] by simp
  then show ?thesis unfolding connection_request_prepare_def Let_def
    by (intro program_message.add program_message.integrity program_message.fingerprint own_attr.intros)
qed

lemma responses_are_program_messages:
  "program_message rt (error_response tid code reason)"
  "program_message rt (add_attribute (XorAddressAttr STUN_ATTR_XOR_MAPPED_ADDRESS a)
     (stun_message_new\<lparr>m_type := STUN_BINDING_RESPONSE, m_transaction_id := tid\<rparr>))"
  unfolding error_response_def
  by (intro program_message.add program_message.head program_message.new own_attr.intros)+

text \<open>
  C39: The casts of the STUN attributes are never wrong.  In every message the program builds, signs or
  reads from the network - any sequence of its own calls - the type of an attribute decides its
  class, so \<^verbatim>\<open>get_uint32\<close> of PRIORITY or FINGERPRINT, \<^verbatim>\<open>get_byte_string\<close> of USERNAME or MESSAGE-INTEGRITY and
  \<^verbatim>\<open>get_error_code\<close> find an object of the class they cast to, or none; and so do they in the request
  that such a message is made into.\<close>

theorem stun_casts_safe:
  assumes "byte_buffer_ok rt" "program_message rt m" "m' \<in> {m, connection_request_prepare rt p prio remote m}"
  shows "list_all typed_attr (m_attrs m') \<and> (\<forall>t \<in> {STUN_ATTR_PRIORITY, STUN_ATTR_FINGERPRINT}. get_uint32 m' t \<noteq> None) \<and>
    (\<forall>t \<in> {STUN_ATTR_USERNAME, STUN_ATTR_MESSAGE_INTEGRITY}. get_byte_string m' t \<noteq> None) \<and>
    get_error_code_value m' \<noteq> None"
proof -
  have "program_message rt m'" using assms(2,3) request_is_program_message by blast
  then have ty: "list_all typed_attr (m_attrs m')" using program_message_typed assms(1) by blast
  note look = typed_lookup [OF ty]
  have "get_uint32 m' t \<noteq> None" if "t \<in> {STUN_ATTR_PRIORITY, STUN_ATTR_FINGERPRINT}" for t
    using look [of t] that by (auto simp: get_uint32_def split: option.split stun_attr.split)
  moreover have "get_byte_string m' t \<noteq> None" if "t \<in> {STUN_ATTR_USERNAME, STUN_ATTR_MESSAGE_INTEGRITY}" for t
    using look [of t] that by (auto simp: get_byte_string_def split: option.split stun_attr.split)
  moreover have "error_code a \<noteq> None" if "get_attribute m' STUN_ATTR_ERROR_CODE = Some a" for a
    using look [OF that] by (cases a) auto
  ultimately show ?thesis using ty by (simp add: get_error_code_value_def split: option.split)
qed

theorem stun_casts_safe_witness:
  "get_uint32 (connection_request_prepare ref_rtc sample_port 7 sample_candidate stun_message_new) STUN_ATTR_PRIORITY \<noteq> None"
  using stun_casts_safe [OF ref_rtc_ok(1) program_message.new, of "connection_request_prepare ref_rtc sample_port 7 sample_candidate stun_message_new"]
  by blast

end
