(* ===== verification/Async_Udp_Socket.thy ===== *)
theory Async_Udp_Socket
  imports Base_Socket Event_Loop "HOL-Library.Sublist"
begin

text \<open>
  \<^verbatim>\<open>src/base/async_udp_socket.cpp\<close>: a non-blocking UDP socket with a queue of packets that could not
  be sent yet.  The results of the \<^verbatim>\<open>sendto\<close> calls of one operation are a function \<open>res\<close> of the
  number of the call; \<open>salen\<close> is \<^verbatim>\<open>SocketAddress::ToSockAddrStorage\<close> (the length it returns).  The
  packets put on the wire by an operation are part of its result.
\<close>

unbundle bit_operations_syntax

abbreviation MAX_BUF_SIZE :: nat where "MAX_BUF_SIZE \<equiv> 1500"

text \<open>\<^verbatim>\<open>UdpPacketData\<close>: an owned copy of the bytes and the destination.\<close>

type_synonym udp_packet_data = "string \<times> socket_address"

record async_socket =
  as_socket :: int
  as_watcher :: io_watcher
  as_list :: "udp_packet_data list"

definition async_socket_new :: "io_watcher \<Rightarrow> int \<Rightarrow> async_socket" where
  "async_socket_new u socket =
     \<lparr>as_socket = socket, as_watcher = start_io_event (create_io_event u) socket EV_LOOP_READ,
      as_list = []\<rparr>"

section \<open>Receiving\<close>

text \<open>
  The loop of \<^verbatim>\<open>recv_data\<close> over the results of \<^verbatim>\<open>recvfrom\<close> with the datagram, its sender and its time
  stamp: the packets handed to \<^verbatim>\<open>signal_read_packet\<close>; \<open>None\<close> while it still waits when the list ends.
\<close>

fun recv_data ::
    "(sys_result \<times> string \<times> socket_address \<times> (int \<times> int) option) list
      \<Rightarrow> (string \<times> socket_address \<times> int) list option" where
  "recv_data [] = None"
| "recv_data ((r, dgram, addr, tv) # rs) =
     (let len = sock_recv_from r in
      if len \<le> 0 then Some []
      else map_option ((#) (take (nat len) dgram, addr, sock_get_recv_timestamp tv)) (recv_data rs))"

section \<open>Sending\<close>

datatype drain_end = Sent_all | Send_again udp_packet_data | Send_failed

text \<open>
  The loop both senders share.  It results in how it ended, the packets sent, the packets left in the
  list, and the number of calls made.
\<close>

fun drain ::
    "(nat \<Rightarrow> sys_result) \<Rightarrow> nat \<Rightarrow> udp_packet_data list
      \<Rightarrow> drain_end \<times> udp_packet_data list \<times> udp_packet_data list \<times> nat" where
  "drain res k [] = (Sent_all, [], [], k)"
| "drain res k (p # ps) =
     (let sent = sock_send_to (res k) in
      if sent < 0 then (Send_failed, [], ps, Suc k)
      else if sent = 0 then (Send_again p, [], p # ps, Suc k)
      else (case drain res (Suc k) ps of (e, wire, rest, k') \<Rightarrow> (e, p # wire, rest, k')))"

definition as_send_data ::
    "(nat \<Rightarrow> sys_result) \<Rightarrow> async_socket \<Rightarrow> udp_packet_data list \<times> async_socket" where
  "as_send_data res s =
     (case drain res 0 (as_list s) of (e, wire, rest, k) \<Rightarrow>
        let s1 = s\<lparr>as_list := rest\<rparr> in
        (wire, case e of
           Sent_all \<Rightarrow> s1\<lparr>as_watcher := stop_io_event (as_watcher s) (as_socket s) EV_LOOP_WRITE\<rparr>
         | _ \<Rightarrow> s1))"

text \<open>The code after the label \<^verbatim>\<open>SEND_AGAIN\<close>; \<open>len\<close> is the local variable of that name.\<close>

definition send_again :: "nat \<Rightarrow> udp_packet_data \<Rightarrow> async_socket \<Rightarrow> int \<times> async_socket" where
  "send_again len p s =
     (int len, s\<lparr>as_list := as_list s @ [p],
                 as_watcher := start_io_event (as_watcher s) (as_socket s) EV_LOOP_WRITE\<rparr>)"

definition add_udp_packet ::
    "(socket_address \<Rightarrow> nat) \<Rightarrow> (nat \<Rightarrow> sys_result) \<Rightarrow> string \<Rightarrow> socket_address \<Rightarrow> async_socket
      \<Rightarrow> int \<times> udp_packet_data list \<times> async_socket" where
  "add_udp_packet salen res data addr s =
     (case drain res 0 (as_list s) of (e, wire, rest, k) \<Rightarrow>
        let s1 = s\<lparr>as_list := rest\<rparr> in
        case e of
          Send_failed \<Rightarrow> (-1, wire, s1)
        | Send_again p \<Rightarrow>
            (case send_again (salen (snd p)) (data, addr) s1 of (ret, s2) \<Rightarrow> (ret, wire, s2))
        | Sent_all \<Rightarrow>
            let sent = sock_send_to (res k) in
            if sent < 0 then (-1, wire, s1)
            else if sent = 0 then
              (case send_again (salen addr) (data, addr) s1 of (ret, s2) \<Rightarrow> (ret, wire, s2))
            else (sent, wire @ [(data, addr)], s1))"

text \<open>The event callback: both events may be reported at once.\<close>

definition async_udp_socket_io_cb ::
    "(nat \<Rightarrow> sys_result) \<Rightarrow> (sys_result \<times> string \<times> socket_address \<times> (int \<times> int) option) list
      \<Rightarrow> int \<Rightarrow> async_socket
      \<Rightarrow> ((string \<times> socket_address \<times> int) list \<times> udp_packet_data list \<times> async_socket) option" where
  "async_udp_socket_io_cb res rs events s =
     do { got \<leftarrow> (if events AND EV_LOOP_READ \<noteq> 0 then recv_data rs else Some []);
          Some (if events AND EV_LOOP_WRITE \<noteq> 0
                then (case as_send_data res s of (wire, s') \<Rightarrow> (got, wire, s'))
                else (got, [], s)) }"

section \<open>The send queue\<close>

lemma drain_spec:
  assumes "drain res k ps = (e, wire, rest, k')"
  shows "(case e of
      Sent_all \<Rightarrow> ps = wire \<and> rest = []
    | Send_again p \<Rightarrow> ps = wire @ rest \<and> rest \<noteq> [] \<and> p = hd rest
    | Send_failed \<Rightarrow> \<exists>p. ps = wire @ p # rest)"
  using assms
proof (induction ps arbitrary: k e wire rest k')
  case (Cons p ps)
  consider "sock_send_to (res k) < 0" | "sock_send_to (res k) = 0" | "0 < sock_send_to (res k)"
    by linarith
  then show ?case
  proof cases
    case 3
    obtain e' w' r' k'' where d: "drain res (Suc k) ps = (e', w', r', k'')"
      using prod_cases4 by blast
    with 3 Cons.prems have "e = e'" "wire = p # w'" "rest = r'" by simp_all
    with Cons.IH [OF d] show ?thesis by (cases e') auto
  qed (use Cons.prems in auto)
qed simp

lemma drain_subseq: "drain res k ps = (e, wire, rest, k') \<Longrightarrow> subseq (wire @ rest) ps"
  by (drule drain_spec) (auto split: drain_end.splits simp: subseq_append' subseq_drop_many)

text \<open>An operation: a packet is handed over, or the loop reports the socket writable.\<close>

datatype as_event =
  Send_packet string socket_address "nat \<Rightarrow> sys_result"
| Writable "nat \<Rightarrow> sys_result"

fun as_step ::
    "(socket_address \<Rightarrow> nat) \<Rightarrow> as_event \<Rightarrow> async_socket \<Rightarrow> udp_packet_data list \<times> async_socket" where
  "as_step salen (Send_packet d a res) s = snd (add_udp_packet salen res d a s)"
| "as_step salen (Writable res) s = as_send_data res s"

fun as_run ::
    "(socket_address \<Rightarrow> nat) \<Rightarrow> as_event list \<Rightarrow> async_socket \<Rightarrow> udp_packet_data list \<times> async_socket" where
  "as_run salen [] s = ([], s)"
| "as_run salen (e # es) s =
     (case as_step salen e s of (w1, s1) \<Rightarrow> case as_run salen es s1 of (w2, s2) \<Rightarrow> (w1 @ w2, s2))"

primrec handed :: "as_event \<Rightarrow> udp_packet_data list" where
  "handed (Send_packet d a res) = [(d, a)]"
| "handed (Writable res) = []"

primrec no_failure :: "as_event \<Rightarrow> bool" where
  "no_failure (Send_packet d a res) \<longleftrightarrow> (\<forall>k. 0 \<le> sock_send_to (res k))"
| "no_failure (Writable res) \<longleftrightarrow> (\<forall>k. 0 \<le> sock_send_to (res k))"

definition as_ok :: "async_socket \<Rightarrow> bool" where
  "as_ok s \<longleftrightarrow> reads (as_watcher s) \<and> (as_list s \<noteq> [] \<longrightarrow> writes (as_watcher s))"

lemma as_ok_new: "as_ok (async_socket_new u fd)"
  by (simp add: as_ok_def async_socket_new_def)

lemma drain_no_failure:
  "drain res k ps = (e, wire, rest, k') \<Longrightarrow> (\<And>j. 0 \<le> sock_send_to (res j)) \<Longrightarrow>
     wire @ rest = ps \<and> e \<noteq> Send_failed"
proof (induction ps arbitrary: k e wire rest k')
  case (Cons p ps)
  then show ?case using Cons.prems(2) [of k]
    by (cases "sock_send_to (res k) = 0") (auto split: prod.splits)
qed simp

lemma as_step_spec:
  assumes "as_step salen ev s = (w, s')"
  shows "subseq (w @ as_list s') (as_list s @ handed ev)"
    and "no_failure ev \<Longrightarrow> w @ as_list s' = as_list s @ handed ev"
    and "as_ok s \<Longrightarrow> as_ok s'"
proof -
  obtain res where r: "(\<exists>d a. ev = Send_packet d a res) \<or> ev = Writable res"
    by (cases ev) auto
  obtain e wire rest k where d: "drain res 0 (as_list s) = (e, wire, rest, k)"
    using prod_cases4 by blast
  note dd = drain_spec [OF d] drain_subseq [OF d]
  have sub: "subseq (wire @ rest @ t) (as_list s @ t)" for t
    using drain_subseq [OF d] by (metis append.assoc list_emb_append_mono subseq_order.refl)
  have sub': "subseq (wire @ rest) (as_list s @ t)" for t
    using drain_subseq [OF d] by (rule subseq_rev_drop_many)
  show "subseq (w @ as_list s') (as_list s @ handed ev)"
    using r assms d sub sub' dd
    by (auto simp: as_send_data_def add_udp_packet_def send_again_def Let_def
        split: drain_end.splits if_splits)
  show "no_failure ev \<Longrightarrow> w @ as_list s' = as_list s @ handed ev"
    using r assms d drain_no_failure [OF d] dd
    by (auto simp: as_send_data_def add_udp_packet_def send_again_def Let_def not_less [symmetric]
        split: drain_end.splits if_splits)
  show "as_ok s \<Longrightarrow> as_ok s'"
    using r assms d dd
    by (auto simp: as_ok_def as_send_data_def add_udp_packet_def send_again_def Let_def
        interest_stop active_iff_interest split: drain_end.splits if_splits)
qed

lemma as_run_spec:
  assumes "as_ok s" "as_run salen es s = (w, s')"
  shows "subseq (w @ as_list s') (as_list s @ concat (map handed es)) \<and>
    (list_all no_failure es \<longrightarrow> w @ as_list s' = as_list s @ concat (map handed es)) \<and> as_ok s'"
  using assms
proof (induction es arbitrary: s w)
  case (Cons ev es)
  obtain w1 s1 w2 where st: "as_step salen ev s = (w1, s1)" and ru: "as_run salen es s1 = (w2, s')"
    and w: "w = w1 @ w2"
    using Cons.prems(2) by (auto split: prod.splits)
  note s1 = as_step_spec [OF st]
  have ok: "as_ok s1" using s1(3) Cons.prems(1) by blast
  note IH = Cons.IH [OF ok ru]
  have "subseq (w1 @ w2 @ as_list s') (w1 @ as_list s1 @ concat (map handed es))"
    using IH by (simp add: subseq_append')
  moreover have "subseq ((w1 @ as_list s1) @ concat (map handed es))
      ((as_list s @ handed ev) @ concat (map handed es))"
    using s1(1) by (simp only: subseq_append)
  ultimately have "subseq (w @ as_list s') (as_list s @ concat (map handed (ev # es)))"
    using w by (auto intro: subseq_order.trans)
  moreover have "w @ as_list s' = as_list s @ concat (map handed (ev # es))"
    if "list_all no_failure (ev # es)"
    using that IH s1(2) w by auto
  ultimately show ?case using IH by blast
qed simp

text \<open>
  C33: Over any history of sends and writable events of a fresh socket, with any results of \<^verbatim>\<open>sendto\<close>,
  the packets on the wire followed by those still queued are a subsequence of the packets handed
  over: never reordered, duplicated or invented.  If no call failed they are exactly those packets.
  And a queued packet is never forgotten: while the queue is not empty the socket waits to become
  writable.\<close>

theorem udp_send_order:
  assumes "as_run salen es (async_socket_new u fd) = (wire, s)"
  shows "subseq (wire @ as_list s) (concat (map handed es)) \<and>
    (list_all no_failure es \<longrightarrow> wire @ as_list s = concat (map handed es)) \<and>
    (as_list s \<noteq> [] \<longrightarrow> writes (as_watcher s)) \<and> reads (as_watcher s)"
  using as_run_spec [OF as_ok_new assms] by (simp add: as_ok_def async_socket_new_def)

definition sample_addr :: socket_address where
  "sample_addr = \<lparr>ipaddr = IPv4 0x0100007F, sport = 5000\<rparr>"

definition sample_udp_events :: "as_event list" where
  "sample_udp_events =
     [Send_packet ''a'' sample_addr (\<lambda>k. Fail EAGAIN),
      Send_packet ''b'' sample_addr (\<lambda>k. if k = 0 then Done 1 else Fail EAGAIN)]"

theorem udp_send_order_witness:
  "as_list (snd (as_run (\<lambda>a. 16) sample_udp_events
      (async_socket_new \<lparr>w_active = False, w_fd = 0, w_events = 0\<rparr> 7))) = [(''b'', sample_addr)] \<and>
   writes (as_watcher (snd (as_run (\<lambda>a. 16) sample_udp_events
      (async_socket_new \<lparr>w_active = False, w_fd = 0, w_events = 0\<rparr> 7))))"
proof -
  let ?r = "as_run (\<lambda>a. 16) sample_udp_events
      (async_socket_new \<lparr>w_active = False, w_fd = 0, w_events = 0\<rparr> 7)"
  have l: "as_list (snd ?r) = [(''b'', sample_addr)]"
    by (simp add: sample_udp_events_def async_socket_new_def add_udp_packet_def send_again_def
        sock_send_to_def Let_def)
  show ?thesis
    using udp_send_order [OF prod.collapse [symmetric], of "\<lambda>a. 16" sample_udp_events
        "\<lparr>w_active = False, w_fd = 0, w_events = 0\<rparr>" 7] l by simp
qed

text \<open>
  A packet is lost without a trace in the queue: when an older packet fails, the new one is neither
  sent nor queued, and the caller sees -1 for it.\<close>

lemma send_dropped_behind_failure:
  "sock_send_to (res 0) < 0 \<Longrightarrow> as_list s = p # ps \<Longrightarrow>
     add_udp_packet salen res d a s = (-1, [], s\<lparr>as_list := ps\<rparr>)"
  by (simp add: add_udp_packet_def)

end
