(* ===== verification/Spec2Isabelle.thy ===== *)
theory Spec2Isabelle
  imports Grtc_Main Shutdown Reply_Memory Sdp_Properties Ice_Channel_Properties Stun_Types Async_Udp_Socket
begin

text \<open>
  \<^bold>\<open>grtcserver in Isabelle/HOL.\<close>  A model of the WebRTC media server \<^verbatim>\<open>grtcserver\<close> (\<^verbatim>\<open>src/\<close>) and theorems
  about it.  File names below are relative to \<^verbatim>\<open>src/src/\<close>.

  \<^bold>\<open>The program.\<close>  A client opens a TCP connection and sends one request: a 36-byte header and a JSON
  body.  The signaling server's thread accepts connections and deals them out to signaling workers.  A
  signaling worker reads, frames and checks the request and puts a message into the queue of the RTC
  server, whose thread hands it to the RTC worker its stream name hashes to.  The RTC worker keeps the push streams:
  for a push it creates a peer connection and an SDP offer, which travels back to the signaling worker
  and into the reply; an answer is parsed and configures the transports.  Each peer connection owns a
  transport controller with ICE channels and DTLS transports; a channel answers and sends STUN
  connectivity checks over UDP ports and selects a connection.  Threads talk only through queues and
  pipes; a background thread writes the log.

  \<^bold>\<open>Theories, in the order of dependence.\<close>
    \<^item> \<open>Prelude\<close> (words, bytes, digits, lists), \<open>Rtc_Base\<close> (the interface of \<^verbatim>\<open>rtc_base\<close>), \<open>Fifo\<close> and \<open>Mailbox\<close>
      (the contracts of queues and of queue-with-pipe, as locales), \<open>Registry\<close> (the contract of a keyed
      table), \<open>Stable_Sort\<close> (\<^verbatim>\<open>std::stable_sort\<close> on comparators).
    \<^item> \<open>Lock_Free_Queue\<close>: \<^verbatim>\<open>base/lock_free_queue.h\<close>.  \<open>Base_Socket\<close>: \<^verbatim>\<open>base/socket.cpp\<close>.  \<open>Event_Loop\<close>:
      \<^verbatim>\<open>base/event_loop.cpp\<close>.  \<open>Async_Udp_Socket\<close>: \<^verbatim>\<open>base/async_udp_socket.cpp\<close>.  \<open>Base_Log\<close>: \<^verbatim>\<open>base/log.cpp\<close>.
      \<open>Base_Conf\<close>: \<^verbatim>\<open>base/conf.cpp\<close>.
    \<^item> \<open>Stun\<close>, \<open>Stun_Wire\<close>, \<open>Stun_Properties\<close>, \<open>Stun_Types\<close>: \<^verbatim>\<open>ice/stun.cpp\<close>.  \<open>Stun_Request\<close>: \<^verbatim>\<open>ice/stun_request.cpp\<close>.
      \<open>Candidate\<close>: candidates, priorities, credentials.  \<open>Udp_Port\<close>: \<^verbatim>\<open>ice/udp_port.cpp\<close>.
      \<open>Ice_Connection\<close>, \<open>Ice_Controller\<close>, \<open>Ice_Channel\<close> with their \<open>_Properties\<close>: \<^verbatim>\<open>ice/ice_connection.cpp\<close>,
      \<^verbatim>\<open>ice/ice_controller.cpp\<close>, \<^verbatim>\<open>ice/ice_transport_channel.cpp\<close>.  \<open>Ice_Agent\<close>: \<^verbatim>\<open>ice/ice_agent.cpp\<close>,
      \<^verbatim>\<open>ice/port_allocator.cpp\<close>, \<^verbatim>\<open>base/network.cpp\<close>.
    \<^item> \<open>Session_Description\<close>, \<open>Dtls_Transport\<close>, \<open>Transport_Controller\<close>, \<open>Peer_Connection\<close>: \<^verbatim>\<open>pc/\<close>.
      \<open>Sdp_Properties\<close>: printing and reading session descriptions.  \<open>Rtc_Stream\<close>: \<^verbatim>\<open>stream/\<close>.
    \<^item> \<open>Tcp_Connection\<close>, \<open>Signaling_Request\<close>, \<open>Signaling_Worker\<close>, \<open>Signaling_Worker_Properties\<close>,
      \<open>Signaling_Server\<close>, \<open>Rtc_Worker\<close>, \<open>Rtc_Worker_Properties\<close>, \<open>Rtc_Server\<close>: \<^verbatim>\<open>server/\<close>.
      \<open>Reply_Memory\<close>: the buffers of the replies and \<^verbatim>\<open>~TcpConnection\<close>.  \<open>Grtc_Main\<close>: \<^verbatim>\<open>main.cpp\<close>.
    \<^item> \<open>Refinement\<close> (forward simulation and book-keeping along runs, as locales), \<open>Rtc_Worker_Spec\<close>, \<open>Rtc_Sharding\<close>: what an RTC worker and
      the RTC server with all its workers promise, and that the code refines it.
    \<^item> \<open>Server_System\<close>: signaling worker, RTC server and RTC workers composed, one step per event-loop
      callback, and the way of a request through all of them.  \<open>Server_Requests\<close>, \<open>Server_Interleaving\<close>,
      \<open>Server_Progress\<close>: the same threads in every interleaving; which offers reach which clients, and that
      no request stays under way.  \<open>Shutdown\<close>: stopping the RTC service, with the joins of its workers.

  \<^bold>\<open>How the code is rendered.\<close>  A class is a record with the code's fields; a method is a function from
  the object to the result and the new object.  Objects reached through several pointers (the nodes of
  the queue, the connections of a signaling worker, the ports and connections of a channel, the pending
  STUN requests) live in a heap, a partial map from addresses.  \<open>None\<close> as the result of an operation is
  a fault: a dereference of null or of freed memory, an index outside a vector, an exception nobody
  catches, or, for a \<open>partial_function\<close>, a loop that never ends.  Results of system calls are arguments
  (\<open>sys_result\<close>; a function of the call's number where a loop makes several).  Integers that are stored
  in fixed width are words or have the wrap-around written out; pointers that only serve as identity are
  natural numbers.  Callbacks and sigslot signals are returned as lists of events or run in place, in
  the order of the code.  Log output is left out, unless evaluating its arguments can fault.
  Concurrency: \<open>Lock_Free_Queue\<close> interleaves producer and consumer statement by statement; elsewhere a
  step is one event-loop callback of one thread or one operation under a mutex.

  \<^bold>\<open>What is shown.\<close>
    \<^item> Queues: no use of freed memory in any interleaving, order, no leak; exactly-once hand-over through
      the mailboxes (locale \<open>mailbox\<close>, interpreted for connections, RTC messages and the server queue).
    \<^item> Signaling: the worker's state invariant over all schedules of callbacks; framing is independent of
      how TCP splits the bytes; replies are sent whole and their buffers freed once; round robin and
      routing by stream name.
    \<^item> The whole: a push that enters a quiet system comes back as the reply with the offer.  In every
      interleaving of the threads nothing faults, each offer answers one request, of the client that sent
      it, none is answered twice, and every request comes to its end when the notified threads run.
      Stopping the RTC service answers the pushes that wait in its workers, and returns unless the
      write of a QUIT fails.
    \<^item> RTC: server and workers act as one table of streams; every push is answered with a well-formed
      offer; an answer reaches only the stream of its name and uid and keeps its channels and transports
      consistent; what the server prints as SDP its own reader understands.
    \<^item> ICE: wire format round trips, type safety of the attribute casts, authentication of requests and
      responses, the state invariant of a channel over all packet and timer histories, selection and
      pinging order, the write-state machine, priorities, request lifetime.
    \<^item> DTLS, UDP, log, event loop, start and stop of the whole program.
    \<^item> Several theorems state exactly where the code departs from its intention: the inputs for which it
      faults, hangs, or applies a rule it should not.

  \<^bold>\<open>Bounds.\<close>  No fuel is used.  Loops that may not end are \<open>partial_function (option)\<close>
  (\<open>process_query_buffer\<close>, \<open>write_loop\<close>, \<open>mem_write_loop\<close>, \<open>rw_run\<close>), and returning is a part of the theorems about them; all other recursion is
  structural or has a termination proof.  The two hypotheses on sizes are those of the code: request
  framing below its own constant of 65535 bytes, and less than \<open>2 ^ 31\<close> workers.

  \<^bold>\<open>Assumptions.\<close>  \<^verbatim>\<open>rtc_base\<close> (byte buffers, byte order, HMAC, CRC, splitting, addresses), libev, JsonCpp,
  yaml-cpp, OpenSSL and the C library are not in the repository.  They are arguments of the definitions;
  what is relied on is stated by \<open>byte_buffer_ok\<close>, \<open>byte_order_ok\<close>, \<open>hmac_ok\<close> and \<open>split_ok\<close>, which the
  instance \<open>ref_rtc\<close> satisfies.

  \<^bold>\<open>Not modelled.\<close>  Log lines (the \<^verbatim>\<open>to_string\<close> methods they print are); the bodies of
  \<^verbatim>\<open>StreamInterfaceChannel\<close>, which are empty; libev's scheduling; the freeing of members in destructors
  of the servers that no other object observes; the joins of the server threads and of the signaling workers (those of the
  RTC workers are); build output and vendored headers.
\<close>

end
